theory Spec2Isabelle
  imports Main "HOL-Library.Sublist" "HOL-Library.AList"
begin

section \<open>Strings of the host language\<close>

text \<open>
  The server is TypeScript on Node. A text is modelled as a \<^typ>\<open>string\<close>, one
  \<^typ>\<open>char\<close> per code unit, so the model covers texts whose code units are below 256.
  The string methods the server calls are written out here for the arguments the server
  passes (non-empty search strings, non-negative positions).
\<close>

text \<open>\<^verbatim>\<open>s.indexOf(pat, pos)\<close>: the least position at or after \<open>pos\<close> where \<open>pat\<close>
  starts, \<open>None\<close> for the result -1.\<close>

primrec find_from :: "string \<Rightarrow> string \<Rightarrow> nat \<Rightarrow> nat option" where
  "find_from pat [] k = (if pat = [] then Some k else None)"
| "find_from pat (c # cs) k =
     (if prefix pat (c # cs) then Some k else find_from pat cs (Suc k))"

definition indexOf :: "string \<Rightarrow> string \<Rightarrow> nat \<Rightarrow> nat option" where
  "indexOf s pat pos = find_from pat (drop pos s) (min pos (length s))"

text \<open>\<^verbatim>\<open>s.slice(a, b)\<close> and \<^verbatim>\<open>s.slice(a)\<close> for non-negative \<open>a\<close>, \<open>b\<close>; the latter is
  \<^term>\<open>drop a s\<close>.\<close>

definition slice :: "string \<Rightarrow> nat \<Rightarrow> nat \<Rightarrow> string" where
  "slice s a b = take (b - a) (drop a s)"

lemma find_from_ge: "find_from pat cs k = Some i \<Longrightarrow> k \<le> i"
  by (induction cs arbitrary: k) (auto split: if_splits dest: Suc_leD)

lemma indexOf_ge: "indexOf s pat pos = Some i \<Longrightarrow> min pos (length s) \<le> i"
  unfolding indexOf_def by (rule find_from_ge)


text \<open>\<^verbatim>\<open>s.lastIndexOf(pat)\<close>: the greatest position where \<open>pat\<close> starts, found as the
  first occurrence of the reversed pattern in the reversed text.\<close>

definition lastIndexOf :: "string \<Rightarrow> string \<Rightarrow> nat option" where
  "lastIndexOf s pat =
     (case find_from (rev pat) (rev s) 0 of
        None \<Rightarrow> None
      | Some k \<Rightarrow> Some (length s - length pat - k))"

text \<open>
  White space as \<^verbatim>\<open>trim()\<close> and the class \<^verbatim>\<open>\s\<close> know it, among code units below 256:
  tab, line feed, vertical tab, form feed, carriage return, space, no-break space.
\<close>

definition charCode :: "char \<Rightarrow> nat" where
  "charCode c = of_char c"

definition isWhiteSpace :: "char \<Rightarrow> bool" where
  "isWhiteSpace c = (charCode c \<in> {9, 10, 11, 12, 13, 32, 160})"

definition trim :: "string \<Rightarrow> string" where
  "trim s = rev (dropWhile isWhiteSpace (rev (dropWhile isWhiteSpace s)))"

text \<open>\<^verbatim>\<open>s.search(/\S/)\<close>: the position of the first character that is not white space,
  \<open>None\<close> for -1.\<close>

definition search_nonspace :: "string \<Rightarrow> nat option" where
  "search_nonspace s =
     (if list_all isWhiteSpace s then None else Some (length (takeWhile isWhiteSpace s)))"

text \<open>\<^verbatim>\<open>s.split(/\r?\n/)\<close>: \<open>cur\<close> is the piece being collected; a line feed, with the
  carriage return before it if there is one, ends the piece.\<close>

fun splitLinesFrom :: "string \<Rightarrow> string \<Rightarrow> string list" where
  "splitLinesFrom cur [] = [cur]"
| "splitLinesFrom cur [c] = (if c = CHR 0x0A then [cur, []] else [cur @ [c]])"
| "splitLinesFrom cur (c # d # cs) =
     (if c = CHR 0x0D \<and> d = CHR 0x0A then cur # splitLinesFrom [] cs
      else if c = CHR 0x0A then cur # splitLinesFrom [] (d # cs)
      else splitLinesFrom (cur @ [c]) (d # cs))"

definition splitLines :: "string \<Rightarrow> string list" where
  "splitLines s = splitLinesFrom [] s"

text \<open>\<^verbatim>\<open>parts.join(sep)\<close> for an array of strings.\<close>

fun join :: "string \<Rightarrow> string list \<Rightarrow> string" where
  "join sep [] = []"
| "join sep [x] = x"
| "join sep (x # y # ys) = x @ sep @ join sep (y # ys)"

section \<open>External Compiler Bridge: sentinel demultiplexing\<close>

text \<open>
  \<^verbatim>\<open>splitUmpleSyncOutput\<close>: the \<^verbatim>\<open>while (index < raw.length)\<close> loop with its three
  variables \<open>index\<close>, \<open>stdout\<close>, \<open>stderr\<close>; each \<^verbatim>\<open>break\<close> is a branch that returns.
\<close>

function splitLoop :: "string \<Rightarrow> nat \<Rightarrow> string \<Rightarrow> string \<Rightarrow> string \<times> string" where
  "splitLoop raw index stdout stderr =
     (if index < length raw then
        (case indexOf raw ''ERROR!!'' index of
           None \<Rightarrow> (stdout @ drop index raw, stderr)
         | Some start \<Rightarrow>
             (case indexOf raw ''!!ERROR'' (start + 7) of
                None \<Rightarrow> (stdout @ slice raw index start, stderr @ drop (start + 7) raw)
              | Some end' \<Rightarrow>
                  splitLoop raw (end' + 7) (stdout @ slice raw index start)
                    (stderr @ slice raw (start + 7) end')))
      else (stdout, stderr))"
  by pat_completeness auto
termination
proof (relation "measure (\<lambda>(raw, index, stdout, stderr). length raw - index)", goal_cases)
  case 1
  show ?case by simp
next
  case (2 raw index stdout stderr start end')
  from 2 have "min index (length raw) \<le> start"
    and "min (start + 7) (length raw) \<le> end'"
    by (auto dest: indexOf_ge)
  with 2 show ?case by auto
qed

declare splitLoop.simps [simp del]

definition splitUmpleSyncOutput :: "string \<Rightarrow> string \<times> string" where
  "splitUmpleSyncOutput raw = splitLoop raw 0 [] []"

section \<open>Validation Pipeline: diagnostics from the structured error stream\<close>

subsection \<open>Results of the host's operations\<close>

text \<open>
  An operation of the host returns a value or throws. The third outcome marks an input on
  which this model does not say what the host does: a value outside the declared type
  (\<^verbatim>\<open>UmpleJsonResult\<close> declares every field a string), a code unit above 255, a
  number that is not a small integer. Nothing is proved about such inputs.
\<close>

datatype 'a outcome = Returns 'a | Throws | Unmodelled

fun bind_outcome :: "'a outcome \<Rightarrow> ('a \<Rightarrow> 'b outcome) \<Rightarrow> 'b outcome" where
  "bind_outcome (Returns x) f = f x"
| "bind_outcome Throws f = Throws"
| "bind_outcome Unmodelled f = Unmodelled"

text \<open>\<^verbatim>\<open>xs.map(f)\<close> where \<open>f\<close> may throw: the elements in order, ended by the first one
  that does not return.\<close>

fun map_outcome :: "('a \<Rightarrow> 'b outcome) \<Rightarrow> 'a list \<Rightarrow> 'b list outcome" where
  "map_outcome f [] = Returns []"
| "map_outcome f (x # xs) =
     bind_outcome (f x) (\<lambda>y. bind_outcome (map_outcome f xs) (\<lambda>ys. Returns (y # ys)))"

subsection \<open>Numbers\<close>

text \<open>
  \<^verbatim>\<open>Number(s)\<close> on a string. The service writes line numbers and severities as decimal
  integers, and on those the conversion is exact up to \<open>2\<^sup>5\<^sup>3\<close>: white space around an
  optional sign and digits. The empty string converts to 0. A string without any digit
  that is not one of the spellings of infinity converts to \<^verbatim>\<open>NaN\<close>. Other numeric
  spellings (fraction, exponent, radix prefix, infinity, more than 53 bits) are left
  unmodelled.
\<close>

datatype jsnum = NaN | Num int

definition isDigit :: "char \<Rightarrow> bool" where
  "isDigit c = (48 \<le> charCode c \<and> charCode c \<le> 57)"

definition digitsValue :: "string \<Rightarrow> int" where
  "digitsValue ds = foldl (\<lambda>a d. 10 * a + (int (charCode d) - 48)) 0 ds"

definition Number :: "string \<Rightarrow> jsnum option" where
  "Number s =
     (let t = trim s;
          (neg, ds) = (case t of
                         c # r \<Rightarrow> if c = CHR ''-'' then (True, r)
                                  else if c = CHR ''+'' then (False, r) else (False, t)
                       | [] \<Rightarrow> (False, t));
          v = (if neg then - digitsValue ds else digitsValue ds)
      in if t = [] then Some (Num 0)
         else if ds \<noteq> [] \<and> list_all isDigit ds then
           (if \<bar>v\<bar> \<le> 9007199254740992 then Some (Num v) else None)
         else if \<not> list_ex isDigit t \<and> ds \<noteq> ''Infinity'' then Some NaN
         else None)"

text \<open>\<^verbatim>\<open>Math.max(x - 1, 0)\<close> and \<^verbatim>\<open>x > 2\<close>; every comparison with \<^verbatim>\<open>NaN\<close> is false.\<close>

fun lineIndex :: "jsnum \<Rightarrow> jsnum" where
  "lineIndex NaN = NaN"
| "lineIndex (Num v) = Num (max (v - 1) 0)"

fun exceeds :: "jsnum \<Rightarrow> int \<Rightarrow> bool" where
  "exceeds NaN k = False"
| "exceeds (Num v) k = (v > k)"

text \<open>\<^verbatim>\<open>lines[n]\<close>: \<^verbatim>\<open>undefined\<close> (here \<open>None\<close>) unless \<open>n\<close> is an index of the array.\<close>

fun element :: "'a list \<Rightarrow> jsnum \<Rightarrow> 'a option" where
  "element xs NaN = None"
| "element xs (Num v) = (if 0 \<le> v \<and> nat v < length xs then Some (xs ! nat v) else None)"

subsection \<open>JSON\<close>

text \<open>
  \<^verbatim>\<open>JSON.parse\<close>: a recursive-descent reader of the JSON grammar. A number keeps its
  spelling. An object keeps its members in order; a later member of the same name
  overrides an earlier one when a property is read. The fuel bounds the number of nested
  calls and is more than any text needs; running out of it is reported as unmodelled.
\<close>

datatype json =
    JNull
  | JBool bool
  | JNumber string
  | JString string
  | JArray "json list"
  | JObject "(string \<times> json) list"

definition isJsonSpace :: "char \<Rightarrow> bool" where
  "isJsonSpace c = (c = CHR '' '' \<or> c = CHR 0x09 \<or> c = CHR 0x0A \<or> c = CHR 0x0D)"

definition skipSpace :: "string \<Rightarrow> string" where
  "skipSpace s = dropWhile isJsonSpace s"

definition hexValue :: "char \<Rightarrow> nat option" where
  "hexValue c =
     (let n = charCode c in
      if 48 \<le> n \<and> n \<le> 57 then Some (n - 48)
      else if 65 \<le> n \<and> n \<le> 70 then Some (n - 55)
      else if 97 \<le> n \<and> n \<le> 102 then Some (n - 87)
      else None)"

definition simpleEscape :: "char \<Rightarrow> char option" where
  "simpleEscape e =
     (if e = CHR 0x22 then Some (CHR 0x22)
      else if e = CHR 0x5C then Some (CHR 0x5C)
      else if e = CHR ''/'' then Some (CHR ''/'')
      else if e = CHR ''b'' then Some (CHR 0x08)
      else if e = CHR ''f'' then Some (CHR 0x0C)
      else if e = CHR ''n'' then Some (CHR 0x0A)
      else if e = CHR ''r'' then Some (CHR 0x0D)
      else if e = CHR ''t'' then Some (CHR 0x09)
      else None)"

text \<open>The characters of a string literal after its opening quote.\<close>

fun stringChars :: "string \<Rightarrow> string \<Rightarrow> (string \<times> string) outcome" where
  "stringChars acc [] = Throws"
| "stringChars acc (c # cs) =
     (if c = CHR 0x22 then Returns (acc, cs)
      else if c = CHR 0x5C then
        (case cs of
           [] \<Rightarrow> Throws
         | e # r \<Rightarrow>
             (if e = CHR ''u'' then
                (case r of
                   h1 # h2 # h3 # h4 # r' \<Rightarrow>
                     (case (hexValue h1, hexValue h2, hexValue h3, hexValue h4) of
                        (Some a, Some b, Some c', Some d) \<Rightarrow>
                          (if a = 0 \<and> b = 0
                           then stringChars (acc @ [char_of (16 * c' + d)]) r'
                           else Unmodelled)
                      | _ \<Rightarrow> Throws)
                 | _ \<Rightarrow> Throws)
              else (case simpleEscape e of
                      None \<Rightarrow> Throws
                    | Some x \<Rightarrow> stringChars (acc @ [x]) r)))
      else if charCode c < 32 then Throws
      else stringChars (acc @ [c]) cs)"

text \<open>The spelling of a number:
  \<^verbatim>\<open>-? (0 | [1-9][0-9]*) (\.[0-9]+)? ([eE][+-]?[0-9]+)?\<close>.\<close>

definition numberLiteral :: "string \<Rightarrow> (string \<times> string) option" where
  "numberLiteral s =
     (let (sign, s1) = (case s of c # r \<Rightarrow> if c = CHR ''-'' then ([c], r) else ([], s)
                                | [] \<Rightarrow> ([], s));
          ip = takeWhile isDigit s1;
          s2 = dropWhile isDigit s1;
          intOk = (ip \<noteq> [] \<and> (hd ip = CHR ''0'' \<longrightarrow> length ip = 1));
          (frac, s3, fracOk) =
             (case s2 of
                c # r \<Rightarrow> if c = CHR ''.''
                         then (c # takeWhile isDigit r, dropWhile isDigit r,
                               takeWhile isDigit r \<noteq> [])
                         else ([], s2, True)
              | [] \<Rightarrow> ([], s2, True));
          (ex, s4, exOk) =
             (case s3 of
                c # r \<Rightarrow>
                  if c = CHR ''e'' \<or> c = CHR ''E'' then
                    (let (sg, r1) = (case r of
                                       g # r2 \<Rightarrow> if g = CHR ''+'' \<or> g = CHR ''-''
                                                  then ([g], r2) else ([], r)
                                     | [] \<Rightarrow> ([], r))
                     in (c # sg @ takeWhile isDigit r1, dropWhile isDigit r1,
                         takeWhile isDigit r1 \<noteq> []))
                  else ([], s3, True)
              | [] \<Rightarrow> ([], s3, True))
      in if intOk \<and> fracOk \<and> exOk then Some (sign @ ip @ frac @ ex, s4) else None)"

fun parseValue :: "nat \<Rightarrow> string \<Rightarrow> (json \<times> string) outcome"
  and parseElements :: "nat \<Rightarrow> json list \<Rightarrow> string \<Rightarrow> (json list \<times> string) outcome"
  and parseMembers :: "nat \<Rightarrow> (string \<times> json) list \<Rightarrow> string
      \<Rightarrow> ((string \<times> json) list \<times> string) outcome"
where
  "parseValue 0 s = Unmodelled"
| "parseValue (Suc n) s =
     (case skipSpace s of
        [] \<Rightarrow> Throws
      | c # r \<Rightarrow>
          if c = CHR ''{'' then
            (case skipSpace r of
               [] \<Rightarrow> Throws
             | d # r' \<Rightarrow>
                 if d = CHR ''}'' then Returns (JObject [], r')
                 else bind_outcome (parseMembers n [] (d # r'))
                        (\<lambda>(ms, rest). Returns (JObject ms, rest)))
          else if c = CHR ''['' then
            (case skipSpace r of
               [] \<Rightarrow> Throws
             | d # r' \<Rightarrow>
                 if d = CHR '']'' then Returns (JArray [], r')
                 else bind_outcome (parseElements n [] (d # r'))
                        (\<lambda>(vs, rest). Returns (JArray vs, rest)))
          else if c = CHR 0x22 then
            bind_outcome (stringChars [] r) (\<lambda>(str, rest). Returns (JString str, rest))
          else if prefix ''true'' (c # r) then Returns (JBool True, drop 4 (c # r))
          else if prefix ''false'' (c # r) then Returns (JBool False, drop 5 (c # r))
          else if prefix ''null'' (c # r) then Returns (JNull, drop 4 (c # r))
          else (case numberLiteral (c # r) of
                  None \<Rightarrow> Throws
                | Some (lit, rest) \<Rightarrow> Returns (JNumber lit, rest)))"
| "parseElements 0 acc s = Unmodelled"
| "parseElements (Suc n) acc s =
     bind_outcome (parseValue n s)
       (\<lambda>(v, rest).
          case skipSpace rest of
            [] \<Rightarrow> Throws
          | c # r \<Rightarrow>
              if c = CHR '','' then parseElements n (acc @ [v]) r
              else if c = CHR '']'' then Returns (acc @ [v], r)
              else Throws)"
| "parseMembers 0 acc s = Unmodelled"
| "parseMembers (Suc n) acc s =
     (case skipSpace s of
        [] \<Rightarrow> Throws
      | q # r \<Rightarrow>
          if q \<noteq> CHR 0x22 then Throws
          else bind_outcome (stringChars [] r)
            (\<lambda>(key, rest).
               case skipSpace rest of
                 [] \<Rightarrow> Throws
               | c # r1 \<Rightarrow>
                   if c \<noteq> CHR '':'' then Throws
                   else bind_outcome (parseValue n r1)
                     (\<lambda>(v, rest2).
                        case skipSpace rest2 of
                          [] \<Rightarrow> Throws
                        | d # r2 \<Rightarrow>
                            if d = CHR '','' then parseMembers n (acc @ [(key, v)]) r2
                            else if d = CHR ''}'' then Returns (acc @ [(key, v)], r2)
                            else Throws)))"

definition JSON_parse :: "string \<Rightarrow> json outcome" where
  "JSON_parse s =
     bind_outcome (parseValue (2 * length s + 2) s)
       (\<lambda>(v, rest). if skipSpace rest = [] then Returns v else Throws)"

text \<open>
  Reading a property the server reads (\<^verbatim>\<open>results\<close>, \<^verbatim>\<open>line\<close>, \<^verbatim>\<open>severity\<close>,
  \<^verbatim>\<open>errorCode\<close>, \<^verbatim>\<open>message\<close>; none of them is inherited): on \<^verbatim>\<open>null\<close> it throws a
  \<^verbatim>\<open>TypeError\<close>, on an object it is the last member of that name, on any other value
  it is \<^verbatim>\<open>undefined\<close> (here \<open>None\<close>).
\<close>

fun property :: "json \<Rightarrow> string \<Rightarrow> json option outcome" where
  "property JNull name = Throws"
| "property (JObject ms) name = Returns (map_of (rev ms) name)"
| "property v name = Returns None"

text \<open>A property that the type declares \<^verbatim>\<open>string | undefined\<close>. The server treats
  \<^verbatim>\<open>null\<close> and \<^verbatim>\<open>undefined\<close> alike (\<^verbatim>\<open>??\<close>, truthiness).\<close>

fun textField :: "json option \<Rightarrow> string option outcome" where
  "textField None = Returns None"
| "textField (Some JNull) = Returns None"
| "textField (Some (JString s)) = Returns (Some s)"
| "textField (Some v) = Unmodelled"

subsection \<open>Documents and diagnostics\<close>

record TextDocument =
  uri :: string
  languageId :: string
  version :: int
  content :: string

datatype DiagnosticSeverity = Error | Warning | Information | Hint

record Position =
  line :: nat
  character :: nat

record Range =
  start :: Position
  end' :: Position

record Diagnostic =
  severity :: DiagnosticSeverity
  range :: Range
  message :: string
  source :: string

text \<open>The fields of \<^verbatim>\<open>UmpleJsonResult\<close>; \<open>severity'\<close>, \<open>line'\<close> and \<open>message'\<close> are the
  fields \<^verbatim>\<open>severity\<close>, \<^verbatim>\<open>line\<close> and \<^verbatim>\<open>message\<close> of a result record. The fields
  \<^verbatim>\<open>url\<close> and \<^verbatim>\<open>filename\<close> are never read.\<close>

record UmpleJsonResult =
  errorCode :: "string option"
  severity' :: "string option"
  line' :: "string option"
  message' :: "string option"

definition asUmpleJsonResult :: "json \<Rightarrow> UmpleJsonResult outcome" where
  "asUmpleJsonResult result =
     bind_outcome (bind_outcome (property result ''line'') textField) (\<lambda>l.
     bind_outcome (bind_outcome (property result ''severity'') textField) (\<lambda>s.
     bind_outcome (bind_outcome (property result ''errorCode'') textField) (\<lambda>e.
     bind_outcome (bind_outcome (property result ''message'') textField) (\<lambda>m.
       Returns \<lparr>errorCode = e, severity' = s, line' = l, message' = m\<rparr>))))"

text \<open>\<^verbatim>\<open>Position.create\<close> and \<^verbatim>\<open>Range.create\<close> are given unsigned integers up to
  \<open>2\<^sup>3\<^sup>1 - 1\<close>; what the protocol library does with another line number is left
  unmodelled.\<close>

fun uinteger :: "jsnum \<Rightarrow> nat option" where
  "uinteger NaN = None"
| "uinteger (Num v) = (if 0 \<le> v \<and> v \<le> 2147483647 then Some (nat v) else None)"

text \<open>\<^verbatim>\<open>extractJson\<close>, with \<open>a\<close> for \<^verbatim>\<open>start\<close> and \<open>b\<close> for \<^verbatim>\<open>end\<close>.\<close>

definition extractJson :: "string \<Rightarrow> string option" where
  "extractJson t =
     (case (indexOf t ''{'' 0, lastIndexOf t ''}'') of
        (Some a, Some b) \<Rightarrow> if b \<le> a then None else Some (slice t a (b + 1))
      | _ \<Rightarrow> None)"

text \<open>The callback of \<^verbatim>\<open>parsed.results.map\<close> in \<^verbatim>\<open>parseUmpleJsonDiagnostics\<close>. An empty
  string is falsy, so an empty \<^verbatim>\<open>errorCode\<close> or \<^verbatim>\<open>message\<close> is left out of the
  details.\<close>

definition toDiagnostic :: "string list \<Rightarrow> UmpleJsonResult \<Rightarrow> Diagnostic outcome" where
  "toDiagnostic lines result =
     (case (Number (case line' result of None \<Rightarrow> ''1'' | Some l \<Rightarrow> l),
            Number (case severity' result of None \<Rightarrow> ''3'' | Some s \<Rightarrow> s)) of
        (Some n, Some severityValue) \<Rightarrow>
          (let lineNumber = lineIndex n;
               lineText = (case element lines lineNumber of None \<Rightarrow> [] | Some t \<Rightarrow> t);
               firstNonSpace = search_nonspace lineText;
               startChar = (case firstNonSpace of None \<Rightarrow> 0 | Some k \<Rightarrow> k);
               severity = (if exceeds severityValue 2 then Warning else Error);
               details =
                 (case errorCode result of
                    None \<Rightarrow> []
                  | Some code \<Rightarrow>
                      if code = [] then []
                      else [(if severity = Warning then ''W'' else ''E'') @ code])
                 @ (case message' result of
                      None \<Rightarrow> []
                    | Some m \<Rightarrow> if m = [] then [] else [m])
           in case uinteger lineNumber of
                None \<Rightarrow> Unmodelled
              | Some ln \<Rightarrow>
                  Returns \<lparr>severity = severity,
                    range = \<lparr>start = \<lparr>line = ln, character = startChar\<rparr>,
                             end' = \<lparr>line = ln, character = length lineText\<rparr>\<rparr>,
                    message = join '': '' details,
                    source = ''umple''\<rparr>)
      | _ \<Rightarrow> Unmodelled)"

text \<open>\<^verbatim>\<open>parseUmpleJsonDiagnostics\<close>. The \<^verbatim>\<open>catch\<close> turns whatever is thrown inside the
  \<^verbatim>\<open>try\<close> into the empty list. The result is \<open>None\<close> where the model does not say what
  the host does.\<close>

definition parseUmpleJsonDiagnostics :: "string \<Rightarrow> TextDocument \<Rightarrow> Diagnostic list option" where
  "parseUmpleJsonDiagnostics stderr document =
     (let trimmed = trim stderr in
      if trimmed = [] then Some []
      else
        (case extractJson trimmed of
           None \<Rightarrow> Some []
         | Some jsonText \<Rightarrow>
             if jsonText = [] then Some []
             else
               (case bind_outcome (JSON_parse jsonText) (\<lambda>parsed.
                     bind_outcome (property parsed ''results'') (\<lambda>results.
                       case results of
                         Some (JArray rs) \<Rightarrow>
                           (let lines = splitLines (content document) in
                            map_outcome
                              (\<lambda>result. bind_outcome (asUmpleJsonResult result)
                                           (toDiagnostic lines)) rs)
                       | _ \<Rightarrow> Returns []))
                of
                  Returns diagnostics \<Rightarrow> Some diagnostics
                | Throws \<Rightarrow> Some []
                | Unmodelled \<Rightarrow> None)))"

section \<open>File paths\<close>

text \<open>
  The functions of the host's \<^verbatim>\<open>path\<close> module that the server calls, for POSIX paths.
  A path is cut into its segments at the slashes; \<open>normalizeSegments\<close> resolves the
  segments \<^verbatim>\<open>.\<close> and \<^verbatim>\<open>..\<close> as \<^verbatim>\<open>path.normalize\<close> does (above the root of an
  absolute path \<^verbatim>\<open>..\<close> is dropped, in front of a relative path it is kept).
\<close>

fun splitOn :: "char \<Rightarrow> string \<Rightarrow> string \<Rightarrow> string list" where
  "splitOn sep cur [] = [cur]"
| "splitOn sep cur (c # cs) =
     (if c = sep then cur # splitOn sep [] cs else splitOn sep (cur @ [c]) cs)"

definition segments :: "string \<Rightarrow> string list" where
  "segments p = filter (\<lambda>seg. seg \<noteq> []) (splitOn (CHR ''/'') [] p)"

definition isAbsolute :: "string \<Rightarrow> bool" where
  "isAbsolute p = (case p of [] \<Rightarrow> False | c # _ \<Rightarrow> c = CHR ''/'')"

fun normalizeSegments :: "bool \<Rightarrow> string list \<Rightarrow> string list \<Rightarrow> string list" where
  "normalizeSegments allowAbove acc [] = rev acc"
| "normalizeSegments allowAbove acc (seg # segs) =
     (if seg = ''.'' then normalizeSegments allowAbove acc segs
      else if seg = ''..'' then
        (case acc of
           [] \<Rightarrow> normalizeSegments allowAbove (if allowAbove then [seg] else []) segs
         | lastSeg # earlier \<Rightarrow>
             if lastSeg \<noteq> ''..'' then normalizeSegments allowAbove earlier segs
             else normalizeSegments allowAbove (if allowAbove then seg # acc else acc) segs)
      else normalizeSegments allowAbove (seg # acc) segs)"

definition path_normalize :: "string \<Rightarrow> string" where
  "path_normalize p =
     (let isAbs = isAbsolute p;
          trailing = (p \<noteq> [] \<and> last p = CHR ''/'');
          segs = normalizeSegments (\<not> isAbs) [] (segments p)
      in if segs = [] then (if isAbs then ''/'' else if trailing then ''./'' else ''.'')
         else (if isAbs then ''/'' else []) @ join ''/'' segs
              @ (if trailing then ''/'' else []))"

text \<open>\<^verbatim>\<open>path.join(a, b)\<close>.\<close>

definition path_join :: "string \<Rightarrow> string \<Rightarrow> string" where
  "path_join a b =
     (if a = [] \<and> b = [] then ''.''
      else path_normalize (if a = [] then b else if b = [] then a else a @ ''/'' @ b))"

text \<open>\<^verbatim>\<open>path.resolve(p)\<close> as the list of its segments, against the working directory
  \<open>cwd\<close> (an absolute path) when \<open>p\<close> is relative.\<close>

definition resolveSegments :: "string \<Rightarrow> string \<Rightarrow> string list" where
  "resolveSegments cwd p =
     normalizeSegments False [] (segments (if isAbsolute p then p else cwd @ ''/'' @ p))"

fun dropCommon :: "string list \<Rightarrow> string list \<Rightarrow> string list \<times> string list" where
  "dropCommon (x # xs) (y # ys) = (if x = y then dropCommon xs ys else (x # xs, y # ys))"
| "dropCommon xs ys = (xs, ys)"

text \<open>\<^verbatim>\<open>path.relative(from, to)\<close>: one \<^verbatim>\<open>..\<close> for every segment of \<open>from\<close> below the
  common ancestor, then the segments of \<open>to\<close> below it.\<close>

definition relative :: "string \<Rightarrow> string \<Rightarrow> string \<Rightarrow> string" where
  "relative cwd from to =
     (case dropCommon (resolveSegments cwd from) (resolveSegments cwd to) of
        (up, down) \<Rightarrow> join ''/'' (map (\<lambda>seg. ''..'') up @ down))"

text \<open>\<^verbatim>\<open>path.dirname(p)\<close>: trailing slashes are passed over, then the last segment; the
  slash before it, at an index of 1 or more, ends the result.\<close>

definition dirname :: "string \<Rightarrow> string" where
  "dirname p =
     (case p of
        [] \<Rightarrow> ''.''
      | c # body \<Rightarrow>
          (let hasRoot = (c = CHR ''/'');
               r = dropWhile (\<lambda>x. x \<noteq> CHR ''/'') (dropWhile (\<lambda>x. x = CHR ''/'') (rev body))
           in if r = [] then (if hasRoot then ''/'' else ''.'')
              else if hasRoot \<and> length r = 1 then ''//''
              else take (length r) p))"

text \<open>\<^verbatim>\<open>path.basename(p)\<close>.\<close>

definition basename :: "string \<Rightarrow> string" where
  "basename p =
     rev (takeWhile (\<lambda>x. x \<noteq> CHR ''/'') (dropWhile (\<lambda>x. x = CHR ''/'') (rev p)))"

text \<open>\<^verbatim>\<open>s.startsWith(t)\<close> and \<^verbatim>\<open>s.endsWith(t)\<close>.\<close>

definition startsWith :: "string \<Rightarrow> string \<Rightarrow> bool" where
  "startsWith s t = prefix t s"

definition endsWith :: "string \<Rightarrow> string \<Rightarrow> bool" where
  "endsWith s t = suffix t s"

section \<open>The server and its host\<close>

text \<open>
  The module-level variables of the server, and beside them what the host holds for it:
  the timeouts that are armed, the attempts made on the socket, the processes spawned, the
  delays slept, the diagnostics published, the lines written to the console, the warnings
  shown, the temporary paths that exist, the rejections nobody handled. A notification, a
  timer callback and a definition request are run to their end before the next event is
  taken. A completion request is suspended while its command is with the compiler service:
  the requests that wait there are kept in \<open>requests\<close>.

  \<^verbatim>\<open>documents\<close> is a \<^verbatim>\<open>Map\<close> that is iterated, so it is kept as an association list
  in insertion order. The flag \<open>beyond\<close> is set when a step meets a value on which the
  model of the host is silent (an \<open>Unmodelled\<close> outcome); what is published and what is
  written to the console is tracked only while it is unset.
\<close>

datatype js_error = JsError (code: "string option") (reason: string)

datatype CompletionItemKind = Keyword | ClassKind | Field | EnumMember | Event | PropertyKind

record CompletionItem =
  label :: string
  kind :: CompletionItemKind
  detail :: "string option"

text \<open>What a \<^verbatim>\<open>cleanup\<close> closure removes: one file (\<^verbatim>\<open>rm\<close> with \<^verbatim>\<open>force\<close>) or a
  directory with all that is in it (\<^verbatim>\<open>rm\<close> with \<^verbatim>\<open>recursive\<close> and \<^verbatim>\<open>force\<close>).\<close>

datatype cleanup = RemoveFile string | RemoveTree string

text \<open>
  A completion request that waits for the compiler service holds the local variables of
  \<^verbatim>\<open>generateModelJson\<close> and the document object it was called with. A document is an
  object that \<^verbatim>\<open>TextDocument.update\<close> changes in place: while the object a request holds
  is the one the store holds for its URI (\<open>sharesStore\<close>), a change notification changes
  what the request reads from it (\<open>heldDocument\<close>).
\<close>

record modelRequest =
  heldDocument :: TextDocument
  sharesStore :: bool
  requestJar :: string
  requestFile :: string
  requestCleanup :: cleanup

record server =
  documents :: "(string \<times> TextDocument) list"
  pendingValidations :: "string \<rightharpoonup> nat"
  modelCache :: "string \<rightharpoonup> int \<times> CompletionItem list"
  workspaceRoots :: "string list"
  umpleSyncJarPath :: "string option"
  umpleSyncPort :: nat
  jarWarningShown :: bool
  serverProcess :: "nat option"
  umpleJarPath :: "string option"
  umpleGoToDefClasspath :: "string option"
  timers :: "nat \<rightharpoonup> TextDocument"
  nextTimer :: nat
  attempts :: nat
  children :: "(string \<times> nat) list"
  delays :: "nat list"
  published :: "(string \<times> Diagnostic list) list"
  console :: "(string \<times> string) list"
  warningsShown :: "string list"
  paths :: "string list"
  unhandled :: "js_error list"
  beyond :: bool
  requests :: "nat \<rightharpoonup> modelRequest"
  nextRequest :: nat

text \<open>
  What the host answers, which the server does not decide: the outcome of each attempt on
  the socket (numbered in the order they are made), whether a file exists, the outcome of
  the lookup process for a file, a line and a column, the source files found under a
  directory, the failures of the file system while a shadow workspace is built, the unique
  name made from a prefix for a temporary file or directory, the temporary and the working
  directory, the conversions between file URIs and paths (\<open>None\<close> when
  \<^verbatim>\<open>fileURLToPath\<close> throws), and the error with which \<^verbatim>\<open>fs.promises.writeFile\<close>
  rejects for a path when it does.
\<close>

record host =
  socket :: "nat \<Rightarrow> string \<Rightarrow> js_error + string"
  existsSync :: "string \<Rightarrow> bool"
  lookup :: "string \<Rightarrow> nat \<Rightarrow> nat \<Rightarrow> js_error + string"
  walkUmpleFiles :: "string \<Rightarrow> string list"
  mirrorFailure :: "js_error option"
  overlayFailure :: "js_error option"
  tempName :: "string \<Rightarrow> string"
  tmpdir :: string
  cwd :: string
  fileURLToPath :: "string \<Rightarrow> string option"
  pathToFileURL :: "string \<Rightarrow> string"
  writeFailure :: "string \<Rightarrow> js_error option"

section \<open>External Compiler Bridge: dispatch\<close>

definition isConnectionError :: "js_error \<Rightarrow> bool" where
  "isConnectionError error =
     (code error = Some ''ECONNREFUSED'' \<or> code error = Some ''ECONNRESET''
      \<or> code error = Some ''EPIPE'')"

text \<open>\<^verbatim>\<open>connectAndSend\<close>: one attempt on the socket; the promise resolves with the
  demultiplexed output or rejects with the socket's error.\<close>

definition connectAndSend ::
  "host \<Rightarrow> string \<Rightarrow> server \<Rightarrow> (js_error + string \<times> string) \<times> server" where
  "connectAndSend h commandLine s =
     (case socket h (attempts s) commandLine of
        Inl err \<Rightarrow> (Inl err, s\<lparr>attempts := attempts s + 1\<rparr>)
      | Inr raw \<Rightarrow> (Inr (splitUmpleSyncOutput raw), s\<lparr>attempts := attempts s + 1\<rparr>))"

text \<open>\<^verbatim>\<open>startUmpleSyncServer\<close>. The promise is resolved with \<^verbatim>\<open>true\<close> right after
  \<^verbatim>\<open>spawn\<close> returns; the \<^verbatim>\<open>error\<close> event of the child can only come later, when
  \<^verbatim>\<open>resolve(false)\<close> no longer has an effect.\<close>

definition startUmpleSyncServer :: "string \<Rightarrow> server \<Rightarrow> bool \<times> server" where
  "startUmpleSyncServer jarPath s =
     (if serverProcess s \<noteq> None then (True, s)
      else (True, s\<lparr>children := children s @ [(jarPath, umpleSyncPort s)],
                    serverProcess := Some (length (children s))\<rparr>))"

definition delay :: "nat \<Rightarrow> server \<Rightarrow> server" where
  "delay ms s = s\<lparr>delays := delays s @ [ms]\<rparr>"

text \<open>The \<^verbatim>\<open>for (let attempt = 0; attempt < 5; attempt += 1)\<close> loop of
  \<^verbatim>\<open>sendUmpleSyncCommand\<close> and the \<^verbatim>\<open>throw error\<close> after it.\<close>

function retryLoop ::
  "host \<Rightarrow> string \<Rightarrow> js_error \<Rightarrow> nat \<Rightarrow> server \<Rightarrow> (js_error + string \<times> string) \<times> server"
where
  "retryLoop h commandLine error attempt s =
     (if attempt < 5 then
        (case connectAndSend h commandLine s of
           (Inr r, s1) \<Rightarrow> (Inr r, s1)
         | (Inl retryError, s1) \<Rightarrow>
             if \<not> isConnectionError retryError then (Inl retryError, s1)
             else retryLoop h commandLine error (attempt + 1) (delay 150 s1))
      else (Inl error, s))"
  by pat_completeness auto
termination
  by (relation "measure (\<lambda>(h, commandLine, error, attempt, s). 5 - attempt)") auto

declare retryLoop.simps [simp del]

definition sendUmpleSyncCommand ::
  "host \<Rightarrow> string \<Rightarrow> string \<Rightarrow> server \<Rightarrow> (js_error + string \<times> string) \<times> server" where
  "sendUmpleSyncCommand h jarPath commandLine s =
     (case connectAndSend h commandLine s of
        (Inr r, s1) \<Rightarrow> (Inr r, s1)
      | (Inl error, s1) \<Rightarrow>
          if \<not> isConnectionError error then (Inl error, s1)
          else
            (case startUmpleSyncServer jarPath s1 of
               (started, s2) \<Rightarrow>
                 if \<not> started then (Inl error, s2)
                 else retryLoop h commandLine error 0 s2))"

text \<open>Commands dispatched one after the other, each completed before the next.\<close>

fun dispatchAll :: "host \<Rightarrow> string \<Rightarrow> string list \<Rightarrow> server \<Rightarrow> server" where
  "dispatchAll h jarPath [] s = s"
| "dispatchAll h jarPath (c # cs) s =
     dispatchAll h jarPath cs (snd (sendUmpleSyncCommand h jarPath c s))"

text \<open>The state in which the module is loaded.\<close>

definition initialServer :: server where
  "initialServer =
     \<lparr>documents = [], pendingValidations = Map.empty, modelCache = Map.empty,
      workspaceRoots = [], umpleSyncJarPath = None, umpleSyncPort = 5555,
      jarWarningShown = False, serverProcess = None, umpleJarPath = None,
      umpleGoToDefClasspath = None,
      timers = Map.empty, nextTimer = 0, attempts = 0, children = [], delays = [],
      published = [], console = [], warningsShown = [], paths = [], unhandled = [],
      beyond = False, requests = Map.empty, nextRequest = 0\<rparr>"

text \<open>The invariant of the spawn: no child while \<^verbatim>\<open>serverProcess\<close> is unset, and one
  child for good once it is set.\<close>

definition spawnedOnce :: "server \<Rightarrow> bool" where
  "spawnedOnce s =
     ((serverProcess s = None \<and> children s = []) \<or> (serverProcess s \<noteq> None \<and> length (children s) = 1))"

section \<open>Temporary files and configuration\<close>

text \<open>An async function ends resolved or rejected; \<open>Beyond\<close> stands for an end the model
  does not determine, and comes with the flag \<open>beyond\<close> of the state set.\<close>

datatype 'a promise = Resolved 'a | Rejected js_error | Beyond

text \<open>\<^verbatim>\<open>String(error)\<close> for an \<^verbatim>\<open>Error\<close> object.\<close>

definition errorString :: "js_error \<Rightarrow> string" where
  "errorString error = ''Error: '' @ reason error"

text \<open>The text written to a temporary file:
  \<^verbatim>\<open>if (!text.endsWith("\n\n")) text = text.replace(/\n?$/, "\n\n")\<close>.\<close>

definition withBlankLine :: "string \<Rightarrow> string" where
  "withBlankLine t =
     (if endsWith t [CHR 0x0A, CHR 0x0A] then t
      else if t \<noteq> [] \<and> last t = CHR 0x0A then t @ [CHR 0x0A]
      else t @ [CHR 0x0A, CHR 0x0A])"

definition getDocumentFilePath :: "host \<Rightarrow> TextDocument \<Rightarrow> string option" where
  "getDocumentFilePath h document =
     (if \<not> startsWith (uri document) ''file:'' then None
      else fileURLToPath h (uri document))"

definition getDocumentDirectory :: "host \<Rightarrow> TextDocument \<Rightarrow> string option" where
  "getDocumentDirectory h document =
     (case getDocumentFilePath h document of
        None \<Rightarrow> None
      | Some docPath \<Rightarrow> if docPath = [] then None else Some (dirname docPath))"

fun runCleanup :: "cleanup \<Rightarrow> server \<Rightarrow> server" where
  "runCleanup (RemoveFile p) s = s\<lparr>paths := filter (\<lambda>q. q \<noteq> p) (paths s)\<rparr>"
| "runCleanup (RemoveTree d) s =
     s\<lparr>paths := filter (\<lambda>q. \<not> (q = d \<or> startsWith q (d @ ''/''))) (paths s)\<rparr>"

definition writeFile :: "string \<Rightarrow> server \<Rightarrow> server" where
  "writeFile p s = (if p \<in> set (paths s) then s else s\<lparr>paths := paths s @ [p]\<rparr>)"

definition mkdtemp :: "host \<Rightarrow> string \<Rightarrow> server \<Rightarrow> string \<times> server" where
  "mkdtemp h pre s = (tempName h pre, s\<lparr>paths := paths s @ [tempName h pre]\<rparr>)"

text \<open>\<^verbatim>\<open>writeTempUmpleFile\<close>. The name beside the document is made from the process id and
  the clock, the host's \<open>tempName\<close> here.\<close>

definition writeTempUmpleFile ::
  "host \<Rightarrow> TextDocument \<Rightarrow> string \<Rightarrow> server \<Rightarrow> (string \<times> cleanup) \<times> server" where
  "writeTempUmpleFile h document lbl s =
     (case getDocumentDirectory h document of
        Some baseDir \<Rightarrow>
          (let filePath = path_join baseDir (tempName h (''.umple-lsp-'' @ lbl @ ''-'') @ ''.ump'')
           in ((filePath, RemoveFile filePath), s))
      | None \<Rightarrow>
          (case mkdtemp h (path_join (tmpdir h) (''umple-lsp-'' @ lbl @ ''-'')) s of
             (tempDir, s1) \<Rightarrow>
               ((path_join tempDir ''document.ump'', RemoveTree tempDir), s1)))"

definition showWarningMessage :: "string \<Rightarrow> server \<Rightarrow> server" where
  "showWarningMessage m s = s\<lparr>warningsShown := warningsShown s @ [m]\<rparr>"

definition consoleWrite :: "string \<Rightarrow> string \<Rightarrow> server \<Rightarrow> server" where
  "consoleWrite level m s = s\<lparr>console := console s @ [(level, m)]\<rparr>"

definition resolveJarPath :: "host \<Rightarrow> server \<Rightarrow> string option \<times> server" where
  "resolveJarPath h s =
     (case umpleSyncJarPath s of
        None \<Rightarrow>
          (None, if \<not> jarWarningShown s
                 then (showWarningMessage ''UmpleSync jar path not set.'' s)
                        \<lparr>jarWarningShown := True\<rparr>
                 else s)
      | Some p \<Rightarrow>
          if p = [] then
            (None, if \<not> jarWarningShown s
                   then (showWarningMessage ''UmpleSync jar path not set.'' s)
                          \<lparr>jarWarningShown := True\<rparr>
                   else s)
          else if \<not> existsSync h p then
            (None, if \<not> jarWarningShown s
                   then (showWarningMessage (''UmpleSync jar not found at '' @ p) s)
                          \<lparr>jarWarningShown := True\<rparr>
                   else s)
          else (Some p, s))"

definition resolveGoToDefSettings :: "host \<Rightarrow> server \<Rightarrow> (string \<times> string) option \<times> server" where
  "resolveGoToDefSettings h s =
     (case umpleJarPath s of
        None \<Rightarrow> (None, showWarningMessage ''Umple jar path not set.'' s)
      | Some jar \<Rightarrow>
          if jar = [] then (None, showWarningMessage ''Umple jar path not set.'' s)
          else
            (case umpleGoToDefClasspath s of
               None \<Rightarrow> (None, showWarningMessage ''Go-to-definition classpath not set.'' s)
             | Some cp \<Rightarrow>
                 if cp = [] then
                   (None, showWarningMessage ''Go-to-definition classpath not set.'' s)
                 else if \<not> existsSync h jar then
                   (None, showWarningMessage (''Umple jar not found at '' @ jar) s)
                 else if \<not> existsSync h cp then
                   (None, showWarningMessage
                            (''Go-to-definition classpath not found at '' @ cp) s)
                 else (Some (jar, cp), s)))"

section \<open>Validation Pipeline: scheduling and running\<close>

text \<open>\<^verbatim>\<open>parseUmpleDiagnostics\<close>; \<^verbatim>\<open>stdout.includes("Success")\<close> is the sublist test.\<close>

definition parseUmpleDiagnostics ::
  "string \<Rightarrow> string \<Rightarrow> TextDocument \<Rightarrow> server \<Rightarrow> Diagnostic list option \<times> server" where
  "parseUmpleDiagnostics stderr stdout document s =
     (case parseUmpleJsonDiagnostics stderr document of
        None \<Rightarrow> (None, s)
      | Some jsonDiagnostics \<Rightarrow>
          (Some jsonDiagnostics,
           if jsonDiagnostics = [] \<and> sublist ''Success'' stdout
           then consoleWrite ''info'' ''Umple compile succeeded.'' s else s))"

text \<open>\<^verbatim>\<open>runUmpleSyncAndParseDiagnostics\<close>: the temporary file is written before the
  \<^verbatim>\<open>try\<close>, so a write that fails rejects the call with nothing cleaned up; the
  \<^verbatim>\<open>finally\<close> runs the cleanup on each way out of the \<^verbatim>\<open>try\<close>; there is no
  \<^verbatim>\<open>catch\<close>.\<close>

definition runUmpleSyncAndParseDiagnostics ::
  "host \<Rightarrow> string \<Rightarrow> TextDocument \<Rightarrow> server \<Rightarrow> Diagnostic list promise \<times> server" where
  "runUmpleSyncAndParseDiagnostics h jarPath document s =
     (case writeTempUmpleFile h document ''diag'' s of
        ((tempFile, tempCleanup), s1) \<Rightarrow>
          (case writeFailure h tempFile of
             Some err \<Rightarrow> (Rejected err, s1)
           | None \<Rightarrow>
               (let s2 = writeFile tempFile s1 in
                case sendUmpleSyncCommand h jarPath (''-generate nothing '' @ tempFile) s2 of
                  (Inl err, s3) \<Rightarrow> (Rejected err, runCleanup tempCleanup s3)
                | (Inr (stdout, stderr), s3) \<Rightarrow>
                    (case parseUmpleDiagnostics stderr stdout document s3 of
                       (None, s4) \<Rightarrow> (Beyond, (runCleanup tempCleanup s4)\<lparr>beyond := True\<rparr>)
                     | (Some diagnostics, s4) \<Rightarrow>
                         (Resolved diagnostics, runCleanup tempCleanup s4)))))"

definition sendDiagnostics :: "string \<Rightarrow> Diagnostic list \<Rightarrow> server \<Rightarrow> server" where
  "sendDiagnostics u diagnostics s = s\<lparr>published := published s @ [(u, diagnostics)]\<rparr>"

text \<open>\<^verbatim>\<open>validateTextDocument\<close>: the rejection of the awaited call is the rejection of the
  function.\<close>

definition validateTextDocument :: "host \<Rightarrow> TextDocument \<Rightarrow> server \<Rightarrow> unit promise \<times> server" where
  "validateTextDocument h document s =
     (case resolveJarPath h s of
        (None, s1) \<Rightarrow> (Resolved (), s1)
      | (Some jarPath, s1) \<Rightarrow>
          (case runUmpleSyncAndParseDiagnostics h jarPath document s1 of
             (Rejected err, s2) \<Rightarrow> (Rejected err, s2)
           | (Beyond, s2) \<Rightarrow> (Beyond, s2)
           | (Resolved diagnostics, s2) \<Rightarrow>
               (Resolved (), sendDiagnostics (uri document) diagnostics s2)))"

text \<open>\<^verbatim>\<open>setTimeout\<close> arms a timeout under a fresh handle; \<^verbatim>\<open>clearTimeout\<close> disarms one.
  The callback of \<^verbatim>\<open>scheduleValidation\<close> closes over the document, which is what is kept
  with the handle.\<close>

definition setTimeout :: "TextDocument \<Rightarrow> server \<Rightarrow> nat \<times> server" where
  "setTimeout document s =
     (nextTimer s, s\<lparr>timers := (timers s)(nextTimer s \<mapsto> document),
                     nextTimer := nextTimer s + 1\<rparr>)"

definition clearTimeout :: "nat \<Rightarrow> server \<Rightarrow> server" where
  "clearTimeout handle s = s\<lparr>timers := (timers s)(handle := None)\<rparr>"

definition scheduleValidation :: "TextDocument \<Rightarrow> server \<Rightarrow> server" where
  "scheduleValidation document s =
     (let s1 = (case pendingValidations s (uri document) of
                  Some existing \<Rightarrow> clearTimeout existing s
                | None \<Rightarrow> s)
      in case setTimeout document s1 of
           (handle, s2) \<Rightarrow>
             s2\<lparr>pendingValidations := (pendingValidations s2)(uri document \<mapsto> handle)\<rparr>)"

text \<open>The callback given to \<^verbatim>\<open>setTimeout\<close>. \<^verbatim>\<open>void validateTextDocument(document)\<close> drops
  the promise: a rejection is handled by nobody.\<close>

definition timerCallback :: "host \<Rightarrow> TextDocument \<Rightarrow> server \<Rightarrow> server" where
  "timerCallback h document s =
     (let s1 = s\<lparr>pendingValidations := (pendingValidations s)(uri document := None)\<rparr> in
      case validateTextDocument h document s1 of
        (Rejected err, s2) \<Rightarrow> s2\<lparr>unhandled := unhandled s2 @ [err]\<rparr>
      | (other, s2) \<Rightarrow> s2)"

section \<open>Document Store: the notifications\<close>

text \<open>
  The text of a change notification is given as the text \<^verbatim>\<open>TextDocument.update\<close>
  makes of the content changes. \<^verbatim>\<open>TextDocument.update\<close> changes the object it is given
  and returns it, so the new version and text are also what the requests that hold this
  object read from then on. \<^verbatim>\<open>TextDocument.create\<close> makes a new object, and
  \<^verbatim>\<open>documents.set\<close> and \<^verbatim>\<open>documents.delete\<close> take the old one out of the store: a
  request that holds the old object keeps it as it is. (The callback of an armed timeout
  holds its document in the same way; \<open>timers\<close> needs no such care, because a change
  notification arms a new timeout with the changed object and disarms the one before.)
\<close>

definition detachRequests :: "string \<Rightarrow> server \<Rightarrow> server" where
  "detachRequests u s =
     s\<lparr>requests := (\<lambda>k. map_option
                          (\<lambda>r. if uri (heldDocument r) = u then r\<lparr>sharesStore := False\<rparr> else r)
                          (requests s k))\<rparr>"

definition updateHeld :: "string \<Rightarrow> TextDocument \<Rightarrow> server \<Rightarrow> server" where
  "updateHeld u updated s =
     s\<lparr>requests := (\<lambda>k. map_option
                          (\<lambda>r. if sharesStore r \<and> uri (heldDocument r) = u
                               then r\<lparr>heldDocument := updated\<rparr> else r)
                          (requests s k))\<rparr>"

definition onDidOpenTextDocument :: "string \<Rightarrow> string \<Rightarrow> int \<Rightarrow> string \<Rightarrow> server \<Rightarrow> server" where
  "onDidOpenTextDocument u lang v t s =
     (let document = \<lparr>uri = u, languageId = lang, version = v, content = t\<rparr> in
      scheduleValidation document
        (detachRequests u (s\<lparr>documents := AList.update u document (documents s)\<rparr>)))"

definition onDidChangeTextDocument :: "string \<Rightarrow> int \<Rightarrow> string \<Rightarrow> server \<Rightarrow> server" where
  "onDidChangeTextDocument u v t s =
     (case map_of (documents s) u of
        None \<Rightarrow> s
      | Some document \<Rightarrow>
          (let updated = document\<lparr>version := v, content := t\<rparr>;
               s1 = updateHeld u updated
                      (s\<lparr>documents := AList.update u updated (documents s)\<rparr>);
               s2 = s1\<lparr>modelCache := (modelCache s1)(u := None)\<rparr>
           in scheduleValidation updated s2))"

definition onDidCloseTextDocument :: "string \<Rightarrow> server \<Rightarrow> server" where
  "onDidCloseTextDocument u s =
     sendDiagnostics u []
       (detachRequests u
          (s\<lparr>documents := AList.delete u (documents s),
             modelCache := (modelCache s)(u := None)\<rparr>))"

text \<open>The events of a run: the three notifications, and an armed timeout that fires. A
  timeout that is not armed does not fire.\<close>

datatype event =
    DidOpen string string int string
  | DidChange string int string
  | DidClose string
  | TimerFires nat

fun step :: "host \<Rightarrow> server \<Rightarrow> event \<Rightarrow> server option" where
  "step h s (DidOpen u lang v t) = Some (onDidOpenTextDocument u lang v t s)"
| "step h s (DidChange u v t) = Some (onDidChangeTextDocument u v t s)"
| "step h s (DidClose u) = Some (onDidCloseTextDocument u s)"
| "step h s (TimerFires handle) =
     (case timers s handle of
        None \<Rightarrow> None
      | Some document \<Rightarrow> Some (timerCallback h document (clearTimeout handle s)))"

fun run :: "host \<Rightarrow> server \<Rightarrow> event list \<Rightarrow> server option" where
  "run h s [] = Some s"
| "run h s (ev # evs) = (case step h s ev of None \<Rightarrow> None | Some s1 \<Rightarrow> run h s1 evs)"

text \<open>The invariant of the timeouts: an armed timeout is the one recorded as pending for
  the URI of its document, and every handle in use is below the next one.\<close>

definition timersRecorded :: "server \<Rightarrow> bool" where
  "timersRecorded s =
     ((\<forall>handle document. timers s handle = Some document
         \<longrightarrow> pendingValidations s (uri document) = Some handle)
      \<and> (\<forall>u handle. pendingValidations s u = Some handle \<longrightarrow> handle < nextTimer s))"

section \<open>Completion Aggregator: the model cache\<close>

text \<open>Truthiness of a parsed JSON value; a number is falsy when it is zero, that is when
  every digit before its exponent is 0.\<close>

fun truthy :: "json \<Rightarrow> bool" where
  "truthy JNull = False"
| "truthy (JBool b) = b"
| "truthy (JNumber lit) =
     list_ex (\<lambda>c. isDigit c \<and> c \<noteq> CHR ''0'')
       (takeWhile (\<lambda>c. c \<noteq> CHR ''e'' \<and> c \<noteq> CHR ''E'') lit)"
| "truthy (JString str) = (str \<noteq> [])"
| "truthy (JArray vs) = True"
| "truthy (JObject ms) = True"

text \<open>
  \<^verbatim>\<open>generateModelJson\<close> in two parts: up to the command that is sent to the compiler
  service, and from its answer on. The temporary file is written before the \<^verbatim>\<open>try\<close>:
  a write that fails rejects the call, and nothing is sent and nothing cleaned up.
\<close>

definition generateModelJson_begin ::
  "host \<Rightarrow> TextDocument \<Rightarrow> server
     \<Rightarrow> (json option promise + string \<times> string \<times> cleanup) \<times> server" where
  "generateModelJson_begin h document s =
     (case resolveJarPath h s of
        (None, s1) \<Rightarrow> (Inl (Resolved None), s1)
      | (Some jarPath, s1) \<Rightarrow>
          (case writeTempUmpleFile h document ''model'' s1 of
             ((tempFile, tempCleanup), s2) \<Rightarrow>
               (case writeFailure h tempFile of
                  Some err \<Rightarrow> (Inl (Rejected err), s2)
                | None \<Rightarrow> (Inr (jarPath, tempFile, tempCleanup), writeFile tempFile s2))))"

definition generateModelJson_end ::
  "host \<Rightarrow> string \<Rightarrow> string \<Rightarrow> cleanup \<Rightarrow> server \<Rightarrow> json option promise \<times> server" where
  "generateModelJson_end h jarPath tempFile tempCleanup s =
     (case sendUmpleSyncCommand h jarPath (''-generate JsonMixed '' @ tempFile) s of
        (Inl err, s4) \<Rightarrow> (Rejected err, runCleanup tempCleanup s4)
      | (Inr (stdout, stderr), s4) \<Rightarrow>
          (case extractJson stdout of
             None \<Rightarrow> (Resolved None, runCleanup tempCleanup s4)
           | Some jsonText \<Rightarrow>
               if jsonText = [] then (Resolved None, runCleanup tempCleanup s4)
               else
                 (case JSON_parse jsonText of
                    Returns v \<Rightarrow> (Resolved (Some v), runCleanup tempCleanup s4)
                  | Throws \<Rightarrow>
                      (Rejected (JsError None ''SyntaxError''), runCleanup tempCleanup s4)
                  | Unmodelled \<Rightarrow>
                      (Beyond, (runCleanup tempCleanup s4)\<lparr>beyond := True\<rparr>))))"

definition generateModelJson ::
  "host \<Rightarrow> TextDocument \<Rightarrow> server \<Rightarrow> json option promise \<times> server" where
  "generateModelJson h document s =
     (case generateModelJson_begin h document s of
        (Inl outcome, s1) \<Rightarrow> (outcome, s1)
      | (Inr (jarPath, tempFile, tempCleanup), s1) \<Rightarrow>
          generateModelJson_end h jarPath tempFile tempCleanup s1)"

text \<open>
  \<^verbatim>\<open>getModelCompletions\<close>. The items are made from the model by
  \<^verbatim>\<open>buildModelCompletions\<close>, which is the argument \<open>build\<close> here (\<open>None\<close> when it throws):
  what it makes of a model plays no part in what is cached when and what is dispatched, and
  the properties below hold for every such function.

  \<open>cacheModel\<close> is the code behind \<^verbatim>\<open>await generateModelJson(document)\<close>: the
  \<^verbatim>\<open>try\<close> with its \<^verbatim>\<open>catch\<close>, and \<^verbatim>\<open>modelCache.set\<close>, which reads the URI and the
  version from the document object as it is at that time.
\<close>

definition cacheModel ::
  "(json \<Rightarrow> CompletionItem list option) \<Rightarrow> TextDocument \<Rightarrow> json option promise \<Rightarrow> server
     \<Rightarrow> CompletionItem list promise \<times> server" where
  "cacheModel build document outcome s1 =
     (case outcome of
        Beyond \<Rightarrow> (Beyond, s1)
      | other \<Rightarrow>
          (let (its, s2) =
                 (case outcome of
                    Rejected err \<Rightarrow>
                      ([], consoleWrite ''warn''
                             (''Failed to build model completions: '' @ errorString err) s1)
                  | Resolved None \<Rightarrow> ([], s1)
                  | Resolved (Some modelJson) \<Rightarrow>
                      if truthy modelJson then
                        (case build modelJson of
                           Some built \<Rightarrow> (built, s1)
                         | None \<Rightarrow>
                             ([], consoleWrite ''warn''
                                    ''Failed to build model completions: TypeError'' s1))
                      else ([], s1)
                  | Beyond \<Rightarrow> ([], s1))
           in (Resolved its,
               s2\<lparr>modelCache := (modelCache s2)(uri document \<mapsto> (version document, its))\<rparr>)))"

text \<open>The cache entry that answers for a document, if there is one.\<close>

definition cachedItems :: "TextDocument \<Rightarrow> server \<Rightarrow> CompletionItem list option" where
  "cachedItems document s =
     (case modelCache s (uri document) of
        None \<Rightarrow> None
      | Some (v, its) \<Rightarrow> if v = version document then Some its else None)"

text \<open>\<^verbatim>\<open>getModelCompletions\<close> when no notification is handled while it waits.\<close>

definition getModelCompletions ::
  "host \<Rightarrow> (json \<Rightarrow> CompletionItem list option) \<Rightarrow> TextDocument \<Rightarrow> server
     \<Rightarrow> CompletionItem list promise \<times> server" where
  "getModelCompletions h build document s =
     (case cachedItems document s of
        Some its \<Rightarrow> (Resolved its, s)
      | None \<Rightarrow>
          (case generateModelJson h document s of
             (outcome, s1) \<Rightarrow> cacheModel build document outcome s1))"

text \<open>What \<^verbatim>\<open>onCompletion\<close> does to the state and the model items it merges in; the keyword
  and class-name items it adds are computed from the documents alone.\<close>

definition onCompletion ::
  "host \<Rightarrow> (json \<Rightarrow> CompletionItem list option) \<Rightarrow> string \<Rightarrow> server
     \<Rightarrow> CompletionItem list promise \<times> server" where
  "onCompletion h build u s =
     (case map_of (documents s) u of
        None \<Rightarrow> (Resolved [], s)
      | Some document \<Rightarrow> getModelCompletions h build document s)"

text \<open>
  A completion request with the wait in it. \<open>onCompletion_begin\<close> runs the request up to
  the command for the compiler service: it answers at once when there is no document, when
  the cache answers, or when \<^verbatim>\<open>generateModelJson\<close> returns without sending a command;
  otherwise the request is kept under a fresh number with the document object it holds.
  \<open>onCompletion_end\<close> runs a waiting request from the answer of the compiler service on.
  The notifications handled in between are those that arrive while the request waits. (The
  request also waits for the file system before the command is sent; these waits are not
  split off.)
\<close>

definition onCompletion_begin ::
  "host \<Rightarrow> (json \<Rightarrow> CompletionItem list option) \<Rightarrow> string \<Rightarrow> server
     \<Rightarrow> (CompletionItem list promise + nat) \<times> server" where
  "onCompletion_begin h build u s =
     (case map_of (documents s) u of
        None \<Rightarrow> (Inl (Resolved []), s)
      | Some document \<Rightarrow>
          (case cachedItems document s of
             Some its \<Rightarrow> (Inl (Resolved its), s)
           | None \<Rightarrow>
               (case generateModelJson_begin h document s of
                  (Inl outcome, s1) \<Rightarrow>
                    (case cacheModel build document outcome s1 of
                       (answer, s2) \<Rightarrow> (Inl answer, s2))
                | (Inr (jarPath, tempFile, tempCleanup), s1) \<Rightarrow>
                    (Inr (nextRequest s1),
                     s1\<lparr>requests := (requests s1)(nextRequest s1 \<mapsto>
                            \<lparr>heldDocument = document, sharesStore = True,
                             requestJar = jarPath, requestFile = tempFile,
                             requestCleanup = tempCleanup\<rparr>),
                        nextRequest := nextRequest s1 + 1\<rparr>))))"

definition onCompletion_end ::
  "host \<Rightarrow> (json \<Rightarrow> CompletionItem list option) \<Rightarrow> nat \<Rightarrow> server
     \<Rightarrow> (CompletionItem list promise \<times> server) option" where
  "onCompletion_end h build k s =
     (case requests s k of
        None \<Rightarrow> None
      | Some r \<Rightarrow>
          (case generateModelJson_end h (requestJar r) (requestFile r) (requestCleanup r)
                  (s\<lparr>requests := (requests s)(k := None)\<rparr>) of
             (outcome, s1) \<Rightarrow> Some (cacheModel build (heldDocument r) outcome s1)))"

text \<open>The part of the state that a dispatch leaves alone.\<close>

definition outsideBridge where
  "outsideBridge s =
     (documents s, pendingValidations s, modelCache s, workspaceRoots s, umpleSyncJarPath s,
      umpleSyncPort s, jarWarningShown s, umpleJarPath s, umpleGoToDefClasspath s,
      timers s, nextTimer s, published s, console s, warningsShown s, paths s, unhandled s,
      beyond s)"

text \<open>The part of the state that holds the timeouts.\<close>

definition scheduling where
  "scheduling s = (timers s, pendingValidations s, nextTimer s)"

section \<open>Shadow Workspace Builder and Definition Resolver\<close>

definition isPathInside :: "host \<Rightarrow> string \<Rightarrow> string \<Rightarrow> bool" where
  "isPathInside h filePath root =
     (let rel = relative (cwd h) root filePath
      in \<not> startsWith rel ''..'' \<and> \<not> isAbsolute rel)"

definition getWorkspaceRootForPath :: "host \<Rightarrow> string \<Rightarrow> server \<Rightarrow> string option" where
  "getWorkspaceRootForPath h filePath s =
     find (\<lambda>root. isPathInside h filePath root) (workspaceRoots s)"

text \<open>
  \<^verbatim>\<open>mirrorWorkspaceUmpleFiles\<close> and \<^verbatim>\<open>overlayOpenDocuments\<close>: each target is a path under
  the shadow root. A failure of the file system (of \<^verbatim>\<open>readdir\<close>, \<^verbatim>\<open>mkdir\<close>,
  \<^verbatim>\<open>symlink\<close>, \<^verbatim>\<open>copyFile\<close>, \<^verbatim>\<open>rm\<close>, \<^verbatim>\<open>writeFile\<close>) that the function does not catch
  is thrown; the host says whether there is one, and it is taken to come before the first
  target is made.
\<close>

definition mirrorWorkspaceUmpleFiles ::
  "host \<Rightarrow> string \<Rightarrow> string \<Rightarrow> server \<Rightarrow> (js_error + unit) \<times> server" where
  "mirrorWorkspaceUmpleFiles h workspaceRoot shadowRoot s =
     (case mirrorFailure h of
        Some err \<Rightarrow> (Inl err, s)
      | None \<Rightarrow>
          (Inr (),
           fold (\<lambda>filePath. writeFile
                   (path_join shadowRoot (relative (cwd h) workspaceRoot filePath)))
             (walkUmpleFiles h workspaceRoot) s))"

definition overlayOpenDocuments ::
  "host \<Rightarrow> string \<Rightarrow> string \<Rightarrow> server \<Rightarrow> (js_error + unit) \<times> server" where
  "overlayOpenDocuments h workspaceRoot shadowRoot s =
     (case overlayFailure h of
        Some err \<Rightarrow> (Inl err, s)
      | None \<Rightarrow>
          (Inr (),
           fold (\<lambda>(u, doc) st.
                   case getDocumentFilePath h doc of
                     None \<Rightarrow> st
                   | Some docPath \<Rightarrow>
                       if docPath = [] \<or> \<not> isPathInside h docPath workspaceRoot then st
                       else writeFile
                              (path_join shadowRoot (relative (cwd h) workspaceRoot docPath)) st)
             (documents s) s))"

record ShadowWorkspace =
  filePath :: string
  shadowRoot :: string
  workspaceRoot :: string

text \<open>\<^verbatim>\<open>createShadowWorkspace\<close>; the \<^verbatim>\<open>cleanup\<close> of its result is
  \<open>RemoveTree\<close> of the shadow root. Nothing catches what the mirroring and the overlaying
  throw.\<close>

definition createShadowWorkspace ::
  "host \<Rightarrow> TextDocument \<Rightarrow> string \<Rightarrow> server \<Rightarrow> ShadowWorkspace option promise \<times> server" where
  "createShadowWorkspace h document lbl s =
     (case getDocumentFilePath h document of
        None \<Rightarrow> (Resolved None, s)
      | Some docPath \<Rightarrow>
          if docPath = [] then (Resolved None, s)
          else
            (case getWorkspaceRootForPath h docPath s of
               None \<Rightarrow> (Resolved None, s)
             | Some root \<Rightarrow>
                 if root = [] then (Resolved None, s)
                 else
                   (case mkdtemp h (path_join (tmpdir h) (''umple-shadow-'' @ lbl @ ''-'')) s of
                      (shadow, s1) \<Rightarrow>
                        (case mirrorWorkspaceUmpleFiles h root shadow s1 of
                           (Inl err, s2) \<Rightarrow> (Rejected err, s2)
                         | (Inr u, s2) \<Rightarrow>
                             (case overlayOpenDocuments h root shadow s2 of
                                (Inl err, s3) \<Rightarrow> (Rejected err, s3)
                              | (Inr u', s3) \<Rightarrow>
                                  (Resolved
                                     (Some \<lparr>filePath =
                                              path_join shadow (relative (cwd h) root docPath),
                                            shadowRoot = shadow, workspaceRoot = root\<rparr>),
                                   s3))))))"

text \<open>The fields of \<^verbatim>\<open>GoToDefResult\<close> that are read; \<open>file'\<close> and \<open>lineNo\<close> are its fields
  \<^verbatim>\<open>file\<close> and \<^verbatim>\<open>line\<close>.\<close>

record GoToDefResult =
  found :: bool
  file' :: "string option"
  lineNo :: "int option"
  col :: "int option"

text \<open>A property that the type declares \<^verbatim>\<open>number | undefined\<close>: the lookup tool prints
  integers, which are exact up to \<open>2\<^sup>5\<^sup>3\<close>.\<close>

fun numberField :: "json option \<Rightarrow> int option outcome" where
  "numberField None = Returns None"
| "numberField (Some JNull) = Returns None"
| "numberField (Some (JNumber lit)) =
     (case Number lit of
        Some (Num v) \<Rightarrow> Returns (Some v)
      | _ \<Rightarrow> Unmodelled)"
| "numberField (Some v) = Unmodelled"

text \<open>\<^verbatim>\<open>parseGoToDefOutput\<close>: \<open>None\<close> for \<^verbatim>\<open>null\<close>. The optional chaining
  \<^verbatim>\<open>parsed?.found\<close> reads \<^verbatim>\<open>undefined\<close> from \<^verbatim>\<open>null\<close>.\<close>

definition parseGoToDefOutput :: "string \<Rightarrow> GoToDefResult option outcome" where
  "parseGoToDefOutput stdout =
     (let trimmed = trim stdout in
      if trimmed = [] then Returns None
      else
        (case JSON_parse trimmed of
           Throws \<Rightarrow> Returns None
         | Unmodelled \<Rightarrow> Unmodelled
         | Returns parsed \<Rightarrow>
             (case (case parsed of JNull \<Rightarrow> Returns None | v \<Rightarrow> property v ''found'') of
                Returns (Some (JBool b)) \<Rightarrow>
                  bind_outcome (bind_outcome (property parsed ''file'') textField) (\<lambda>f.
                  bind_outcome (bind_outcome (property parsed ''line'') numberField) (\<lambda>l.
                  bind_outcome (bind_outcome (property parsed ''col'') numberField) (\<lambda>c.
                    Returns (Some \<lparr>found = b, file' = f, lineNo = l, col = c\<rparr>))))
              | other \<Rightarrow> Returns None)))"

text \<open>\<^verbatim>\<open>resolveDefinitionUri\<close>.\<close>

definition resolveDefinitionUri ::
  "host \<Rightarrow> GoToDefResult \<Rightarrow> TextDocument \<Rightarrow> string \<Rightarrow> string option \<Rightarrow> string option
     \<Rightarrow> string" where
  "resolveDefinitionUri h def document tempFile shadow root =
     (let docPath = getDocumentFilePath h document;
          docDir = (case docPath of
                      None \<Rightarrow> None
                    | Some p \<Rightarrow> if p = [] then None else Some (dirname p));
          rawFile = map_option trim (file' def);
          resolvedPath =
            (case rawFile of
               None \<Rightarrow> docPath
             | Some raw \<Rightarrow>
                 if raw = [] then docPath
                 else if isAbsolute raw then Some raw
                 else (case docDir of
                         Some dir \<Rightarrow> Some (path_join dir raw)
                       | None \<Rightarrow> Some raw))
      in case resolvedPath of
           None \<Rightarrow> uri document
         | Some resolved \<Rightarrow>
             if resolved = [] then uri document
             else if resolved = tempFile \<or> basename resolved = basename tempFile
               then uri document
             else if (case docPath of None \<Rightarrow> False | Some p \<Rightarrow> p \<noteq> [] \<and> resolved = p)
               then uri document
             else
               (case (shadow, root) of
                  (Some sr, Some wr) \<Rightarrow>
                    if sr \<noteq> [] \<and> wr \<noteq> [] then
                      (let rel = relative (cwd h) sr resolved in
                       if \<not> startsWith rel ''..'' \<and> \<not> isAbsolute rel
                       then pathToFileURL h (path_join wr rel)
                       else pathToFileURL h resolved)
                    else pathToFileURL h resolved
                | other \<Rightarrow> pathToFileURL h resolved))"

record Location =
  uri' :: string
  range' :: Range

text \<open>
  \<^verbatim>\<open>onDefinition\<close> for a request at \<open>(ln, ch)\<close> in the document \<open>u\<close>. The shadow
  workspace is built, and the temporary file written, before the \<^verbatim>\<open>try\<close> (a failure
  of either rejects the request with nothing cleaned up); the lookup and
  the mapping of its answer are inside it; the \<^verbatim>\<open>catch\<close> writes a warning and answers
  with the empty list; the \<^verbatim>\<open>finally\<close> runs the cleanup. The positions of the location
  are made by \<^verbatim>\<open>Position.create\<close> and \<^verbatim>\<open>Range.create\<close> from unsigned integers up to
  \<open>2\<^sup>3\<^sup>1 - 1\<close>.
\<close>

definition onDefinition ::
  "host \<Rightarrow> string \<Rightarrow> nat \<Rightarrow> nat \<Rightarrow> server \<Rightarrow> Location list promise \<times> server" where
  "onDefinition h u ln ch s =
     (case map_of (documents s) u of
        None \<Rightarrow> (Resolved [], s)
      | Some document \<Rightarrow>
          (case resolveGoToDefSettings h s of
             (None, s1) \<Rightarrow> (Resolved [], s1)
           | (Some (jarPath, classpath), s1) \<Rightarrow>
               (case createShadowWorkspace h document ''def'' s1 of
                  (Rejected err, s2) \<Rightarrow> (Rejected err, s2)
                | (Beyond, s2) \<Rightarrow> (Beyond, s2)
                | (Resolved shadowInfo, s2) \<Rightarrow>
                    (case (case shadowInfo of
                             Some sw \<Rightarrow> (Inr (filePath sw, RemoveTree (shadowRoot sw)), s2)
                           | None \<Rightarrow>
                               (case writeTempUmpleFile h document ''def'' s2 of
                                  ((tf, tc), s3) \<Rightarrow>
                                    (case writeFailure h tf of
                                       Some err \<Rightarrow> (Inl err, s3)
                                     | None \<Rightarrow> (Inr (tf, tc), writeFile tf s3))))
                     of
                       (Inl err, s4) \<Rightarrow> (Rejected err, s4)
                     | (Inr (tempFile, tempCleanup), s4) \<Rightarrow>
                         (case
                            (case lookup h tempFile (ln + 1) ch of
                               Inl err \<Rightarrow>
                                 (Resolved [],
                                  consoleWrite ''warn''
                                    (''Go to definition failed: '' @ errorString err) s4)
                             | Inr stdout \<Rightarrow>
                                 (case parseGoToDefOutput stdout of
                                    Unmodelled \<Rightarrow> (Beyond, s4\<lparr>beyond := True\<rparr>)
                                  | Throws \<Rightarrow> (Beyond, s4\<lparr>beyond := True\<rparr>)
                                  | Returns None \<Rightarrow> (Resolved [], s4)
                                  | Returns (Some def) \<Rightarrow>
                                      if \<not> found def then (Resolved [], s4)
                                      else
                                        (let target = resolveDefinitionUri h def document tempFile
                                                     (map_option shadowRoot shadowInfo)
                                                     (map_option workspaceRoot shadowInfo);
                                             defLine = max ((case lineNo def of
                                                               None \<Rightarrow> 1 | Some l \<Rightarrow> l) - 1) 0;
                                             defCol = max ((case col def of
                                                              None \<Rightarrow> 1 | Some c \<Rightarrow> c) - 1) 0
                                         in case (uinteger (Num defLine), uinteger (Num defCol)) of
                                              (Some l, Some c) \<Rightarrow>
                                                (Resolved
                                                   [\<lparr>uri' = target,
                                                      range' =
                                                        \<lparr>start = \<lparr>line = l, character = c\<rparr>,
                                                         end' = \<lparr>line = l, character = c\<rparr>\<rparr>\<rparr>],
                                                 s4)
                                            | other \<Rightarrow> (Beyond, s4\<lparr>beyond := True\<rparr>))))
                          of
                            (answer, s5) \<Rightarrow> (answer, runCleanup tempCleanup s5))))))"

section \<open>Context Detection Engine\<close>
















section \<open>Texts as the scan reads them\<close>








section \<open>Properties of the demultiplexer\<close>

lemma find_from_None: "pat \<noteq> [] \<Longrightarrow> \<not> sublist pat cs \<Longrightarrow> find_from pat cs k = None"
proof (induction cs arbitrary: k)
  case Nil
  then show ?case by simp
next
  case (Cons c cs)
  from Cons.prems have np: "\<not> prefix pat (c # cs)"
    using prefix_imp_sublist by blast
  from Cons.prems have "\<not> sublist pat cs"
    by (meson sublist_Cons_right)
  then have "find_from pat cs (Suc k) = None"
    using Cons.IH Cons.prems(1) by blast
  with np show ?case by simp
qed

lemma prefix_into_front:
  assumes "prefix pat (a @ pat @ b)" and "a \<noteq> []"
  shows "prefix pat (a @ butlast pat)"
proof (cases "pat = []")
  case True
  then show ?thesis by simp
next
  case False
  have len: "length pat \<le> length (a @ butlast pat)"
    using assms(2) False by (cases a) auto
  have "a @ pat @ b = (a @ butlast pat) @ (last pat # b)"
    using False by simp
  with assms(1) have "prefix pat ((a @ butlast pat) @ (last pat # b))"
    by simp
  then have "prefix pat (a @ butlast pat) \<or> (\<exists>us. pat = (a @ butlast pat) @ us \<and> prefix us (last pat # b))"
    unfolding prefix_append by blast
  then show ?thesis
  proof
    assume "prefix pat (a @ butlast pat)" then show ?thesis .
  next
    assume "\<exists>us. pat = (a @ butlast pat) @ us \<and> prefix us (last pat # b)"
    then obtain us where "pat = (a @ butlast pat) @ us" by blast
    then have "length pat = length (a @ butlast pat) + length us" by (metis length_append)
    with len have "length us = 0" by linarith
    then have "us = []" by simp
    with \<open>pat = (a @ butlast pat) @ us\<close> show ?thesis by simp
  qed
qed

lemma find_from_first:
  "pat \<noteq> [] \<Longrightarrow> \<not> sublist pat (a @ butlast pat) \<Longrightarrow>
   find_from pat (a @ pat @ b) k = Some (k + length a)"
proof (induction a arbitrary: k)
  case Nil
  then show ?case by (cases pat) auto
next
  case (Cons x a)
  have np: "\<not> prefix pat (x # a @ pat @ b)"
  proof
    assume "prefix pat (x # a @ pat @ b)"
    then have "prefix pat ((x # a) @ pat @ b)" by simp
    then have "prefix pat ((x # a) @ butlast pat)"
      by (rule prefix_into_front) simp
    with Cons.prems(2) show False
      using prefix_imp_sublist by blast
  qed
  from Cons.prems(2) have "\<not> sublist pat (a @ butlast pat)"
    by (metis append_Cons sublist_Cons_right)
  then have "find_from pat (a @ pat @ b) (Suc k) = Some (Suc k + length a)"
    using Cons.IH Cons.prems(1) by blast
  with np show ?case by simp
qed

lemma splitLoop_unmatched:
  assumes "index < length raw"
    and "indexOf raw ''ERROR!!'' index = Some first"
    and "indexOf raw ''!!ERROR'' (first + 7) = None"
  shows "splitLoop raw index so se = (so @ slice raw index first, se @ drop (first + 7) raw)"
  using assms by (subst splitLoop.simps) simp

lemma indexOf_at: "indexOf (pre @ t) pat (length pre) = find_from pat t (length pre)"
  by (simp add: indexOf_def)

lemma slice_middle: "slice (p @ y @ r) (length p) (length p + length y) = y"
  by (simp add: slice_def)

text \<open>One matched pair: the first opening marker at or after the scan position ends
  \<open>x\<close>, the first closing marker after it ends \<open>y\<close>, and the scan goes on behind the
  closing marker.\<close>

lemma splitLoop_pair:
  assumes "\<not> sublist ''ERROR!!'' (x @ ''ERROR!'')" and "\<not> sublist ''!!ERROR'' (y @ ''!!ERRO'')"
  shows "splitLoop (pre @ x @ ''ERROR!!'' @ y @ ''!!ERROR'' @ rest) (length pre) so se
       = splitLoop (pre @ x @ ''ERROR!!'' @ y @ ''!!ERROR'' @ rest)
           (length (pre @ x @ ''ERROR!!'' @ y @ ''!!ERROR'')) (so @ x) (se @ y)"
proof -
  let ?raw = "pre @ x @ ''ERROR!!'' @ y @ ''!!ERROR'' @ rest"
  have lt: "length pre < length ?raw" by simp
  have "indexOf (pre @ (x @ ''ERROR!!'' @ (y @ ''!!ERROR'' @ rest))) ''ERROR!!'' (length pre)
        = Some (length pre + length x)"
    unfolding indexOf_at
    using find_from_first [of "''ERROR!!''" x "y @ ''!!ERROR'' @ rest" "length pre"] assms(1)
    by simp
  then have s: "indexOf ?raw ''ERROR!!'' (length pre) = Some (length pre + length x)" by simp
  have "indexOf ((pre @ x @ ''ERROR!!'') @ (y @ ''!!ERROR'' @ rest)) ''!!ERROR''
          (length (pre @ x @ ''ERROR!!'')) = Some (length (pre @ x @ ''ERROR!!'') + length y)"
    unfolding indexOf_at
    using find_from_first [of "''!!ERROR''" y rest "length (pre @ x @ ''ERROR!!'')"] assms(2)
    by simp
  then have e: "indexOf ?raw ''!!ERROR'' (length pre + length x + 7)
        = Some (length pre + length x + 7 + length y)" by (simp add: eval_nat_numeral)
  have sl1: "slice ?raw (length pre) (length pre + length x) = x"
    by (simp add: slice_def)
  have "slice ((pre @ x @ ''ERROR!!'') @ (y @ ''!!ERROR'' @ rest))
          (length (pre @ x @ ''ERROR!!'')) (length (pre @ x @ ''ERROR!!'') + length y) = y"
    by (rule slice_middle)
  then have sl2: "slice ?raw (length pre + length x + 7) (length pre + length x + 7 + length y) = y"
    by (simp add: eval_nat_numeral)
  have "splitLoop ?raw (length pre) so se
        = splitLoop ?raw (length pre + length x + 7 + length y + 7) (so @ x) (se @ y)"
    by (subst splitLoop.simps) (simp only: lt s e sl1 sl2 if_True option.case)
  moreover have "length (pre @ x @ ''ERROR!!'' @ y @ ''!!ERROR'')
        = length pre + length x + 7 + length y + 7" by simp
  ultimately show ?thesis by (simp only:)
qed

text \<open>Any number of matched pairs.\<close>

lemma splitLoop_pairs:
  assumes "\<forall>(x, y)\<in>set ps. \<not> sublist ''ERROR!!'' (x @ ''ERROR!'')
                           \<and> \<not> sublist ''!!ERROR'' (y @ ''!!ERRO'')"
  shows "splitLoop (pre @ concat (map (\<lambda>(x, y). x @ ''ERROR!!'' @ y @ ''!!ERROR'') ps) @ fin)
           (length pre) so se
       = splitLoop (pre @ concat (map (\<lambda>(x, y). x @ ''ERROR!!'' @ y @ ''!!ERROR'') ps) @ fin)
           (length (pre @ concat (map (\<lambda>(x, y). x @ ''ERROR!!'' @ y @ ''!!ERROR'') ps)))
           (so @ concat (map fst ps)) (se @ concat (map snd ps))"
  using assms
proof (induction ps arbitrary: pre so se)
  case Nil
  then show ?case by simp
next
  case (Cons p ps)
  obtain x y where p: "p = (x, y)" by (cases p)
  let ?f = "\<lambda>(x, y). x @ ''ERROR!!'' @ y @ ''!!ERROR''"
  let ?pre = "pre @ x @ ''ERROR!!'' @ y @ ''!!ERROR''"
  from Cons.prems p have xy: "\<not> sublist ''ERROR!!'' (x @ ''ERROR!'')"
    "\<not> sublist ''!!ERROR'' (y @ ''!!ERRO'')" by simp_all
  from Cons.prems have rest: "\<forall>(x, y)\<in>set ps. \<not> sublist ''ERROR!!'' (x @ ''ERROR!'')
                           \<and> \<not> sublist ''!!ERROR'' (y @ ''!!ERRO'')" by simp
  have raw: "pre @ concat (map ?f (p # ps)) @ fin
           = pre @ x @ ''ERROR!!'' @ y @ ''!!ERROR'' @ (concat (map ?f ps) @ fin)"
    using p by simp
  have raw': "pre @ concat (map ?f (p # ps)) @ fin = ?pre @ concat (map ?f ps) @ fin"
    using p by simp
  have "splitLoop (pre @ concat (map ?f (p # ps)) @ fin) (length pre) so se
      = splitLoop (pre @ concat (map ?f (p # ps)) @ fin) (length ?pre) (so @ x) (se @ y)"
    unfolding raw by (rule splitLoop_pair [OF xy])
  also have "\<dots> = splitLoop (?pre @ concat (map ?f ps) @ fin)
                      (length (?pre @ concat (map ?f ps)))
                      ((so @ x) @ concat (map fst ps)) ((se @ y) @ concat (map snd ps))"
    unfolding raw' by (rule Cons.IH [OF rest])
  finally show ?case using p by simp
qed

lemma splitLoop_tail_unmatched:
  assumes "\<not> sublist ''ERROR!!'' (a @ ''ERROR!'')" and "\<not> sublist ''!!ERROR'' b"
  shows "splitLoop (pre @ a @ ''ERROR!!'' @ b) (length pre) so se = (so @ a, se @ b)"
proof -
  let ?raw = "pre @ a @ ''ERROR!!'' @ b"
  have lt: "length pre < length ?raw" by simp
  have s: "indexOf ?raw ''ERROR!!'' (length pre) = Some (length pre + length a)"
    unfolding indexOf_at
    using find_from_first [of "''ERROR!!''" a b "length pre"] assms(1) by simp
  have "indexOf ((pre @ a @ ''ERROR!!'') @ b) ''!!ERROR'' (length (pre @ a @ ''ERROR!!'')) = None"
    unfolding indexOf_at using find_from_None [of "''!!ERROR''" b] assms(2) by simp
  then have e: "indexOf ?raw ''!!ERROR'' (length pre + length a + 7) = None"
    by (simp add: eval_nat_numeral)
  from splitLoop_unmatched [OF lt s e, of so se] show ?thesis
    by (simp add: slice_def)
qed

lemma splitLoop_tail_plain:
  assumes "\<not> sublist ''ERROR!!'' a"
  shows "splitLoop (pre @ a) (length pre) so se = (so @ a, se)"
proof (cases "a = []")
  case True
  then show ?thesis by (subst splitLoop.simps) simp
next
  case False
  then have lt: "length pre < length (pre @ a)" by simp
  have s: "indexOf (pre @ a) ''ERROR!!'' (length pre) = None"
    unfolding indexOf_at using find_from_None [of "''ERROR!!''" a] assms by simp
  show ?thesis by (subst splitLoop.simps) (simp add: lt s)
qed

lemma split_pairs_unmatched:
  assumes "\<forall>(x, y)\<in>set ps. \<not> sublist ''ERROR!!'' (x @ ''ERROR!'')
                           \<and> \<not> sublist ''!!ERROR'' (y @ ''!!ERRO'')"
    and "\<not> sublist ''ERROR!!'' (a @ ''ERROR!'')" and "\<not> sublist ''!!ERROR'' b"
  shows "splitUmpleSyncOutput
           (concat (map (\<lambda>(x, y). x @ ''ERROR!!'' @ y @ ''!!ERROR'') ps) @ a @ ''ERROR!!'' @ b)
         = (concat (map fst ps) @ a, concat (map snd ps) @ b)"
proof -
  let ?f = "\<lambda>(x, y). x @ ''ERROR!!'' @ y @ ''!!ERROR''"
  have "splitLoop ([] @ concat (map ?f ps) @ (a @ ''ERROR!!'' @ b)) (length ([] :: string)) [] []
      = splitLoop ([] @ concat (map ?f ps) @ (a @ ''ERROR!!'' @ b))
          (length ([] @ concat (map ?f ps))) ([] @ concat (map fst ps)) ([] @ concat (map snd ps))"
    by (rule splitLoop_pairs [OF assms(1)])
  also have "\<dots> = (concat (map fst ps) @ a, concat (map snd ps) @ b)"
    using splitLoop_tail_unmatched [OF assms(2,3), of "concat (map ?f ps)"
        "concat (map fst ps)" "concat (map snd ps)"] by simp
  finally show ?thesis by (simp add: splitUmpleSyncOutput_def)
qed

lemma split_pairs_plain:
  assumes "\<forall>(x, y)\<in>set ps. \<not> sublist ''ERROR!!'' (x @ ''ERROR!'')
                           \<and> \<not> sublist ''!!ERROR'' (y @ ''!!ERRO'')"
    and "\<not> sublist ''ERROR!!'' a"
  shows "splitUmpleSyncOutput (concat (map (\<lambda>(x, y). x @ ''ERROR!!'' @ y @ ''!!ERROR'') ps) @ a)
         = (concat (map fst ps) @ a, concat (map snd ps))"
proof -
  let ?f = "\<lambda>(x, y). x @ ''ERROR!!'' @ y @ ''!!ERROR''"
  have "splitLoop ([] @ concat (map ?f ps) @ a) (length ([] :: string)) [] []
      = splitLoop ([] @ concat (map ?f ps) @ a)
          (length ([] @ concat (map ?f ps))) ([] @ concat (map fst ps)) ([] @ concat (map snd ps))"
    by (rule splitLoop_pairs [OF assms(1)])
  also have "\<dots> = (concat (map fst ps) @ a, concat (map snd ps))"
    using splitLoop_tail_plain [OF assms(2), of "concat (map ?f ps)"
        "concat (map fst ps)" "concat (map snd ps)"] by simp
  finally show ?thesis by (simp add: splitUmpleSyncOutput_def)
qed

lemma sublist_length_le: "sublist xs ys \<Longrightarrow> length xs \<le> length ys"
  by (auto simp: sublist_def)

lemma first_occurrence:
  assumes "sublist pat s" and "pat \<noteq> []"
  shows "\<exists>a b. s = a @ pat @ b \<and> \<not> sublist pat (a @ butlast pat)"
  using assms(1)
proof (induction s)
  case Nil
  with assms(2) show ?case by simp
next
  case (Cons c cs)
  show ?case
  proof (cases "prefix pat (c # cs)")
    case True
    then obtain b where "c # cs = pat @ b" by (auto simp: prefix_def)
    moreover have "\<not> sublist pat ([] @ butlast pat)"
    proof
      assume "sublist pat ([] @ butlast pat)"
      then have "length pat \<le> length (butlast pat)" using sublist_length_le by fastforce
      moreover have "length (butlast pat) = length pat - 1" by (rule length_butlast)
      moreover have "0 < length pat" using assms(2) by (rule length_greater_0_conv [THEN iffD2])
      ultimately show False by arith
    qed
    ultimately show ?thesis by (metis append_Nil)
  next
    case False
    with Cons.prems have "sublist pat cs" by (simp add: sublist_Cons_right)
    from Cons.IH [OF this] obtain a b where ab: "cs = a @ pat @ b"
      and n: "\<not> sublist pat (a @ butlast pat)" by blast
    have "\<not> sublist pat ((c # a) @ butlast pat)"
    proof
      assume "sublist pat ((c # a) @ butlast pat)"
      with n have "prefix pat (c # a @ butlast pat)" by (simp add: sublist_Cons_right)
      moreover have "prefix (c # a @ butlast pat) (c # a @ pat @ b)"
        using assms(2) by (metis Cons_prefix_Cons append_butlast_last_id append.assoc prefixI same_prefix_prefix)
      ultimately have "prefix pat (c # cs)" using ab by (metis prefix_order.order_trans)
      with False show False by simp
    qed
    with ab show ?thesis by (metis append_Cons)
  qed
qed

text \<open>Every input is read by the scan as pairs followed by a rest with no opening marker,
  or by an opening marker that has no closing marker after it.\<close>

lemma scan_decomposition:
  "\<exists>ps a. (\<forall>(x, y)\<in>set ps. \<not> sublist ''ERROR!!'' (x @ ''ERROR!'')
                           \<and> \<not> sublist ''!!ERROR'' (y @ ''!!ERRO''))
     \<and> (raw = concat (map (\<lambda>(x, y). x @ ''ERROR!!'' @ y @ ''!!ERROR'') ps) @ a
          \<and> \<not> sublist ''ERROR!!'' a
        \<or> (\<exists>b. raw = concat (map (\<lambda>(x, y). x @ ''ERROR!!'' @ y @ ''!!ERROR'') ps)
                       @ a @ ''ERROR!!'' @ b
              \<and> \<not> sublist ''ERROR!!'' (a @ ''ERROR!'') \<and> \<not> sublist ''!!ERROR'' b))"
proof (induction raw rule: length_induct)
  case (1 raw)
  let ?f = "\<lambda>(x, y). x @ ''ERROR!!'' @ y @ ''!!ERROR''"
  let ?ok = "\<lambda>ps. \<forall>(x, y)\<in>set ps. \<not> sublist ''ERROR!!'' (x @ ''ERROR!'')
                           \<and> \<not> sublist ''!!ERROR'' (y @ ''!!ERRO'')"
  show ?case
  proof (cases "sublist ''ERROR!!'' raw")
    case False
    then have "?ok [] \<and> raw = concat (map ?f []) @ raw \<and> \<not> sublist ''ERROR!!'' raw" by simp
    then show ?thesis by blast
  next
    case True
    from first_occurrence [OF True] obtain a0 r where
      raw: "raw = a0 @ ''ERROR!!'' @ r" and a0: "\<not> sublist ''ERROR!!'' (a0 @ ''ERROR!'')"
      by auto
    show ?thesis
    proof (cases "sublist ''!!ERROR'' r")
      case False
      with raw a0 have "?ok [] \<and> raw = concat (map ?f []) @ a0 @ ''ERROR!!'' @ r
          \<and> \<not> sublist ''ERROR!!'' (a0 @ ''ERROR!'') \<and> \<not> sublist ''!!ERROR'' r" by simp
      then show ?thesis by blast
    next
      case True
      from first_occurrence [OF True] obtain y r' where
        r: "r = y @ ''!!ERROR'' @ r'" and y: "\<not> sublist ''!!ERROR'' (y @ ''!!ERRO'')"
        by auto
      have "length r' < length raw" using raw r by simp
      with 1 obtain ps a where ok: "?ok ps"
        and forms: "r' = concat (map ?f ps) @ a \<and> \<not> sublist ''ERROR!!'' a
          \<or> (\<exists>b. r' = concat (map ?f ps) @ a @ ''ERROR!!'' @ b
                \<and> \<not> sublist ''ERROR!!'' (a @ ''ERROR!'') \<and> \<not> sublist ''!!ERROR'' b)"
        by blast
      have ok': "?ok ((a0, y) # ps)" using ok a0 y by simp
      have whole: "raw = concat (map ?f [(a0, y)]) @ r'" using raw r by simp
      from forms show ?thesis
      proof
        assume "r' = concat (map ?f ps) @ a \<and> \<not> sublist ''ERROR!!'' a"
        with whole have "raw = concat (map ?f ((a0, y) # ps)) @ a \<and> \<not> sublist ''ERROR!!'' a"
          by simp
        with ok' show ?thesis by blast
      next
        assume "\<exists>b. r' = concat (map ?f ps) @ a @ ''ERROR!!'' @ b
                \<and> \<not> sublist ''ERROR!!'' (a @ ''ERROR!'') \<and> \<not> sublist ''!!ERROR'' b"
        then obtain b where "r' = concat (map ?f ps) @ a @ ''ERROR!!'' @ b"
          and ab: "\<not> sublist ''ERROR!!'' (a @ ''ERROR!'')" "\<not> sublist ''!!ERROR'' b" by blast
        with whole have "raw = concat (map ?f ((a0, y) # ps)) @ a @ ''ERROR!!'' @ b" by simp
        with ok' ab show ?thesis by blast
      qed
    qed
  qed
qed

text \<open>
  An opening marker that overlaps the closing marker before it. In
  \<^verbatim>\<open>ERROR!!a!!ERROR!!b\<close> the text \<^verbatim>\<open>ERROR!!\<close> starts at 0 and at 10, and
  \<^verbatim>\<open>!!ERROR\<close> starts at 8 only: the marker at 10 has no closing marker after it, and what
  follows it is \<^verbatim>\<open>b\<close>. The scan pairs 0 with 8 and goes on at 15, behind the marker at
  10, so \<^verbatim>\<open>!!b\<close> goes to stdout and stderr is \<^verbatim>\<open>a\<close>.
\<close>

theorem splitUmpleSyncOutput_overlap:
  "splitUmpleSyncOutput ''ERROR!!a!!ERROR!!b'' = (''!!b'', ''a'')
   \<and> indexOf ''ERROR!!a!!ERROR!!b'' ''ERROR!!'' 10 = Some 10
   \<and> indexOf ''ERROR!!a!!ERROR!!b'' ''!!ERROR'' (10 + 7) = None
   \<and> drop (10 + 7) ''ERROR!!a!!ERROR!!b'' = ''b''"
  by (simp add: splitUmpleSyncOutput_def splitLoop.simps indexOf_def slice_def)

text \<open>
  Claim C2, amended. The stream \<^verbatim>\<open>ok ERROR!!{"x":1}!!ERRORmore\<close> splits into stdout
  \<^verbatim>\<open>ok more\<close> and stderr \<^verbatim>\<open>{"x":1}\<close>. The scan reads its input from left to right as
  pairs \<open>x ERROR!! y !!ERROR\<close>, where the opening marker is the first one at or after the
  place the scan has reached and the closing marker the first one after the opening marker,
  and goes on behind the closing marker. For every input in which this scan, after any
  number of pairs, reaches an opening marker with no closing marker after it, everything
  after that opening marker goes to stderr, behind the \<open>y\<close> of the pairs, and stdout is
  the \<open>x\<close> of the pairs and the text before that marker. When the scan reaches no such
  marker, what is left after the pairs goes to stdout. Every input is of one of these two
  forms.
\<close>

theorem splitUmpleSyncOutput_scan:
  "splitUmpleSyncOutput ''ok ERROR!!{\"x\":1}!!ERRORmore'' = (''ok more'', ''{\"x\":1}'')
   \<and> (\<forall>ps a b.
        (\<forall>(x, y)\<in>set ps. \<not> sublist ''ERROR!!'' (x @ ''ERROR!'')
                          \<and> \<not> sublist ''!!ERROR'' (y @ ''!!ERRO''))
        \<and> \<not> sublist ''ERROR!!'' (a @ ''ERROR!'') \<and> \<not> sublist ''!!ERROR'' b
        \<longrightarrow> splitUmpleSyncOutput
              (concat (map (\<lambda>(x, y). x @ ''ERROR!!'' @ y @ ''!!ERROR'') ps)
               @ a @ ''ERROR!!'' @ b)
            = (concat (map fst ps) @ a, concat (map snd ps) @ b))
   \<and> (\<forall>ps a.
        (\<forall>(x, y)\<in>set ps. \<not> sublist ''ERROR!!'' (x @ ''ERROR!'')
                          \<and> \<not> sublist ''!!ERROR'' (y @ ''!!ERRO''))
        \<and> \<not> sublist ''ERROR!!'' a
        \<longrightarrow> splitUmpleSyncOutput
              (concat (map (\<lambda>(x, y). x @ ''ERROR!!'' @ y @ ''!!ERROR'') ps) @ a)
            = (concat (map fst ps) @ a, concat (map snd ps)))
   \<and> (\<forall>raw. \<exists>ps a.
        (\<forall>(x, y)\<in>set ps. \<not> sublist ''ERROR!!'' (x @ ''ERROR!'')
                          \<and> \<not> sublist ''!!ERROR'' (y @ ''!!ERRO''))
        \<and> (raw = concat (map (\<lambda>(x, y). x @ ''ERROR!!'' @ y @ ''!!ERROR'') ps) @ a
             \<and> \<not> sublist ''ERROR!!'' a
           \<or> (\<exists>b. raw = concat (map (\<lambda>(x, y). x @ ''ERROR!!'' @ y @ ''!!ERROR'') ps)
                          @ a @ ''ERROR!!'' @ b
                 \<and> \<not> sublist ''ERROR!!'' (a @ ''ERROR!'') \<and> \<not> sublist ''!!ERROR'' b)))"
proof (intro conjI allI impI)
  show "splitUmpleSyncOutput ''ok ERROR!!{\"x\":1}!!ERRORmore'' = (''ok more'', ''{\"x\":1}'')"
    by (simp add: splitUmpleSyncOutput_def splitLoop.simps indexOf_def slice_def)
next
  fix ps :: "(string \<times> string) list" and a b
  assume "(\<forall>(x, y)\<in>set ps. \<not> sublist ''ERROR!!'' (x @ ''ERROR!'')
                          \<and> \<not> sublist ''!!ERROR'' (y @ ''!!ERRO''))
        \<and> \<not> sublist ''ERROR!!'' (a @ ''ERROR!'') \<and> \<not> sublist ''!!ERROR'' b"
  then show "splitUmpleSyncOutput
              (concat (map (\<lambda>(x, y). x @ ''ERROR!!'' @ y @ ''!!ERROR'') ps)
               @ a @ ''ERROR!!'' @ b)
            = (concat (map fst ps) @ a, concat (map snd ps) @ b)"
    using split_pairs_unmatched [of ps a b] by blast
next
  fix ps :: "(string \<times> string) list" and a
  assume "(\<forall>(x, y)\<in>set ps. \<not> sublist ''ERROR!!'' (x @ ''ERROR!'')
                          \<and> \<not> sublist ''!!ERROR'' (y @ ''!!ERRO''))
        \<and> \<not> sublist ''ERROR!!'' a"
  then show "splitUmpleSyncOutput
              (concat (map (\<lambda>(x, y). x @ ''ERROR!!'' @ y @ ''!!ERROR'') ps) @ a)
            = (concat (map fst ps) @ a, concat (map snd ps))"
    using split_pairs_plain [of ps a] by blast
next
  fix raw :: string
  show "\<exists>ps a.
        (\<forall>(x, y)\<in>set ps. \<not> sublist ''ERROR!!'' (x @ ''ERROR!'')
                          \<and> \<not> sublist ''!!ERROR'' (y @ ''!!ERRO''))
        \<and> (raw = concat (map (\<lambda>(x, y). x @ ''ERROR!!'' @ y @ ''!!ERROR'') ps) @ a
             \<and> \<not> sublist ''ERROR!!'' a
           \<or> (\<exists>b. raw = concat (map (\<lambda>(x, y). x @ ''ERROR!!'' @ y @ ''!!ERROR'') ps)
                          @ a @ ''ERROR!!'' @ b
                 \<and> \<not> sublist ''ERROR!!'' (a @ ''ERROR!'') \<and> \<not> sublist ''!!ERROR'' b))"
    by (rule scan_decomposition)
qed

theorem splitUmpleSyncOutput_scan_witness:
  "list_all (\<lambda>(x, y). \<not> sublist ''ERROR!!'' (x @ ''ERROR!'')
                      \<and> \<not> sublist ''!!ERROR'' (y @ ''!!ERRO'')) [(''x '', ''y''), ('' z'', ''w'')]
   \<and> \<not> sublist ''ERROR!!'' (''. '' @ ''ERROR!'') \<and> \<not> sublist ''!!ERROR'' ''tail!!ERRO''
   \<and> splitUmpleSyncOutput ''x ERROR!!y!!ERROR zERROR!!w!!ERROR. ERROR!!tail!!ERRO''
       = (''x  z. '', ''ywtail!!ERRO'')
   \<and> \<not> sublist ''ERROR!!'' ''. ERROR!''
   \<and> splitUmpleSyncOutput ''x ERROR!!y!!ERROR zERROR!!w!!ERROR. ERROR!''
       = (''x  z. ERROR!'', ''yw'')"
proof -
  let ?ps = "[(''x '', ''y''), ('' z'', ''w'')]"
  have h1: "\<forall>(x, y)\<in>set ?ps. \<not> sublist ''ERROR!!'' (x @ ''ERROR!'')
                          \<and> \<not> sublist ''!!ERROR'' (y @ ''!!ERRO'')"
    by (simp add: sublist_code)
  have h2: "\<not> sublist ''ERROR!!'' (''. '' @ ''ERROR!'')" "\<not> sublist ''!!ERROR'' ''tail!!ERRO''"
    "\<not> sublist ''ERROR!!'' ''. ERROR!''"
    by (simp_all add: sublist_code)
  note c = splitUmpleSyncOutput_scan
  from c [THEN conjunct2, THEN conjunct1, THEN spec [of _ ?ps], THEN spec [of _ "''. ''"],
      THEN spec [of _ "''tail!!ERRO''"], THEN mp] h1 h2
  have r1: "splitUmpleSyncOutput ''x ERROR!!y!!ERROR zERROR!!w!!ERROR. ERROR!!tail!!ERRO''
       = (''x  z. '', ''ywtail!!ERRO'')" by simp
  from c [THEN conjunct2, THEN conjunct2, THEN conjunct1, THEN spec [of _ ?ps],
      THEN spec [of _ "''. ERROR!''"],
      THEN mp] h1 h2
  have r2: "splitUmpleSyncOutput ''x ERROR!!y!!ERROR zERROR!!w!!ERROR. ERROR!''
       = (''x  z. ERROR!'', ''yw'')" by simp
  from h1 have h1': "list_all (\<lambda>(x, y). \<not> sublist ''ERROR!!'' (x @ ''ERROR!'')
                      \<and> \<not> sublist ''!!ERROR'' (y @ ''!!ERRO'')) ?ps"
    by (simp add: list_all_iff)
  from h1' h2 r1 r2 show ?thesis by blast
qed

section \<open>Properties of the diagnostics reader\<close>

lemma find_from_char:
  "c \<notin> set xs \<Longrightarrow> find_from [c] (xs @ c # ys) k = Some (k + length xs)"
  by (induction xs arbitrary: k) auto

lemma dropWhile_stop': "\<not> P c \<Longrightarrow> dropWhile P (xs @ c # ys) = dropWhile P xs @ c # ys"
  by (induction xs) auto

lemma trim_around:
  assumes "\<not> isWhiteSpace a" "\<not> isWhiteSpace b"
  shows "trim (pre @ a # mid @ b # post)
    = dropWhile isWhiteSpace pre @ a # mid @ b # rev (dropWhile isWhiteSpace (rev post))"
proof -
  have "dropWhile isWhiteSpace (pre @ a # mid @ b # post)
      = dropWhile isWhiteSpace pre @ a # mid @ b # post"
    using assms(1) by (rule dropWhile_stop')
  moreover have "rev (dropWhile isWhiteSpace pre @ a # mid @ b # post)
      = rev post @ b # (rev mid @ a # rev (dropWhile isWhiteSpace pre))"
    by simp
  moreover have "dropWhile isWhiteSpace (rev post @ b # (rev mid @ a # rev (dropWhile isWhiteSpace pre)))
      = dropWhile isWhiteSpace (rev post) @ b # (rev mid @ a # rev (dropWhile isWhiteSpace pre))"
    using assms(2) by (rule dropWhile_stop')
  ultimately show ?thesis by (simp add: trim_def)
qed

lemma extractJson_braces:
  assumes "CHR ''{'' \<notin> set p" "CHR ''}'' \<notin> set q"
  shows "extractJson (p @ CHR ''{'' # mid @ CHR ''}'' # q) = Some (CHR ''{'' # mid @ [CHR ''}''])"
proof -
  let ?t = "p @ CHR ''{'' # mid @ CHR ''}'' # q"
  have i: "indexOf ?t ''{'' 0 = Some (length p)"
    using find_from_char [OF assms(1), of "mid @ CHR ''}'' # q" 0] by (simp add: indexOf_def)
  have "rev ?t = rev q @ CHR ''}'' # (rev mid @ CHR ''{'' # rev p)" by simp
  moreover have "CHR ''}'' \<notin> set (rev q)" using assms(2) by simp
  ultimately have "find_from ''}'' (rev ?t) 0 = Some (length q)"
    using find_from_char [of "CHR ''}''" "rev q" "rev mid @ CHR ''{'' # rev p" 0] by simp
  then have j: "lastIndexOf ?t ''}'' = Some (length p + length mid + 1)"
    by (simp add: lastIndexOf_def)
  show ?thesis using i j by (simp add: extractJson_def slice_def)
qed

lemma extractJson_trim:
  assumes "CHR ''{'' \<notin> set pre" "CHR ''}'' \<notin> set post"
  shows "extractJson (trim (pre @ CHR ''{'' # mid @ CHR ''}'' # post))
    = Some (CHR ''{'' # mid @ [CHR ''}''])"
proof -
  have ws: "\<not> isWhiteSpace (CHR ''{'')" "\<not> isWhiteSpace (CHR ''}'')"
    by (simp_all add: isWhiteSpace_def charCode_def)
  have p: "CHR ''{'' \<notin> set (dropWhile isWhiteSpace pre)"
    using assms(1) by (auto dest: set_dropWhileD)
  have q: "CHR ''}'' \<notin> set (rev (dropWhile isWhiteSpace (rev post)))"
    using assms(2) by (auto dest: set_dropWhileD)
  show ?thesis
    unfolding trim_around [OF ws] using extractJson_braces [OF p q] by simp
qed

lemma trim_nonempty:
  "trim (pre @ CHR ''{'' # mid @ CHR ''}'' # post) \<noteq> []"
proof -
  have ws: "\<not> isWhiteSpace (CHR ''{'')" "\<not> isWhiteSpace (CHR ''}'')"
    by (simp_all add: isWhiteSpace_def charCode_def)
  show ?thesis unfolding trim_around [OF ws] by simp
qed

lemma sample_parse:
  "JSON_parse ''{\"results\":[{\"line\":\"3\",\"severity\":\"1\",\"errorCode\":\"12\",\"message\":\"bad\"}]}'' = Returns (JObject [(''results'', JArray [JObject [(''line'', JString ''3''),
     (''severity'', JString ''1''), (''errorCode'', JString ''12''), (''message'', JString ''bad'')]])])"
  by code_simp

lemma sample_result:
  "asUmpleJsonResult (JObject [(''line'', JString ''3''),
     (''severity'', JString ''1''), (''errorCode'', JString ''12''), (''message'', JString ''bad'')])
   = Returns \<lparr>errorCode = Some ''12'', severity' = Some ''1'', line' = Some ''3'', message' = Some ''bad''\<rparr>"
  by (simp add: asUmpleJsonResult_def)

lemma Number_default_severity: "Number ''3'' = Some (Num 3)"
  by (simp add: Number_def trim_def isWhiteSpace_def charCode_def isDigit_def digitsValue_def)

lemma Number_default_line: "Number ''1'' = Some (Num 1)"
  by (simp add: Number_def trim_def isWhiteSpace_def charCode_def isDigit_def digitsValue_def)


lemma sample_diag:
  assumes "length ls = 5"
  shows "toDiagnostic ls \<lparr>errorCode = Some ''12'', severity' = Some ''1'', line' = Some ''3'', message' = Some ''bad''\<rparr>
   = Returns \<lparr>severity = Error,
       range = \<lparr>start = \<lparr>line = 2, character = (case search_nonspace (ls ! 2) of None \<Rightarrow> 0 | Some k \<Rightarrow> k)\<rparr>,
                end' = \<lparr>line = 2, character = length (ls ! 2)\<rparr>\<rparr>,
       message = ''E12: bad'', source = ''umple''\<rparr>"
  using assms by (simp add: toDiagnostic_def Number_default_line Number_default_severity Let_def)

lemma sample_run:
  assumes "CHR ''{'' \<notin> set pre" "CHR ''}'' \<notin> set post" "length (splitLines (content document)) = 5"
  shows "parseUmpleJsonDiagnostics (pre @ ''{\"results\":[{\"line\":\"3\",\"severity\":\"1\",\"errorCode\":\"12\",\"message\":\"bad\"}]}'' @ post) document
    = Some [\<lparr>severity = Error,
       range = \<lparr>start = \<lparr>line = 2, character = (case search_nonspace (splitLines (content document) ! 2) of None \<Rightarrow> 0 | Some k \<Rightarrow> k)\<rparr>,
                end' = \<lparr>line = 2, character = length (splitLines (content document) ! 2)\<rparr>\<rparr>,
       message = ''E12: bad'', source = ''umple''\<rparr>]"
proof -
  obtain mid where m: "''{\"results\":[{\"line\":\"3\",\"severity\":\"1\",\"errorCode\":\"12\",\"message\":\"bad\"}]}'' = CHR ''{'' # mid @ [CHR ''}'']"
    by simp
  have t: "trim (pre @ ''{\"results\":[{\"line\":\"3\",\"severity\":\"1\",\"errorCode\":\"12\",\"message\":\"bad\"}]}'' @ post) \<noteq> []"
    using trim_nonempty [of pre mid post] by (simp add: m)
  have e: "extractJson (trim (pre @ ''{\"results\":[{\"line\":\"3\",\"severity\":\"1\",\"errorCode\":\"12\",\"message\":\"bad\"}]}'' @ post)) = Some ''{\"results\":[{\"line\":\"3\",\"severity\":\"1\",\"errorCode\":\"12\",\"message\":\"bad\"}]}''"
    using extractJson_trim [OF assms(1,2), of mid] by (simp add: m)
  have n: "''{\"results\":[{\"line\":\"3\",\"severity\":\"1\",\"errorCode\":\"12\",\"message\":\"bad\"}]}'' \<noteq> []" by (simp add: m)
  show ?thesis
    unfolding parseUmpleJsonDiagnostics_def
    using t e n by (simp add: sample_parse sample_result sample_diag [OF assms(3)] Let_def)
qed


lemma toDiagnostic_severity:
  assumes "toDiagnostic ls r = Returns d"
  shows "\<exists>v. Number (case severity' r of None \<Rightarrow> ''3'' | Some s \<Rightarrow> s) = Some v
           \<and> severity d = (if exceeds v 2 then Warning else Error)"
  using assms by (auto simp: toDiagnostic_def Let_def split: option.splits)

lemma digit_not_space: "isDigit c \<Longrightarrow> \<not> isWhiteSpace c"
  by (auto simp: isDigit_def isWhiteSpace_def)

lemma digit_not_sign: "isDigit c \<Longrightarrow> c \<noteq> CHR ''-'' \<and> c \<noteq> CHR ''+''"
  by (auto simp: isDigit_def charCode_def)

lemma trim_digits:
  assumes "ds \<noteq> []" "list_all isDigit ds"
  shows "trim ds = ds"
proof -
  from assms have "isDigit (hd ds)" "isDigit (last ds)"
    by (auto simp: list_all_iff)
  then have h: "\<not> isWhiteSpace (hd ds)" "\<not> isWhiteSpace (hd (rev ds))"
    using assms(1) by (auto simp: hd_rev dest: digit_not_space)
  from h(1) have "dropWhile isWhiteSpace ds = ds"
    by (simp add: dropWhile_eq_self_iff)
  moreover from h(2) have "dropWhile isWhiteSpace (rev ds) = rev ds"
    by (simp add: dropWhile_eq_self_iff)
  ultimately show ?thesis by (simp add: trim_def)
qed

lemma foldl_digits_nonneg:
  "0 \<le> a \<Longrightarrow> list_all isDigit ds \<Longrightarrow>
   0 \<le> foldl (\<lambda>a d. 10 * a + (int (charCode d) - 48)) a ds"
  by (induction ds arbitrary: a) (auto simp: isDigit_def)

lemma digitsValue_nonneg: "list_all isDigit ds \<Longrightarrow> 0 \<le> digitsValue ds"
  unfolding digitsValue_def by (rule foldl_digits_nonneg) simp_all

lemma Number_digits:
  assumes "ds \<noteq> []" "list_all isDigit ds" "digitsValue ds \<le> 9007199254740992"
  shows "Number ds = Some (Num (digitsValue ds))"
proof -
  obtain c r where cr: "ds = c # r" using assms(1) by (cases ds) auto
  with assms(2) have "isDigit c" by simp
  then have sg: "c \<noteq> CHR ''-''" "c \<noteq> CHR ''+''" using digit_not_sign by auto
  have "\<bar>digitsValue ds\<bar> \<le> 9007199254740992"
    using digitsValue_nonneg [OF assms(2)] assms(3) by simp
  then show ?thesis
    using assms(1,2) sg
    by (simp add: Number_def trim_digits [OF assms(1,2)] Let_def cr [symmetric])
       (simp add: cr)
qed

lemma toDiagnostic_shape:
  assumes "Number (case line' r of None \<Rightarrow> ''1'' | Some l \<Rightarrow> l) = Some n"
    and "Number (case severity' r of None \<Rightarrow> ''3'' | Some s \<Rightarrow> s) = Some v"
    and "uinteger (lineIndex n) = Some ln"
  shows "\<exists>msg. toDiagnostic ls r = Returns \<lparr>severity = (if exceeds v 2 then Warning else Error),
          range = \<lparr>start = \<lparr>line = ln, character =
                 (case search_nonspace (case element ls (lineIndex n) of None \<Rightarrow> [] | Some t \<Rightarrow> t)
                  of None \<Rightarrow> 0 | Some k \<Rightarrow> k)\<rparr>,
               end' = \<lparr>line = ln, character =
                 length (case element ls (lineIndex n) of None \<Rightarrow> [] | Some t \<Rightarrow> t)\<rparr>\<rparr>,
          message = msg, source = ''umple''\<rparr>"
  using assms by (simp add: toDiagnostic_def Let_def)


lemma toDiagnostic_inv:
  assumes "toDiagnostic ls r = Returns d"
  obtains n v ln where
    "Number (case line' r of None \<Rightarrow> ''1'' | Some l \<Rightarrow> l) = Some n"
    "Number (case severity' r of None \<Rightarrow> ''3'' | Some s \<Rightarrow> s) = Some v"
    "uinteger (lineIndex n) = Some ln"
    "range d = \<lparr>start = \<lparr>line = ln, character =
                 (case search_nonspace (case element ls (lineIndex n) of None \<Rightarrow> [] | Some t \<Rightarrow> t)
                  of None \<Rightarrow> 0 | Some k \<Rightarrow> k)\<rparr>,
               end' = \<lparr>line = ln, character =
                 length (case element ls (lineIndex n) of None \<Rightarrow> [] | Some t \<Rightarrow> t)\<rparr>\<rparr>"
    "severity d = (if exceeds v 2 then Warning else Error)"
proof (cases "Number (case line' r of None \<Rightarrow> ''1'' | Some l \<Rightarrow> l)")
  case None
  then have "toDiagnostic ls r = Unmodelled" by (simp add: toDiagnostic_def)
  with assms show ?thesis by simp
next
  case n: (Some n)
  show ?thesis
  proof (cases "Number (case severity' r of None \<Rightarrow> ''3'' | Some s \<Rightarrow> s)")
    case None
    with n have "toDiagnostic ls r = Unmodelled" by (simp add: toDiagnostic_def)
    with assms show ?thesis by simp
  next
    case v: (Some v)
    show ?thesis
    proof (cases "uinteger (lineIndex n)")
      case None
      with n v have "toDiagnostic ls r = Unmodelled" by (simp add: toDiagnostic_def Let_def)
      with assms show ?thesis by simp
    next
      case (Some ln)
      from toDiagnostic_shape [OF n v Some, of ls] obtain msg where
        "toDiagnostic ls r = Returns \<lparr>severity = (if exceeds v 2 then Warning else Error),
          range = \<lparr>start = \<lparr>line = ln, character =
                 (case search_nonspace (case element ls (lineIndex n) of None \<Rightarrow> [] | Some t \<Rightarrow> t)
                  of None \<Rightarrow> 0 | Some k \<Rightarrow> k)\<rparr>,
               end' = \<lparr>line = ln, character =
                 length (case element ls (lineIndex n) of None \<Rightarrow> [] | Some t \<Rightarrow> t)\<rparr>\<rparr>,
          message = msg, source = ''umple''\<rparr>"
        by blast
      with assms have "d = \<lparr>severity = (if exceeds v 2 then Warning else Error),
          range = \<lparr>start = \<lparr>line = ln, character =
                 (case search_nonspace (case element ls (lineIndex n) of None \<Rightarrow> [] | Some t \<Rightarrow> t)
                  of None \<Rightarrow> 0 | Some k \<Rightarrow> k)\<rparr>,
               end' = \<lparr>line = ln, character =
                 length (case element ls (lineIndex n) of None \<Rightarrow> [] | Some t \<Rightarrow> t)\<rparr>\<rparr>,
          message = msg, source = ''umple''\<rparr>"
        by simp
      then have "range d = \<lparr>start = \<lparr>line = ln, character =
                 (case search_nonspace (case element ls (lineIndex n) of None \<Rightarrow> [] | Some t \<Rightarrow> t)
                  of None \<Rightarrow> 0 | Some k \<Rightarrow> k)\<rparr>,
               end' = \<lparr>line = ln, character =
                 length (case element ls (lineIndex n) of None \<Rightarrow> [] | Some t \<Rightarrow> t)\<rparr>\<rparr>"
        and "severity d = (if exceeds v 2 then Warning else Error)"
        by simp_all
      with n v Some that show ?thesis by blast
    qed
  qed
qed

lemma toDiagnostic_returns:
  assumes "Number (case line' r of None \<Rightarrow> ''1'' | Some l \<Rightarrow> l) = Some (Num n)" "n \<le> 2147483648"
    and "Number (case severity' r of None \<Rightarrow> ''3'' | Some s \<Rightarrow> s) = Some v"
  shows "\<exists>d. toDiagnostic ls r = Returns d"
  using assms by (simp add: toDiagnostic_def Let_def)

lemma toDiagnostic_no_severity:
  assumes "severity' r = None" "toDiagnostic ls r = Returns d"
  shows "severity d = Warning"
  using toDiagnostic_severity [OF assms(2)] assms(1) by (simp add: Number_default_severity)

lemma toDiagnostic_no_line:
  assumes "line' r = None" "toDiagnostic ls r = Returns d"
  shows "range d = \<lparr>start = \<lparr>line = 0, character =
              (case search_nonspace (case ls of [] \<Rightarrow> [] | l # _ \<Rightarrow> l) of None \<Rightarrow> 0 | Some k \<Rightarrow> k)\<rparr>,
            end' = \<lparr>line = 0, character = length (case ls of [] \<Rightarrow> [] | l # _ \<Rightarrow> l)\<rparr>\<rparr>"
proof -
  from assms(2) obtain n v ln where
    n: "Number (case line' r of None \<Rightarrow> ''1'' | Some l \<Rightarrow> l) = Some n"
    and u: "uinteger (lineIndex n) = Some ln"
    and r: "range d = \<lparr>start = \<lparr>line = ln, character =
                 (case search_nonspace (case element ls (lineIndex n) of None \<Rightarrow> [] | Some t \<Rightarrow> t)
                  of None \<Rightarrow> 0 | Some k \<Rightarrow> k)\<rparr>,
               end' = \<lparr>line = ln, character =
                 length (case element ls (lineIndex n) of None \<Rightarrow> [] | Some t \<Rightarrow> t)\<rparr>\<rparr>"
    by (rule toDiagnostic_inv)
  from n assms(1) have n1: "n = Num 1" by (simp add: Number_default_line)
  with u have ln: "ln = 0" by simp
  have "(case element ls (lineIndex n) of None \<Rightarrow> [] | Some t \<Rightarrow> t)
      = (case ls of [] \<Rightarrow> [] | l # _ \<Rightarrow> l)"
    unfolding n1 by (cases ls) simp_all
  with r ln show ?thesis by simp
qed

lemma toDiagnostic_no_fields:
  "\<exists>d. toDiagnostic ls \<lparr>errorCode = e, severity' = None, line' = None, message' = m\<rparr> = Returns d"
  by (rule toDiagnostic_returns [where n = 1 and v = "Num 3"])
     (simp_all add: Number_default_line Number_default_severity)

lemma toDiagnostic_past_end:
  assumes "line' r = Some ds" "ds \<noteq> []" "list_all isDigit ds"
    and "int (length ls) < digitsValue ds" "digitsValue ds \<le> 2147483648"
    and "toDiagnostic ls r = Returns d"
  shows "range d = \<lparr>start = \<lparr>line = nat (digitsValue ds) - 1, character = 0\<rparr>,
                    end' = \<lparr>line = nat (digitsValue ds) - 1, character = 0\<rparr>\<rparr>"
proof -
  have nd: "Number ds = Some (Num (digitsValue ds))"
    using assms(2,3,5) by (intro Number_digits) auto
  from assms(6) obtain n v ln where
    n: "Number (case line' r of None \<Rightarrow> ''1'' | Some l \<Rightarrow> l) = Some n"
    and u: "uinteger (lineIndex n) = Some ln"
    and r: "range d = \<lparr>start = \<lparr>line = ln, character =
                 (case search_nonspace (case element ls (lineIndex n) of None \<Rightarrow> [] | Some t \<Rightarrow> t)
                  of None \<Rightarrow> 0 | Some k \<Rightarrow> k)\<rparr>,
               end' = \<lparr>line = ln, character =
                 length (case element ls (lineIndex n) of None \<Rightarrow> [] | Some t \<Rightarrow> t)\<rparr>\<rparr>"
    by (rule toDiagnostic_inv)
  from n nd assms(1) have n1: "n = Num (digitsValue ds)" by simp
  have li: "lineIndex n = Num (digitsValue ds - 1)"
    unfolding n1 using assms(4) by simp
  have el: "element ls (lineIndex n) = None"
    unfolding li using assms(4) by simp
  from u li assms(4,5) have ln: "ln = nat (digitsValue ds) - 1"
    by (simp split: if_splits)
  show ?thesis unfolding r el ln by (simp add: search_nonspace_def)
qed

lemma toDiagnostic_digits_returns:
  assumes "line' r = Some ds" "ds \<noteq> []" "list_all isDigit ds" "digitsValue ds \<le> 2147483648"
    and "severity' r = None"
  shows "\<exists>d. toDiagnostic ls r = Returns d"
proof -
  have "Number ds = Some (Num (digitsValue ds))"
    using assms(2,3,4) by (intro Number_digits) auto
  then show ?thesis
    using assms(1,4,5)
    by (intro toDiagnostic_returns [where n = "digitsValue ds" and v = "Num 3"])
       (simp_all add: Number_default_severity)
qed

text \<open>
  Claim C1. When the error stream holds the JSON text
  \<^verbatim>\<open>{"results":[{"line":"3","severity":"1","errorCode":"12","message":"bad"}]}\<close>, with
  any text free of braces around it, and the document has 5 lines,
  \<^verbatim>\<open>parseUmpleJsonDiagnostics\<close> returns exactly one diagnostic: of severity Error, on
  line index 2, from the first character of that line that is not white space (character
  0 when the line has none) to the length of the line, with the message \<^verbatim>\<open>E12: bad\<close>.
  For every record that yields a diagnostic, the severity is Warning when the number its
  severity converts to is above 2, and Error for every other value, \<^verbatim>\<open>NaN\<close> included.
\<close>

theorem parseUmpleJsonDiagnostics_sample:
  "(\<forall>pre post document.
      CHR ''{'' \<notin> set pre \<and> CHR ''}'' \<notin> set post
        \<and> length (splitLines (content document)) = 5
      \<longrightarrow> parseUmpleJsonDiagnostics
            (pre @ ''{\"results\":[{\"line\":\"3\",\"severity\":\"1\",\"errorCode\":\"12\",\"message\":\"bad\"}]}''
               @ post) document
          = Some [\<lparr>severity = Error,
              range = \<lparr>start = \<lparr>line = 2, character =
                          (case search_nonspace (splitLines (content document) ! 2) of
                             None \<Rightarrow> 0 | Some k \<Rightarrow> k)\<rparr>,
                       end' = \<lparr>line = 2, character =
                          length (splitLines (content document) ! 2)\<rparr>\<rparr>,
              message = ''E12: bad'', source = ''umple''\<rparr>])
   \<and> (\<forall>ls r d. toDiagnostic ls r = Returns d
        \<longrightarrow> (\<exists>v. Number (case severity' r of None \<Rightarrow> ''3'' | Some s \<Rightarrow> s) = Some v
                 \<and> severity d = (if exceeds v 2 then Warning else Error)))
   \<and> (\<forall>k. exceeds (Num k) 2 = (2 < k))
   \<and> \<not> exceeds NaN 2"
proof (intro conjI allI impI)
  fix pre post :: string and document :: TextDocument
  assume "CHR ''{'' \<notin> set pre \<and> CHR ''}'' \<notin> set post
        \<and> length (splitLines (content document)) = 5"
  then show "parseUmpleJsonDiagnostics
            (pre @ ''{\"results\":[{\"line\":\"3\",\"severity\":\"1\",\"errorCode\":\"12\",\"message\":\"bad\"}]}''
               @ post) document
          = Some [\<lparr>severity = Error,
              range = \<lparr>start = \<lparr>line = 2, character =
                          (case search_nonspace (splitLines (content document) ! 2) of
                             None \<Rightarrow> 0 | Some k \<Rightarrow> k)\<rparr>,
                       end' = \<lparr>line = 2, character =
                          length (splitLines (content document) ! 2)\<rparr>\<rparr>,
              message = ''E12: bad'', source = ''umple''\<rparr>]"
    using sample_run [of pre post document] by blast
next
  fix ls :: "string list" and r :: UmpleJsonResult and d :: Diagnostic
  assume "toDiagnostic ls r = Returns d"
  then show "\<exists>v. Number (case severity' r of None \<Rightarrow> ''3'' | Some s \<Rightarrow> s) = Some v
                 \<and> severity d = (if exceeds v 2 then Warning else Error)"
    by (rule toDiagnostic_severity)
next
  fix k
  show "exceeds (Num k) 2 = (2 < k)" by simp
next
  show "\<not> exceeds NaN 2" by simp
qed

theorem parseUmpleJsonDiagnostics_sample_witness:
  "CHR ''{'' \<notin> set ''umplesync: '' \<and> CHR ''}'' \<notin> set '' \<newline>''
   \<and> length (splitLines ''class A {\<newline>  x;\<newline>    bad here\<newline>}\<newline>'') = 5
   \<and> parseUmpleJsonDiagnostics
        (''umplesync: ''
           @ ''{\"results\":[{\"line\":\"3\",\"severity\":\"1\",\"errorCode\":\"12\",\"message\":\"bad\"}]}''
           @ '' \<newline>'')
        \<lparr>uri = ''file:///p/a.ump'', languageId = ''umple'', version = 1,
           content = ''class A {\<newline>  x;\<newline>    bad here\<newline>}\<newline>''\<rparr>
      = Some [\<lparr>severity = Error,
          range = \<lparr>start = \<lparr>line = 2, character = 4\<rparr>, end' = \<lparr>line = 2, character = 12\<rparr>\<rparr>,
          message = ''E12: bad'', source = ''umple''\<rparr>]
   \<and> toDiagnostic [''a'']
        \<lparr>errorCode = None, severity' = Some ''5'', line' = None, message' = Some ''m''\<rparr>
      = Returns \<lparr>severity = Warning,
          range = \<lparr>start = \<lparr>line = 0, character = 0\<rparr>, end' = \<lparr>line = 0, character = 1\<rparr>\<rparr>,
          message = ''m'', source = ''umple''\<rparr>
   \<and> Number ''5'' = Some (Num 5) \<and> exceeds (Num 5) 2"
proof -
  let ?doc = "\<lparr>uri = ''file:///p/a.ump'', languageId = ''umple'', version = 1,
           content = ''class A {\<newline>  x;\<newline>    bad here\<newline>}\<newline>''\<rparr>"
  have ls: "splitLines ''class A {\<newline>  x;\<newline>    bad here\<newline>}\<newline>''
      = [''class A {'', ''  x;'', ''    bad here'', ''}'', []]"
    by (simp add: splitLines_def)
  have h: "CHR ''{'' \<notin> set ''umplesync: '' \<and> CHR ''}'' \<notin> set '' \<newline>''
      \<and> length (splitLines (content ?doc)) = 5"
    by (simp add: ls)
  have sn: "search_nonspace ''    bad here'' = Some 4"
    by (simp add: search_nonspace_def isWhiteSpace_def charCode_def)
  note c = parseUmpleJsonDiagnostics_sample
  from c h have r1: "parseUmpleJsonDiagnostics
        (''umplesync: ''
           @ ''{\"results\":[{\"line\":\"3\",\"severity\":\"1\",\"errorCode\":\"12\",\"message\":\"bad\"}]}''
           @ '' \<newline>'') ?doc
      = Some [\<lparr>severity = Error,
              range = \<lparr>start = \<lparr>line = 2, character =
                          (case search_nonspace (splitLines (content ?doc) ! 2) of
                             None \<Rightarrow> 0 | Some k \<Rightarrow> k)\<rparr>,
                       end' = \<lparr>line = 2, character =
                          length (splitLines (content ?doc) ! 2)\<rparr>\<rparr>,
              message = ''E12: bad'', source = ''umple''\<rparr>]"
    by blast
  have n5: "Number ''5'' = Some (Num 5)"
    by (simp add: Number_def trim_def isWhiteSpace_def charCode_def isDigit_def digitsValue_def)
  have r2: "toDiagnostic [''a'']
        \<lparr>errorCode = None, severity' = Some ''5'', line' = None, message' = Some ''m''\<rparr>
      = Returns \<lparr>severity = Warning,
          range = \<lparr>start = \<lparr>line = 0, character = 0\<rparr>, end' = \<lparr>line = 0, character = 1\<rparr>\<rparr>,
          message = ''m'', source = ''umple''\<rparr>"
    by (simp add: toDiagnostic_def n5 Number_default_line Let_def search_nonspace_def
        isWhiteSpace_def charCode_def)
  from r1 have r1': "parseUmpleJsonDiagnostics
        (''umplesync: ''
           @ ''{\"results\":[{\"line\":\"3\",\"severity\":\"1\",\"errorCode\":\"12\",\"message\":\"bad\"}]}''
           @ '' \<newline>'') ?doc
      = Some [\<lparr>severity = Error,
          range = \<lparr>start = \<lparr>line = 2, character = 4\<rparr>, end' = \<lparr>line = 2, character = 12\<rparr>\<rparr>,
          message = ''E12: bad'', source = ''umple''\<rparr>]"
    by (simp add: ls sn)
  from h ls have h': "CHR ''{'' \<notin> set ''umplesync: '' \<and> CHR ''}'' \<notin> set '' \<newline>''
      \<and> length (splitLines ''class A {\<newline>  x;\<newline>    bad here\<newline>}\<newline>'') = 5"
    by simp
  from c have "exceeds (Num 5) 2 = (2 < (5::int))" by blast
  then have e5: "exceeds (Num 5) 2" by simp
  show ?thesis using h' r1' r2 n5 e5 by blast
qed

text \<open>
  Claim C10. A record without a severity field converts the default \<^verbatim>\<open>"3"\<close> and is given
  the severity Warning. A record without a line field converts the default \<^verbatim>\<open>"1"\<close> and
  is placed on line index 0, from the first character of that line that is not white
  space to the length of the line. A record whose line number is greater than the number of
  lines of the document (and at most \<open>2\<^sup>3\<^sup>1\<close>) is given the empty line text: its range
  is of width zero, at character 0 of the line index, the line number less one. In each
  case a diagnostic is returned.
\<close>

theorem parseUmpleJsonDiagnostics_defaults:
  "(\<forall>ls r d. severity' r = None \<and> toDiagnostic ls r = Returns d \<longrightarrow> severity d = Warning)
   \<and> Number ''3'' = Some (Num 3)
   \<and> (\<forall>ls r d. line' r = None \<and> toDiagnostic ls r = Returns d
        \<longrightarrow> range d =
            \<lparr>start = \<lparr>line = 0, character =
                 (case search_nonspace (case ls of [] \<Rightarrow> [] | l # _ \<Rightarrow> l) of
                    None \<Rightarrow> 0 | Some k \<Rightarrow> k)\<rparr>,
             end' = \<lparr>line = 0, character = length (case ls of [] \<Rightarrow> [] | l # _ \<Rightarrow> l)\<rparr>\<rparr>)
   \<and> Number ''1'' = Some (Num 1) \<and> lineIndex (Num 1) = Num 0
   \<and> (\<forall>ls e m. \<exists>d. toDiagnostic ls
          \<lparr>errorCode = e, severity' = None, line' = None, message' = m\<rparr> = Returns d)
   \<and> (\<forall>ls r ds d. line' r = Some ds \<and> ds \<noteq> [] \<and> list_all isDigit ds
          \<and> int (length ls) < digitsValue ds \<and> digitsValue ds \<le> 2147483648
          \<and> toDiagnostic ls r = Returns d
        \<longrightarrow> range d =
            \<lparr>start = \<lparr>line = nat (digitsValue ds) - 1, character = 0\<rparr>,
             end' = \<lparr>line = nat (digitsValue ds) - 1, character = 0\<rparr>\<rparr>)
   \<and> (\<forall>ls r ds. line' r = Some ds \<and> ds \<noteq> [] \<and> list_all isDigit ds
          \<and> digitsValue ds \<le> 2147483648 \<and> severity' r = None
        \<longrightarrow> (\<exists>d. toDiagnostic ls r = Returns d))
   \<and> (\<forall>document. content document = ''class A {}''
        \<longrightarrow> parseUmpleJsonDiagnostics
              ''{\"results\":[{\"message\":\"m\"},{\"line\":\"9\",\"severity\":\"2\"}]}'' document
            = Some [\<lparr>severity = Warning,
                     range = \<lparr>start = \<lparr>line = 0, character = 0\<rparr>,
                              end' = \<lparr>line = 0, character = 10\<rparr>\<rparr>,
                     message = ''m'', source = ''umple''\<rparr>,
                    \<lparr>severity = Error,
                     range = \<lparr>start = \<lparr>line = 8, character = 0\<rparr>,
                              end' = \<lparr>line = 8, character = 0\<rparr>\<rparr>,
                     message = [], source = ''umple''\<rparr>])"
proof (intro conjI allI impI)
  fix ls :: "string list" and r :: UmpleJsonResult and d :: Diagnostic
  assume "severity' r = None \<and> toDiagnostic ls r = Returns d"
  then show "severity d = Warning"
    using toDiagnostic_no_severity [of r ls d] by blast
next
  show "Number ''3'' = Some (Num 3)" by (rule Number_default_severity)
next
  fix ls :: "string list" and r :: UmpleJsonResult and d :: Diagnostic
  assume "line' r = None \<and> toDiagnostic ls r = Returns d"
  then show "range d =
            \<lparr>start = \<lparr>line = 0, character =
                 (case search_nonspace (case ls of [] \<Rightarrow> [] | l # _ \<Rightarrow> l) of
                    None \<Rightarrow> 0 | Some k \<Rightarrow> k)\<rparr>,
             end' = \<lparr>line = 0, character = length (case ls of [] \<Rightarrow> [] | l # _ \<Rightarrow> l)\<rparr>\<rparr>"
    using toDiagnostic_no_line [of r ls d] by blast
next
  show "Number ''1'' = Some (Num 1)" by (rule Number_default_line)
next
  show "lineIndex (Num 1) = Num 0" by simp
next
  fix ls e m
  show "\<exists>d. toDiagnostic ls
          \<lparr>errorCode = e, severity' = None, line' = None, message' = m\<rparr> = Returns d"
    by (rule toDiagnostic_no_fields)
next
  fix ls :: "string list" and r :: UmpleJsonResult and ds :: string and d :: Diagnostic
  assume "line' r = Some ds \<and> ds \<noteq> [] \<and> list_all isDigit ds
          \<and> int (length ls) < digitsValue ds \<and> digitsValue ds \<le> 2147483648
          \<and> toDiagnostic ls r = Returns d"
  then show "range d =
            \<lparr>start = \<lparr>line = nat (digitsValue ds) - 1, character = 0\<rparr>,
             end' = \<lparr>line = nat (digitsValue ds) - 1, character = 0\<rparr>\<rparr>"
    using toDiagnostic_past_end [of r ds ls d] by blast
next
  fix ls :: "string list" and r :: UmpleJsonResult and ds :: string
  assume "line' r = Some ds \<and> ds \<noteq> [] \<and> list_all isDigit ds
          \<and> digitsValue ds \<le> 2147483648 \<and> severity' r = None"
  then show "\<exists>d. toDiagnostic ls r = Returns d"
    using toDiagnostic_digits_returns [of r ds ls] by blast
next
  fix document :: TextDocument
  assume c: "content document = ''class A {}''"
  have p: "JSON_parse ''{\"results\":[{\"message\":\"m\"},{\"line\":\"9\",\"severity\":\"2\"}]}''
      = Returns (JObject [(''results'', JArray [JObject [(''message'', JString ''m'')],
          JObject [(''line'', JString ''9''), (''severity'', JString ''2'')]])])"
    by code_simp
  have e: "extractJson (trim ''{\"results\":[{\"message\":\"m\"},{\"line\":\"9\",\"severity\":\"2\"}]}'')
      = Some ''{\"results\":[{\"message\":\"m\"},{\"line\":\"9\",\"severity\":\"2\"}]}''"
    by code_simp
  have t: "trim ''{\"results\":[{\"message\":\"m\"},{\"line\":\"9\",\"severity\":\"2\"}]}'' \<noteq> []"
    by code_simp
  have n: "Number ''9'' = Some (Num 9)" "Number ''2'' = Some (Num 2)"
    by (simp_all add: Number_def trim_def isWhiteSpace_def charCode_def isDigit_def
        digitsValue_def)
  show "parseUmpleJsonDiagnostics
              ''{\"results\":[{\"message\":\"m\"},{\"line\":\"9\",\"severity\":\"2\"}]}'' document
            = Some [\<lparr>severity = Warning,
                     range = \<lparr>start = \<lparr>line = 0, character = 0\<rparr>,
                              end' = \<lparr>line = 0, character = 10\<rparr>\<rparr>,
                     message = ''m'', source = ''umple''\<rparr>,
                    \<lparr>severity = Error,
                     range = \<lparr>start = \<lparr>line = 8, character = 0\<rparr>,
                              end' = \<lparr>line = 8, character = 0\<rparr>\<rparr>,
                     message = [], source = ''umple''\<rparr>]"
    unfolding parseUmpleJsonDiagnostics_def
    using t e
    by (simp add: p c asUmpleJsonResult_def toDiagnostic_def n Number_default_line
        Number_default_severity Let_def splitLines_def search_nonspace_def
        isWhiteSpace_def charCode_def)
qed

theorem parseUmpleJsonDiagnostics_defaults_witness:
  "toDiagnostic [''  x'', ''y'']
       \<lparr>errorCode = Some ''7'', severity' = None, line' = None, message' = Some ''m''\<rparr>
     = Returns \<lparr>severity = Warning,
         range = \<lparr>start = \<lparr>line = 0, character = 2\<rparr>, end' = \<lparr>line = 0, character = 3\<rparr>\<rparr>,
         message = ''W7: m'', source = ''umple''\<rparr>
   \<and> list_all isDigit ''40'' \<and> int (length [''  x'', ''y'']) < digitsValue ''40''
   \<and> digitsValue ''40'' \<le> 2147483648
   \<and> toDiagnostic [''  x'', ''y'']
       \<lparr>errorCode = None, severity' = None, line' = Some ''40'', message' = None\<rparr>
     = Returns \<lparr>severity = Warning,
         range = \<lparr>start = \<lparr>line = 39, character = 0\<rparr>, end' = \<lparr>line = 39, character = 0\<rparr>\<rparr>,
         message = [], source = ''umple''\<rparr>
   \<and> parseUmpleJsonDiagnostics
        ''{\"results\":[{\"message\":\"m\"},{\"line\":\"9\",\"severity\":\"2\"}]}''
        \<lparr>uri = ''file:///p/a.ump'', languageId = ''umple'', version = 1,
           content = ''class A {}''\<rparr>
      = Some [\<lparr>severity = Warning,
                     range = \<lparr>start = \<lparr>line = 0, character = 0\<rparr>,
                              end' = \<lparr>line = 0, character = 10\<rparr>\<rparr>,
                     message = ''m'', source = ''umple''\<rparr>,
                    \<lparr>severity = Error,
                     range = \<lparr>start = \<lparr>line = 8, character = 0\<rparr>,
                              end' = \<lparr>line = 8, character = 0\<rparr>\<rparr>,
                     message = [], source = ''umple''\<rparr>]"
proof -
  note c = parseUmpleJsonDiagnostics_defaults
  let ?ls = "[''  x'', ''y'']"
  let ?r1 = "\<lparr>errorCode = Some ''7'', severity' = None, line' = None, message' = Some ''m''\<rparr>"
  let ?r2 = "\<lparr>errorCode = None, severity' = None, line' = Some ''40'', message' = None\<rparr>"
  let ?doc = "\<lparr>uri = ''file:///p/a.ump'', languageId = ''umple'', version = 1,
           content = ''class A {}''\<rparr>"
  have n40: "Number ''40'' = Some (Num 40)"
    by (simp add: Number_def trim_def isWhiteSpace_def charCode_def isDigit_def digitsValue_def)
  have d1: "toDiagnostic ?ls ?r1
     = Returns \<lparr>severity = Warning,
         range = \<lparr>start = \<lparr>line = 0, character = 2\<rparr>, end' = \<lparr>line = 0, character = 3\<rparr>\<rparr>,
         message = ''W7: m'', source = ''umple''\<rparr>"
    by (simp add: toDiagnostic_def Number_default_line Number_default_severity Let_def
        search_nonspace_def isWhiteSpace_def charCode_def)
  have d2: "toDiagnostic ?ls ?r2
     = Returns \<lparr>severity = Warning,
         range = \<lparr>start = \<lparr>line = 39, character = 0\<rparr>, end' = \<lparr>line = 39, character = 0\<rparr>\<rparr>,
         message = [], source = ''umple''\<rparr>"
    by (simp add: toDiagnostic_def n40 Number_default_severity Let_def search_nonspace_def)
  have h: "list_all isDigit ''40'' \<and> int (length ?ls) < digitsValue ''40''
      \<and> digitsValue ''40'' \<le> 2147483648"
    by (simp add: isDigit_def charCode_def digitsValue_def)
  from c d1 have "severity' ?r1 = None \<and> toDiagnostic ?ls ?r1 = Returns \<lparr>severity = Warning,
         range = \<lparr>start = \<lparr>line = 0, character = 2\<rparr>, end' = \<lparr>line = 0, character = 3\<rparr>\<rparr>,
         message = ''W7: m'', source = ''umple''\<rparr>
      \<longrightarrow> severity \<lparr>severity = Warning,
         range = \<lparr>start = \<lparr>line = 0, character = 2\<rparr>, end' = \<lparr>line = 0, character = 3\<rparr>\<rparr>,
         message = ''W7: m'', source = ''umple''\<rparr> = Warning"
    by blast
  from c have "content ?doc = ''class A {}''
     \<longrightarrow> parseUmpleJsonDiagnostics
        ''{\"results\":[{\"message\":\"m\"},{\"line\":\"9\",\"severity\":\"2\"}]}'' ?doc
      = Some [\<lparr>severity = Warning,
                     range = \<lparr>start = \<lparr>line = 0, character = 0\<rparr>,
                              end' = \<lparr>line = 0, character = 10\<rparr>\<rparr>,
                     message = ''m'', source = ''umple''\<rparr>,
                    \<lparr>severity = Error,
                     range = \<lparr>start = \<lparr>line = 8, character = 0\<rparr>,
                              end' = \<lparr>line = 8, character = 0\<rparr>\<rparr>,
                     message = [], source = ''umple''\<rparr>]"
    by blast
  then have p: "parseUmpleJsonDiagnostics
        ''{\"results\":[{\"message\":\"m\"},{\"line\":\"9\",\"severity\":\"2\"}]}'' ?doc
      = Some [\<lparr>severity = Warning,
                     range = \<lparr>start = \<lparr>line = 0, character = 0\<rparr>,
                              end' = \<lparr>line = 0, character = 10\<rparr>\<rparr>,
                     message = ''m'', source = ''umple''\<rparr>,
                    \<lparr>severity = Error,
                     range = \<lparr>start = \<lparr>line = 8, character = 0\<rparr>,
                              end' = \<lparr>line = 8, character = 0\<rparr>\<rparr>,
                     message = [], source = ''umple''\<rparr>]"
    by simp
  show ?thesis using d1 d2 h p by blast
qed

section \<open>Properties of the dispatch\<close>

lemma connectAndSend_frame:
  "connectAndSend h c s = (r, s1) \<Longrightarrow>
   s1 = s\<lparr>attempts := attempts s + 1\<rparr>"
  by (auto simp: connectAndSend_def split: sum.splits)

lemma connectAndSend_error:
  "socket h (attempts s) c = Inl e \<Longrightarrow>
   connectAndSend h c s = (Inl e, s\<lparr>attempts := attempts s + 1\<rparr>)"
  by (simp add: connectAndSend_def)

lemma retryLoop_frame:
  "retryLoop h c err a s = (r, s') \<Longrightarrow>
   serverProcess s' = serverProcess s \<and> children s' = children s
   \<and> attempts s \<le> attempts s' \<and> attempts s' \<le> attempts s + (5 - a)
   \<and> (\<exists>k\<le>5 - a. delays s' = delays s @ replicate k 150)"
proof (induction h c err a s arbitrary: r s' rule: retryLoop.induct)
  case (1 h c err a s)
  show ?case
  proof (cases "a < 5")
    case False
    with "1.prems" show ?thesis by (simp add: retryLoop.simps)
  next
    case True
    obtain r1 s1 where cs: "connectAndSend h c s = (r1, s1)" by (cases "connectAndSend h c s")
    then have s1: "s1 = s\<lparr>attempts := attempts s + 1\<rparr>" by (rule connectAndSend_frame)
    show ?thesis
    proof (cases r1)
      case (Inr x)
      with "1.prems" True cs s1 show ?thesis
        by (auto simp: retryLoop.simps [of h c err a s])
    next
      case (Inl e)
      show ?thesis
      proof (cases "isConnectionError e")
        case False
        with "1.prems" True cs s1 Inl show ?thesis
          by (auto simp: retryLoop.simps [of h c err a s])
      next
        case ce: True
        from "1.prems" True cs Inl ce
        have rec: "retryLoop h c err (a + 1) (delay 150 s1) = (r, s')"
          by (simp add: retryLoop.simps [of h c err a s])
        from "1.IH" [OF True cs [symmetric] Inl _ rec] ce
        have ih: "serverProcess s' = serverProcess (delay 150 s1)
            \<and> children s' = children (delay 150 s1)
            \<and> attempts (delay 150 s1) \<le> attempts s'
            \<and> attempts s' \<le> attempts (delay 150 s1) + (5 - (a + 1))
            \<and> (\<exists>k\<le>5 - (a + 1). delays s' = delays (delay 150 s1) @ replicate k 150)"
          by simp
        then obtain k where k: "k \<le> 5 - (a + 1)"
          "delays s' = delays (delay 150 s1) @ replicate k 150" by blast
        have "delays s' = delays s @ replicate (Suc k) 150"
          using k(2) by (simp add: delay_def s1 replicate_append_same)
        moreover have "Suc k \<le> 5 - a" using k(1) True by simp
        ultimately have dl: "\<exists>k\<le>5 - a. delays s' = delays s @ replicate k 150" by blast
        from ih have "serverProcess s' = serverProcess s" "children s' = children s"
          by (simp_all add: delay_def s1)
        moreover from ih True have "attempts s \<le> attempts s'" "attempts s' \<le> attempts s + (5 - a)"
          by (auto simp: delay_def s1)
        ultimately show ?thesis using dl by blast
      qed
    qed
  qed
qed

lemma retryLoop_exhausted:
  "\<forall>i<5 - a. \<exists>e. socket h (attempts s + i) c = Inl e \<and> isConnectionError e \<Longrightarrow>
   a \<le> 5 \<Longrightarrow>
   \<exists>s'. retryLoop h c err a s = (Inl err, s') \<and> attempts s' = attempts s + (5 - a)
        \<and> delays s' = delays s @ replicate (5 - a) 150"
proof (induction h c err a s rule: retryLoop.induct)
  case (1 h c err a s)
  show ?case
  proof (cases "a < 5")
    case False
    with "1.prems" show ?thesis by (simp add: retryLoop.simps)
  next
    case True
    with "1.prems"(1) obtain e where e: "socket h (attempts s) c = Inl e" "isConnectionError e"
      by (metis add.right_neutral zero_less_diff)
    let ?s1 = "s\<lparr>attempts := attempts s + 1\<rparr>"
    have cs: "connectAndSend h c s = (Inl e, ?s1)" using e(1) by (rule connectAndSend_error)
    have step: "retryLoop h c err a s = retryLoop h c err (a + 1) (delay 150 ?s1)"
      using True cs e(2) by (simp add: retryLoop.simps [of h c err a s])
    have pre: "\<forall>i<5 - (a + 1). \<exists>e. socket h (attempts (delay 150 ?s1) + i) c = Inl e
        \<and> isConnectionError e"
    proof (intro allI impI)
      fix i assume "i < 5 - (a + 1)"
      then have "Suc i < 5 - a" by simp
      with "1.prems"(1) have "\<exists>e. socket h (attempts s + Suc i) c = Inl e \<and> isConnectionError e"
        by blast
      then show "\<exists>e. socket h (attempts (delay 150 ?s1) + i) c = Inl e \<and> isConnectionError e"
        by (simp add: delay_def)
    qed
    from "1.IH" [OF True cs [symmetric] refl _ pre] e(2) True
    obtain s' where s': "retryLoop h c err (a + 1) (delay 150 ?s1) = (Inl err, s')"
      "attempts s' = attempts (delay 150 ?s1) + (5 - (a + 1))"
      "delays s' = delays (delay 150 ?s1) @ replicate (5 - (a + 1)) 150"
      by auto
    have "5 - a = Suc (5 - (a + 1))" using True by simp
    then have "delays s' = delays s @ replicate (5 - a) 150"
      using s'(3) by (simp add: delay_def replicate_append_same)
    moreover have "attempts s' = attempts s + (5 - a)"
      using s'(2) True by (simp add: delay_def)
    ultimately show ?thesis using step s'(1) by simp
  qed
qed

lemma send_not_connection:
  assumes "socket h (attempts s) c = Inl e" "\<not> isConnectionError e"
  shows "sendUmpleSyncCommand h jar c s = (Inl e, s\<lparr>attempts := attempts s + 1\<rparr>)"
  using assms by (simp add: sendUmpleSyncCommand_def connectAndSend_error)

lemma send_connection:
  assumes "socket h (attempts s) c = Inl e" "isConnectionError e"
  shows "sendUmpleSyncCommand h jar c s
    = retryLoop h c e 0 (snd (startUmpleSyncServer jar (s\<lparr>attempts := attempts s + 1\<rparr>)))"
  using assms
  by (simp add: sendUmpleSyncCommand_def connectAndSend_error startUmpleSyncServer_def)

lemma send_frame:
  "sendUmpleSyncCommand h jar c s = (r, s') \<Longrightarrow>
   (serverProcess s \<noteq> None \<longrightarrow> children s' = children s \<and> serverProcess s' = serverProcess s)
   \<and> (serverProcess s = None \<longrightarrow>
        (children s' = children s \<and> serverProcess s' = None)
        \<or> (children s' = children s @ [(jar, umpleSyncPort s)] \<and> serverProcess s' \<noteq> None))
   \<and> attempts s' \<le> attempts s + 6
   \<and> (\<exists>k\<le>5. delays s' = delays s @ replicate k 150)"
proof -
  assume run: "sendUmpleSyncCommand h jar c s = (r, s')"
  let ?s1 = "s\<lparr>attempts := attempts s + 1\<rparr>"
  have z: "\<exists>k\<le>(5::nat). delays ?s1 = delays s @ replicate k 150"
    by (rule exI [of _ 0]) simp
  show ?thesis
  proof (cases "socket h (attempts s) c")
    case (Inr raw)
    with run have "s' = ?s1"
      by (auto simp: sendUmpleSyncCommand_def connectAndSend_def)
    with z show ?thesis by simp
  next
    case (Inl e)
    show ?thesis
    proof (cases "isConnectionError e")
      case False
      from run send_not_connection [OF Inl False, of jar] have "s' = ?s1" by simp
      with z show ?thesis by simp
    next
      case True
      let ?s2 = "snd (startUmpleSyncServer jar ?s1)"
      from run send_connection [OF Inl True, of jar]
      have "retryLoop h c e 0 ?s2 = (r, s')" by simp
      from retryLoop_frame [OF this]
      have f: "serverProcess s' = serverProcess ?s2" "children s' = children ?s2"
        "attempts s' \<le> attempts ?s2 + 5" "\<exists>k\<le>5. delays s' = delays ?s2 @ replicate k 150"
        by simp_all
      have a2: "attempts ?s2 = attempts s + 1" "delays ?s2 = delays s"
        by (simp_all add: startUmpleSyncServer_def)
      have c2: "serverProcess s \<noteq> None \<longrightarrow>
            children ?s2 = children s \<and> serverProcess ?s2 = serverProcess s"
        "serverProcess s = None \<longrightarrow>
            children ?s2 = children s @ [(jar, umpleSyncPort s)] \<and> serverProcess ?s2 \<noteq> None"
        by (simp_all add: startUmpleSyncServer_def)
      from f a2 have "attempts s' \<le> attempts s + 6" "\<exists>k\<le>5. delays s' = delays s @ replicate k 150"
        by simp_all
      with f(1,2) c2 show ?thesis by simp
    qed
  qed
qed

lemma send_spawns:
  assumes "socket h (attempts s) c = Inl e" "isConnectionError e" "serverProcess s = None"
  shows "children (snd (sendUmpleSyncCommand h jar c s)) = children s @ [(jar, umpleSyncPort s)]
    \<and> serverProcess (snd (sendUmpleSyncCommand h jar c s)) \<noteq> None"
proof -
  let ?s2 = "snd (startUmpleSyncServer jar (s\<lparr>attempts := attempts s + 1\<rparr>))"
  obtain r s' where rl: "retryLoop h c e 0 ?s2 = (r, s')" by (cases "retryLoop h c e 0 ?s2")
  from retryLoop_frame [OF rl] have "serverProcess s' = serverProcess ?s2" "children s' = children ?s2"
    by simp_all
  moreover have "children ?s2 = children s @ [(jar, umpleSyncPort s)]" "serverProcess ?s2 \<noteq> None"
    using assms(3) by (simp_all add: startUmpleSyncServer_def)
  ultimately show ?thesis
    using send_connection [OF assms(1,2), of jar] rl by simp
qed

lemma send_spawnedOnce:
  assumes "spawnedOnce s"
  shows "spawnedOnce (snd (sendUmpleSyncCommand h jar c s))"
proof -
  obtain r s' where run: "sendUmpleSyncCommand h jar c s = (r, s')"
    by (cases "sendUmpleSyncCommand h jar c s")
  from send_frame [OF run] assms show ?thesis
    unfolding spawnedOnce_def run by auto
qed

lemma dispatchAll_spawnedOnce:
  "spawnedOnce s \<Longrightarrow> spawnedOnce (dispatchAll h jar cs s)"
  by (induction cs arbitrary: s) (simp_all add: send_spawnedOnce)

lemma dispatchAll_children:
  assumes "serverProcess s = None" "children s = []"
  shows "length (children (dispatchAll h jar cs s)) \<le> 1"
proof -
  from assms have "spawnedOnce s" by (simp add: spawnedOnce_def)
  then have "spawnedOnce (dispatchAll h jar cs s)" by (rule dispatchAll_spawnedOnce)
  then show ?thesis by (auto simp: spawnedOnce_def)
qed

lemma send_exhausted:
  assumes "\<forall>i<6. \<exists>e. socket h (attempts s + i) c = Inl e \<and> isConnectionError e"
  shows "\<exists>e s'. socket h (attempts s) c = Inl e
    \<and> sendUmpleSyncCommand h jar c s = (Inl e, s')
    \<and> attempts s' = attempts s + 6 \<and> delays s' = delays s @ replicate 5 150"
proof -
  from assms obtain e where e: "socket h (attempts s) c = Inl e" "isConnectionError e"
    by (metis add.right_neutral zero_less_numeral)
  let ?s2 = "snd (startUmpleSyncServer jar (s\<lparr>attempts := attempts s + 1\<rparr>))"
  have a2: "attempts ?s2 = attempts s + 1" "delays ?s2 = delays s"
    by (simp_all add: startUmpleSyncServer_def)
  have "\<forall>i<5 - 0. \<exists>e. socket h (attempts ?s2 + i) c = Inl e \<and> isConnectionError e"
  proof (intro allI impI)
    fix i :: nat assume "i < 5 - 0"
    then have "Suc i < 6" by simp
    with assms have "\<exists>e. socket h (attempts s + Suc i) c = Inl e \<and> isConnectionError e" by blast
    moreover have "attempts ?s2 + i = attempts s + Suc i"
      by (simp add: startUmpleSyncServer_def)
    ultimately show "\<exists>e. socket h (attempts ?s2 + i) c = Inl e \<and> isConnectionError e"
      by (simp only:)
  qed
  from retryLoop_exhausted [OF this, of e] obtain s' where
    "retryLoop h c e 0 ?s2 = (Inl e, s')" "attempts s' = attempts ?s2 + (5 - 0)"
    "delays s' = delays ?s2 @ replicate (5 - 0) 150"
    by auto
  then show ?thesis
    using e send_connection [OF e, of jar] a2 by auto
qed

text \<open>
  Claim C7. A first attempt that fails with an error that is not of the connection class is
  rethrown at once: one attempt, no spawn, no delay. A first attempt that fails with
  \<^verbatim>\<open>ECONNREFUSED\<close>, \<^verbatim>\<open>ECONNRESET\<close> or \<^verbatim>\<open>EPIPE\<close> spawns the service when no process
  handle is held and never when one is, so that any sequence of dispatches from the
  initial state spawns at most one process; the command is then tried again at most 5
  times (at most 6 attempts in all), with a delay of 150 ms after each failed retry. When
  the first attempt and all 5 retries fail with connection errors, the error of the first
  attempt is the one rethrown.
\<close>

theorem sendUmpleSyncCommand_retry:
  "(\<forall>h jar c s e. socket h (attempts s) c = Inl e \<and> \<not> isConnectionError e
      \<longrightarrow> sendUmpleSyncCommand h jar c s = (Inl e, s\<lparr>attempts := attempts s + 1\<rparr>))
   \<and> (\<forall>h jar c s e. socket h (attempts s) c = Inl e \<and> isConnectionError e
          \<and> serverProcess s = None
      \<longrightarrow> children (snd (sendUmpleSyncCommand h jar c s))
            = children s @ [(jar, umpleSyncPort s)]
          \<and> serverProcess (snd (sendUmpleSyncCommand h jar c s)) \<noteq> None)
   \<and> (\<forall>h jar c s. serverProcess s \<noteq> None
      \<longrightarrow> children (snd (sendUmpleSyncCommand h jar c s)) = children s
          \<and> serverProcess (snd (sendUmpleSyncCommand h jar c s)) = serverProcess s)
   \<and> (\<forall>h jar cs. length (children (dispatchAll h jar cs initialServer)) \<le> 1)
   \<and> (\<forall>h jar c s. attempts (snd (sendUmpleSyncCommand h jar c s)) \<le> attempts s + 6
        \<and> (\<exists>k\<le>5. delays (snd (sendUmpleSyncCommand h jar c s))
                    = delays s @ replicate k 150))
   \<and> (\<forall>h jar c s.
        (\<forall>i<6. \<exists>e. socket h (attempts s + i) c = Inl e \<and> isConnectionError e)
      \<longrightarrow> (\<exists>e s'. socket h (attempts s) c = Inl e
             \<and> sendUmpleSyncCommand h jar c s = (Inl e, s')
             \<and> attempts s' = attempts s + 6
             \<and> delays s' = delays s @ replicate 5 150))"
proof (intro conjI allI impI)
  fix h :: host and jar c :: string and s :: server and e :: js_error
  assume "socket h (attempts s) c = Inl e \<and> \<not> isConnectionError e"
  then show "sendUmpleSyncCommand h jar c s = (Inl e, s\<lparr>attempts := attempts s + 1\<rparr>)"
    using send_not_connection [of h s c e jar] by blast
next
  fix h :: host and jar c :: string and s :: server and e :: js_error
  assume a: "socket h (attempts s) c = Inl e \<and> isConnectionError e \<and> serverProcess s = None"
  then show "children (snd (sendUmpleSyncCommand h jar c s))
      = children s @ [(jar, umpleSyncPort s)]"
    using send_spawns [of h s c e jar] by blast
  from a show "serverProcess (snd (sendUmpleSyncCommand h jar c s)) \<noteq> None"
    using send_spawns [of h s c e jar] by blast
next
  fix h :: host and jar c :: string and s :: server
  assume a: "serverProcess s \<noteq> None"
  obtain r s' where run: "sendUmpleSyncCommand h jar c s = (r, s')"
    by (cases "sendUmpleSyncCommand h jar c s")
  from send_frame [OF run] a
  show "children (snd (sendUmpleSyncCommand h jar c s)) = children s"
    and "serverProcess (snd (sendUmpleSyncCommand h jar c s)) = serverProcess s"
    by (simp_all add: run)
next
  fix h :: host and jar :: string and cs :: "string list"
  show "length (children (dispatchAll h jar cs initialServer)) \<le> 1"
    by (rule dispatchAll_children) (simp_all add: initialServer_def)
next
  fix h :: host and jar c :: string and s :: server
  obtain r s' where run: "sendUmpleSyncCommand h jar c s = (r, s')"
    by (cases "sendUmpleSyncCommand h jar c s")
  from send_frame [OF run]
  show "attempts (snd (sendUmpleSyncCommand h jar c s)) \<le> attempts s + 6"
    and "\<exists>k\<le>5. delays (snd (sendUmpleSyncCommand h jar c s)) = delays s @ replicate k 150"
    by (simp_all add: run)
next
  fix h :: host and jar c :: string and s :: server
  assume "\<forall>i<6. \<exists>e. socket h (attempts s + i) c = Inl e \<and> isConnectionError e"
  then show "\<exists>e s'. socket h (attempts s) c = Inl e
             \<and> sendUmpleSyncCommand h jar c s = (Inl e, s')
             \<and> attempts s' = attempts s + 6
             \<and> delays s' = delays s @ replicate 5 150"
    by (rule send_exhausted)
qed

theorem sendUmpleSyncCommand_retry_witness:
  "\<not> isConnectionError (JsError None ''umplesync socket timeout'')
   \<and> sendUmpleSyncCommand
        \<lparr>socket = (\<lambda>n c. Inl (JsError None ''umplesync socket timeout'')),
         existsSync = (\<lambda>p. True), lookup = (\<lambda>f l c. Inr []),
         walkUmpleFiles = (\<lambda>d. []), mirrorFailure = None, overlayFailure = None,
         tempName = (\<lambda>p. p), tmpdir = ''/tmp'', cwd = ''/'',
         fileURLToPath = (\<lambda>u. None), pathToFileURL = (\<lambda>p. p),
          writeFailure = (\<lambda>p. None)\<rparr>
        ''umplesync.jar'' ''-generate nothing a.ump'' initialServer
      = (Inl (JsError None ''umplesync socket timeout''), initialServer\<lparr>attempts := 1\<rparr>)
   \<and> isConnectionError (JsError (Some ''ECONNREFUSED'') ''refused'')
   \<and> fst (sendUmpleSyncCommand
        \<lparr>socket = (\<lambda>n c. Inl (JsError (Some ''ECONNREFUSED'') ''refused'')),
         existsSync = (\<lambda>p. True), lookup = (\<lambda>f l c. Inr []),
         walkUmpleFiles = (\<lambda>d. []), mirrorFailure = None, overlayFailure = None,
         tempName = (\<lambda>p. p), tmpdir = ''/tmp'', cwd = ''/'',
         fileURLToPath = (\<lambda>u. None), pathToFileURL = (\<lambda>p. p),
          writeFailure = (\<lambda>p. None)\<rparr>
        ''umplesync.jar'' ''-generate nothing a.ump'' initialServer)
      = Inl (JsError (Some ''ECONNREFUSED'') ''refused'')
   \<and> attempts (snd (sendUmpleSyncCommand
        \<lparr>socket = (\<lambda>n c. Inl (JsError (Some ''ECONNREFUSED'') ''refused'')),
         existsSync = (\<lambda>p. True), lookup = (\<lambda>f l c. Inr []),
         walkUmpleFiles = (\<lambda>d. []), mirrorFailure = None, overlayFailure = None,
         tempName = (\<lambda>p. p), tmpdir = ''/tmp'', cwd = ''/'',
         fileURLToPath = (\<lambda>u. None), pathToFileURL = (\<lambda>p. p),
          writeFailure = (\<lambda>p. None)\<rparr>
        ''umplesync.jar'' ''-generate nothing a.ump'' initialServer)) = 6
   \<and> delays (snd (sendUmpleSyncCommand
        \<lparr>socket = (\<lambda>n c. Inl (JsError (Some ''ECONNREFUSED'') ''refused'')),
         existsSync = (\<lambda>p. True), lookup = (\<lambda>f l c. Inr []),
         walkUmpleFiles = (\<lambda>d. []), mirrorFailure = None, overlayFailure = None,
         tempName = (\<lambda>p. p), tmpdir = ''/tmp'', cwd = ''/'',
         fileURLToPath = (\<lambda>u. None), pathToFileURL = (\<lambda>p. p),
          writeFailure = (\<lambda>p. None)\<rparr>
        ''umplesync.jar'' ''-generate nothing a.ump'' initialServer))
      = [150, 150, 150, 150, 150]
   \<and> children (snd (sendUmpleSyncCommand
        \<lparr>socket = (\<lambda>n c. Inl (JsError (Some ''ECONNREFUSED'') ''refused'')),
         existsSync = (\<lambda>p. True), lookup = (\<lambda>f l c. Inr []),
         walkUmpleFiles = (\<lambda>d. []), mirrorFailure = None, overlayFailure = None,
         tempName = (\<lambda>p. p), tmpdir = ''/tmp'', cwd = ''/'',
         fileURLToPath = (\<lambda>u. None), pathToFileURL = (\<lambda>p. p),
          writeFailure = (\<lambda>p. None)\<rparr>
        ''umplesync.jar'' ''-generate nothing a.ump'' initialServer))
      = [(''umplesync.jar'', 5555)]"
proof -
  let ?t = "JsError None ''umplesync socket timeout''"
  let ?r = "JsError (Some ''ECONNREFUSED'') ''refused''"
  let ?hT = "\<lparr>socket = (\<lambda>n c. Inl ?t),
         existsSync = (\<lambda>p. True), lookup = (\<lambda>f l c. Inr []),
         walkUmpleFiles = (\<lambda>d. []), mirrorFailure = None, overlayFailure = None,
         tempName = (\<lambda>p. p), tmpdir = ''/tmp'', cwd = ''/'',
         fileURLToPath = (\<lambda>u. None), pathToFileURL = (\<lambda>p. p),
          writeFailure = (\<lambda>p. None)\<rparr> :: host"
  let ?hR = "\<lparr>socket = (\<lambda>n c. Inl ?r),
         existsSync = (\<lambda>p. True), lookup = (\<lambda>f l c. Inr []),
         walkUmpleFiles = (\<lambda>d. []), mirrorFailure = None, overlayFailure = None,
         tempName = (\<lambda>p. p), tmpdir = ''/tmp'', cwd = ''/'',
         fileURLToPath = (\<lambda>u. None), pathToFileURL = (\<lambda>p. p),
          writeFailure = (\<lambda>p. None)\<rparr> :: host"
  let ?jar = "''umplesync.jar''" and ?c = "''-generate nothing a.ump''"
  note c = sendUmpleSyncCommand_retry
  have nt: "\<not> isConnectionError ?t" and cr: "isConnectionError ?r"
    by (simp_all add: isConnectionError_def)
  have "socket ?hT (attempts initialServer) ?c = Inl ?t \<and> \<not> isConnectionError ?t"
    using nt by simp
  with c [THEN conjunct1, rule_format, of ?hT initialServer ?c ?t ?jar]
  have "sendUmpleSyncCommand ?hT ?jar ?c initialServer
      = (Inl ?t, initialServer\<lparr>attempts := attempts initialServer + 1\<rparr>)"
    by simp
  then have r1: "sendUmpleSyncCommand ?hT ?jar ?c initialServer
      = (Inl ?t, initialServer\<lparr>attempts := 1\<rparr>)"
    by (simp add: initialServer_def)
  have "\<forall>i<6. \<exists>e. socket ?hR (attempts initialServer + i) ?c = Inl e \<and> isConnectionError e"
    using cr by simp
  with c [THEN conjunct2, THEN conjunct2, THEN conjunct2, THEN conjunct2, THEN conjunct2,
      THEN spec [of _ ?hR], THEN spec [of _ ?jar], THEN spec [of _ ?c],
      THEN spec [of _ initialServer], THEN mp]
  have "\<exists>e s'. socket ?hR (attempts initialServer) ?c = Inl e
      \<and> sendUmpleSyncCommand ?hR ?jar ?c initialServer = (Inl e, s')
      \<and> attempts s' = attempts initialServer + 6
      \<and> delays s' = delays initialServer @ replicate 5 150"
    by simp
  then obtain s' where s': "sendUmpleSyncCommand ?hR ?jar ?c initialServer = (Inl ?r, s')"
    "attempts s' = attempts initialServer + 6"
    "delays s' = delays initialServer @ replicate 5 150"
    by auto
  have "socket ?hR (attempts initialServer) ?c = Inl ?r \<and> isConnectionError ?r
      \<and> serverProcess initialServer = None"
    using cr by (simp add: initialServer_def)
  with c [THEN conjunct2, THEN conjunct1, rule_format, of ?hR initialServer ?c ?r ?jar]
  have "children (snd (sendUmpleSyncCommand ?hR ?jar ?c initialServer))
      = children initialServer @ [(?jar, umpleSyncPort initialServer)]"
    by simp
  then have r3: "children (snd (sendUmpleSyncCommand ?hR ?jar ?c initialServer))
      = [(?jar, 5555)]"
    by (simp add: initialServer_def)
  have r2: "fst (sendUmpleSyncCommand ?hR ?jar ?c initialServer) = Inl ?r"
    "attempts (snd (sendUmpleSyncCommand ?hR ?jar ?c initialServer)) = 6"
    "delays (snd (sendUmpleSyncCommand ?hR ?jar ?c initialServer)) = [150, 150, 150, 150, 150]"
    using s' by (simp_all add: initialServer_def numeral_eq_Suc)
  show ?thesis using nt r1 cr r2 r3 by blast
qed

section \<open>Properties of the debounce timeouts\<close>

lemma connectAndSend_outside: "outsideBridge (snd (connectAndSend h c s)) = outsideBridge s"
  by (simp add: connectAndSend_def outsideBridge_def split: sum.splits)

lemma retryLoop_outside: "outsideBridge (snd (retryLoop h c err a s)) = outsideBridge s"
proof (induction h c err a s rule: retryLoop.induct)
  case (1 h c err a s)
  show ?case
  proof (cases "a < 5")
    case False
    then show ?thesis by (simp add: retryLoop.simps)
  next
    case True
    obtain r1 s1 where cs: "connectAndSend h c s = (r1, s1)" by (cases "connectAndSend h c s")
    have o1: "outsideBridge s1 = outsideBridge s"
      using connectAndSend_outside [of h c s] cs by simp
    show ?thesis
    proof (cases r1)
      case (Inr x)
      with True cs o1 show ?thesis by (simp add: retryLoop.simps [of h c err a s])
    next
      case (Inl e)
      show ?thesis
      proof (cases "isConnectionError e")
        case False
        with True cs o1 Inl show ?thesis by (simp add: retryLoop.simps [of h c err a s])
      next
        case ce: True
        have "outsideBridge (delay 150 s1) = outsideBridge s"
          using o1 by (simp add: delay_def outsideBridge_def)
        moreover from "1.IH" [OF True cs [symmetric] Inl] ce
        have "outsideBridge (snd (retryLoop h c err (a + 1) (delay 150 s1)))
            = outsideBridge (delay 150 s1)" by simp
        ultimately show ?thesis
          using True cs Inl ce by (simp add: retryLoop.simps [of h c err a s])
      qed
    qed
  qed
qed

lemma send_outside: "outsideBridge (snd (sendUmpleSyncCommand h jar c s)) = outsideBridge s"
proof -
  obtain r1 s1 where cs: "connectAndSend h c s = (r1, s1)" by (cases "connectAndSend h c s")
  have o1: "outsideBridge s1 = outsideBridge s"
    using connectAndSend_outside [of h c s] cs by simp
  have o2: "outsideBridge (snd (startUmpleSyncServer jar s1)) = outsideBridge s"
    using o1 by (simp add: startUmpleSyncServer_def outsideBridge_def)
  show ?thesis
    using cs o1 o2 retryLoop_outside [of h c _ 0 "snd (startUmpleSyncServer jar s1)"]
    by (auto simp: sendUmpleSyncCommand_def startUmpleSyncServer_def split: sum.splits prod.splits)
qed


lemma outside_scheduling: "outsideBridge s' = outsideBridge s \<Longrightarrow> scheduling s' = scheduling s"
  by (simp add: outsideBridge_def scheduling_def)

lemma send_scheduling: "scheduling (snd (sendUmpleSyncCommand h jar c s)) = scheduling s"
  by (rule outside_scheduling) (rule send_outside)

lemma runCleanup_scheduling: "scheduling (runCleanup c s) = scheduling s"
  by (cases c) (simp_all add: scheduling_def)

lemma writeFile_scheduling: "scheduling (writeFile p s) = scheduling s"
  by (simp add: writeFile_def scheduling_def)

lemma writeTemp_scheduling: "scheduling (snd (writeTempUmpleFile h d l s)) = scheduling s"
  by (simp add: writeTempUmpleFile_def mkdtemp_def scheduling_def Let_def split: option.splits)

lemma resolveJarPath_scheduling: "scheduling (snd (resolveJarPath h s)) = scheduling s"
  by (simp add: resolveJarPath_def showWarningMessage_def scheduling_def split: option.splits)

lemma parseUmpleDiagnostics_scheduling:
  "scheduling (snd (parseUmpleDiagnostics e out d s)) = scheduling s"
  by (simp add: parseUmpleDiagnostics_def consoleWrite_def scheduling_def split: option.splits)

lemma beyond_scheduling: "scheduling (s\<lparr>beyond := b\<rparr>) = scheduling s"
  by (simp add: scheduling_def)

lemma runUmpleSync_scheduling:
  "scheduling (snd (runUmpleSyncAndParseDiagnostics h jar d s)) = scheduling s"
proof -
  obtain tf tc s1 where w: "writeTempUmpleFile h d ''diag'' s = ((tf, tc), s1)"
    by (cases "writeTempUmpleFile h d ''diag'' s") auto
  have 1: "scheduling s1 = scheduling s" using writeTemp_scheduling [of h d "''diag''" s] w by simp
  obtain r s3 where sn: "sendUmpleSyncCommand h jar (''-generate nothing '' @ tf) (writeFile tf s1) = (r, s3)"
    by (cases "sendUmpleSyncCommand h jar (''-generate nothing '' @ tf) (writeFile tf s1)")
  have 3: "scheduling s3 = scheduling s"
    using send_scheduling [of h jar "''-generate nothing '' @ tf" "writeFile tf s1"] sn 1
    by (simp add: writeFile_scheduling)
  show ?thesis
  proof (cases "writeFailure h tf")
    case (Some err)
    with w 1 show ?thesis by (simp add: runUmpleSyncAndParseDiagnostics_def)
  next
    case None
    show ?thesis
    proof (cases r)
      case (Inl e)
      with w sn 3 None show ?thesis
        by (simp add: runUmpleSyncAndParseDiagnostics_def runCleanup_scheduling)
    next
      case (Inr p)
      obtain out er where p: "p = (out, er)" by (cases p)
      obtain dg s4 where pd: "parseUmpleDiagnostics er out d s3 = (dg, s4)"
        by (cases "parseUmpleDiagnostics er out d s3")
      have 4: "scheduling s4 = scheduling s"
        using parseUmpleDiagnostics_scheduling [of er out d s3] pd 3 by simp
      show ?thesis
        using w sn Inr p pd 4 None
        by (cases dg)
           (simp_all add: runUmpleSyncAndParseDiagnostics_def runCleanup_scheduling
              beyond_scheduling)
    qed
  qed
qed

lemma validate_scheduling:
  "scheduling (snd (validateTextDocument h d s)) = scheduling s"
proof -
  obtain j s1 where rj: "resolveJarPath h s = (j, s1)" by (cases "resolveJarPath h s")
  have 1: "scheduling s1 = scheduling s" using resolveJarPath_scheduling [of h s] rj by simp
  show ?thesis
  proof (cases j)
    case None
    with rj 1 show ?thesis by (simp add: validateTextDocument_def)
  next
    case (Some jar)
    obtain r s2 where ru: "runUmpleSyncAndParseDiagnostics h jar d s1 = (r, s2)"
      by (cases "runUmpleSyncAndParseDiagnostics h jar d s1")
    have 2: "scheduling s2 = scheduling s"
      using runUmpleSync_scheduling [of h jar d s1] ru 1 by simp
    show ?thesis
      using rj Some ru 2
      by (cases r) (simp_all add: validateTextDocument_def sendDiagnostics_def scheduling_def)
  qed
qed

lemma timerCallback_scheduling:
  "timers (timerCallback h d s) = timers s
   \<and> pendingValidations (timerCallback h d s) = (pendingValidations s)(uri d := None)
   \<and> nextTimer (timerCallback h d s) = nextTimer s"
proof -
  let ?s1 = "s\<lparr>pendingValidations := (pendingValidations s)(uri d := None)\<rparr>"
  obtain r s2 where v: "validateTextDocument h d ?s1 = (r, s2)"
    by (cases "validateTextDocument h d ?s1")
  have "scheduling s2 = scheduling ?s1" using validate_scheduling [of h d ?s1] v by simp
  then show ?thesis
    using v by (cases r) (simp_all add: timerCallback_def scheduling_def Let_def)
qed

lemma scheduleValidation_fields:
  "timers (scheduleValidation d s)
     = ((case pendingValidations s (uri d) of
           Some existing \<Rightarrow> (timers s)(existing := None)
         | None \<Rightarrow> timers s))(nextTimer s \<mapsto> d)"
  "pendingValidations (scheduleValidation d s) = (pendingValidations s)(uri d \<mapsto> nextTimer s)"
  "nextTimer (scheduleValidation d s) = nextTimer s + 1"
  by (simp_all add: scheduleValidation_def setTimeout_def clearTimeout_def Let_def
      split: option.splits)

lemma scheduleValidation_recorded:
  assumes "timersRecorded s"
  shows "timersRecorded (scheduleValidation d s)"
  unfolding timersRecorded_def
proof (intro conjI allI impI)
  fix handle document
  assume a: "timers (scheduleValidation d s) handle = Some document"
  show "pendingValidations (scheduleValidation d s) (uri document) = Some handle"
  proof (cases "handle = nextTimer s")
    case True
    with a have "document = d" by (simp add: scheduleValidation_fields)
    with True show ?thesis by (simp add: scheduleValidation_fields)
  next
    case False
    with a have old: "timers s handle = Some document"
      and ne: "pendingValidations s (uri d) \<noteq> Some handle"
      by (auto simp: scheduleValidation_fields split: option.splits if_splits)
    from old assms have p: "pendingValidations s (uri document) = Some handle"
      by (simp add: timersRecorded_def)
    from p ne have "uri document \<noteq> uri d" by auto
    with p show ?thesis by (simp add: scheduleValidation_fields)
  qed
next
  fix u handle
  assume "pendingValidations (scheduleValidation d s) u = Some handle"
  then have "handle = nextTimer s \<or> pendingValidations s u = Some handle"
    by (auto simp: scheduleValidation_fields split: if_splits)
  with assms show "handle < nextTimer (scheduleValidation d s)"
    by (auto simp: scheduleValidation_fields timersRecorded_def less_Suc_eq)
qed

lemma scheduleValidation_stays_disarmed:
  assumes "handle < nextTimer s" "timers s handle = None"
  shows "timers (scheduleValidation d s) handle = None"
  using assms by (simp add: scheduleValidation_fields split: option.splits)

lemma documents_recorded [simp]:
  "timersRecorded (s\<lparr>documents := x\<rparr>) = timersRecorded s"
  "timersRecorded (s\<lparr>modelCache := y\<rparr>) = timersRecorded s"
  "timersRecorded (s\<lparr>requests := z\<rparr>) = timersRecorded s"
  by (simp_all add: timersRecorded_def)

lemma detachRequests_fields [simp]:
  "timers (detachRequests u s) = timers s"
  "pendingValidations (detachRequests u s) = pendingValidations s"
  "nextTimer (detachRequests u s) = nextTimer s"
  "documents (detachRequests u s) = documents s"
  "modelCache (detachRequests u s) = modelCache s"
  "attempts (detachRequests u s) = attempts s"
  "umpleSyncJarPath (detachRequests u s) = umpleSyncJarPath s"
  "timersRecorded (detachRequests u s) = timersRecorded s"
  by (simp_all add: detachRequests_def)

lemma updateHeld_fields [simp]:
  "timers (updateHeld u d s) = timers s"
  "pendingValidations (updateHeld u d s) = pendingValidations s"
  "nextTimer (updateHeld u d s) = nextTimer s"
  "documents (updateHeld u d s) = documents s"
  "modelCache (updateHeld u d s) = modelCache s"
  "attempts (updateHeld u d s) = attempts s"
  "umpleSyncJarPath (updateHeld u d s) = umpleSyncJarPath s"
  "timersRecorded (updateHeld u d s) = timersRecorded s"
  by (simp_all add: updateHeld_def)

lemma step_recorded:
  assumes "timersRecorded s" "step h s ev = Some s'"
  shows "timersRecorded s' \<and> nextTimer s \<le> nextTimer s'
    \<and> (\<forall>handle<nextTimer s. timers s handle = None \<longrightarrow> timers s' handle = None)"
proof (cases ev)
  case (DidOpen u lang v t)
  let ?d = "\<lparr>uri = u, languageId = lang, version = v, content = t\<rparr>"
  let ?s0 = "detachRequests u (s\<lparr>documents := AList.update u ?d (documents s)\<rparr>)"
  from assms(2) DidOpen have s': "s' = scheduleValidation ?d ?s0"
    by (simp add: onDidOpenTextDocument_def Let_def)
  have "timersRecorded ?s0" using assms(1) by simp
  then have "timersRecorded s'" unfolding s' by (rule scheduleValidation_recorded)
  moreover have "nextTimer s \<le> nextTimer s'" by (simp add: s' scheduleValidation_fields)
  moreover have "\<forall>handle<nextTimer s. timers s handle = None \<longrightarrow> timers s' handle = None"
    unfolding s' using scheduleValidation_stays_disarmed [of _ ?s0 ?d] by simp
  ultimately show ?thesis by blast
next
  case (DidChange u v t)
  show ?thesis
  proof (cases "map_of (documents s) u")
    case None
    with assms DidChange show ?thesis by (simp add: onDidChangeTextDocument_def)
  next
    case (Some document)
    let ?d = "document\<lparr>version := v, content := t\<rparr>"
    let ?s1 = "updateHeld u ?d (s\<lparr>documents := AList.update u ?d (documents s)\<rparr>)"
    let ?s0 = "?s1\<lparr>modelCache := (modelCache ?s1)(u := None)\<rparr>"
    from assms(2) DidChange Some have s': "s' = scheduleValidation ?d ?s0"
      by (simp add: onDidChangeTextDocument_def Let_def)
    have "timersRecorded ?s0" using assms(1) by simp
    then have "timersRecorded s'" unfolding s' by (rule scheduleValidation_recorded)
    moreover have "nextTimer s \<le> nextTimer s'" by (simp add: s' scheduleValidation_fields)
    moreover have "\<forall>handle<nextTimer s. timers s handle = None \<longrightarrow> timers s' handle = None"
      unfolding s' using scheduleValidation_stays_disarmed [of _ ?s0 ?d] by simp
    ultimately show ?thesis by blast
  qed
next
  case (DidClose u)
  with assms(2) have "s' = sendDiagnostics u []
       (detachRequests u
          (s\<lparr>documents := AList.delete u (documents s),
             modelCache := (modelCache s)(u := None)\<rparr>))"
    by (simp add: onDidCloseTextDocument_def)
  with assms(1) show ?thesis
    by (simp add: sendDiagnostics_def timersRecorded_def detachRequests_def)
next
  case (TimerFires handle)
  with assms(2) obtain document where armed: "timers s handle = Some document"
    and s': "s' = timerCallback h document (clearTimeout handle s)"
    by (auto split: option.splits)
  let ?s0 = "clearTimeout handle s"
  have t: "timers s' = (timers s)(handle := None)"
    and p: "pendingValidations s' = (pendingValidations s)(uri document := None)"
    and n: "nextTimer s' = nextTimer s"
    using timerCallback_scheduling [of h document ?s0]
    by (simp_all add: s' clearTimeout_def)
  have "timersRecorded s'"
    unfolding timersRecorded_def
  proof (intro conjI allI impI)
    fix h2 d2
    assume "timers s' h2 = Some d2"
    then have ne: "h2 \<noteq> handle" and a2: "timers s h2 = Some d2"
      by (auto simp: t split: if_splits)
    from a2 assms(1) have p2: "pendingValidations s (uri d2) = Some h2"
      by (simp add: timersRecorded_def)
    from armed assms(1) have "pendingValidations s (uri document) = Some handle"
      by (simp add: timersRecorded_def)
    with p2 ne have "uri d2 \<noteq> uri document" by auto
    with p2 show "pendingValidations s' (uri d2) = Some h2"
      by (simp add: p)
  next
    fix u h2
    assume "pendingValidations s' u = Some h2"
    then have "pendingValidations s u = Some h2" by (auto simp: p split: if_splits)
    with assms(1) show "h2 < nextTimer s'" by (simp add: timersRecorded_def n)
  qed
  then show ?thesis by (simp add: t n)
qed

lemma run_recorded:
  "timersRecorded s \<Longrightarrow> run h s evs = Some s' \<Longrightarrow>
   timersRecorded s' \<and> nextTimer s \<le> nextTimer s'
   \<and> (\<forall>handle<nextTimer s. timers s handle = None \<longrightarrow> timers s' handle = None)"
proof (induction evs arbitrary: s)
  case Nil
  then show ?case by simp
next
  case (Cons ev evs)
  from Cons.prems(2) obtain s1 where s1: "step h s ev = Some s1" and r: "run h s1 evs = Some s'"
    by (auto split: option.splits)
  from step_recorded [OF Cons.prems(1) s1]
  have a: "timersRecorded s1" "nextTimer s \<le> nextTimer s1"
    "\<forall>handle<nextTimer s. timers s handle = None \<longrightarrow> timers s1 handle = None"
    by auto
  from Cons.IH [OF a(1) r]
  have b: "timersRecorded s'" "nextTimer s1 \<le> nextTimer s'"
    "\<forall>handle<nextTimer s1. timers s1 handle = None \<longrightarrow> timers s' handle = None"
    by auto
  show ?case
  proof (intro conjI allI impI)
    show "timersRecorded s'" by (rule b(1))
    show "nextTimer s \<le> nextTimer s'" using a(2) b(2) by simp
  next
    fix handle
    assume "handle < nextTimer s" "timers s handle = None"
    with a(2,3) have "handle < nextTimer s1" "timers s1 handle = None" by auto
    with b(3) show "timers s' handle = None" by blast
  qed
qed

lemma run_snoc: "run h s (evs @ [ev]) = (case run h s evs of None \<Rightarrow> None | Some s1 \<Rightarrow> step h s1 ev)"
  by (induction evs arbitrary: s) (auto split: option.splits)

lemma cancelled_never_fires:
  assumes "timersRecorded s" "handle < nextTimer s" "timers s handle = None"
  shows "run h s (evs @ [TimerFires handle]) = None"
proof (cases "run h s evs")
  case None
  then show ?thesis by (simp add: run_snoc)
next
  case (Some s1)
  from run_recorded [OF assms(1) Some] assms(2,3) have "timers s1 handle = None" by blast
  with Some show ?thesis by (simp add: run_snoc)
qed

lemma initial_recorded: "timersRecorded initialServer"
  by (simp add: timersRecorded_def initialServer_def)

lemma recorded_single:
  assumes "timersRecorded s" "timers s h1 = Some d1" "timers s h2 = Some d2" "uri d1 = uri d2"
  shows "h1 = h2"
proof -
  from assms(1,2) have "pendingValidations s (uri d1) = Some h1" by (simp add: timersRecorded_def)
  moreover from assms(1,3) have "pendingValidations s (uri d2) = Some h2"
    by (simp add: timersRecorded_def)
  ultimately show ?thesis using assms(4) by simp
qed


lemma scheduleValidation_disarms:
  assumes "timersRecorded s" "pendingValidations s (uri d) = Some old"
  shows "timers (scheduleValidation d s) old = None"
proof -
  from assms have "old < nextTimer s" by (auto simp: timersRecorded_def)
  with assms(2) show ?thesis by (simp add: scheduleValidation_fields)
qed

lemma scheduleValidation_only:
  assumes "timersRecorded s" "timers (scheduleValidation d s) handle = Some d'" "uri d' = uri d"
  shows "handle = nextTimer s"
proof -
  have r: "timersRecorded (scheduleValidation d s)"
    using assms(1) by (rule scheduleValidation_recorded)
  have "timers (scheduleValidation d s) (nextTimer s) = Some d"
    by (simp add: scheduleValidation_fields)
  from recorded_single [OF r assms(2) this assms(3)] show ?thesis .
qed

text \<open>
  Claim C3. In every state reached from the initial state by open, change and close
  notifications and firings of armed timeouts, no two armed timeouts belong to one URI,
  and an armed timeout is the one recorded as pending for its URI. A call of
  \<^verbatim>\<open>scheduleValidation\<close> disarms the timeout that was pending for the URI and arms a new
  one, which is then the only armed timeout of that URI. A timeout that has been disarmed
  never fires, whatever events follow.
\<close>

theorem scheduleValidation_supersedes:
  "(\<forall>h evs s. run h initialServer evs = Some s \<longrightarrow>
      timersRecorded s
      \<and> (\<forall>h1 h2 d1 d2. timers s h1 = Some d1 \<and> timers s h2 = Some d2 \<and> uri d1 = uri d2
            \<longrightarrow> h1 = h2)
      \<and> (\<forall>handle d. timers s handle = Some d \<longrightarrow> pendingValidations s (uri d) = Some handle))
   \<and> (\<forall>s document. timersRecorded s \<longrightarrow>
        pendingValidations (scheduleValidation document s) (uri document) = Some (nextTimer s)
        \<and> timers (scheduleValidation document s) (nextTimer s) = Some document
        \<and> (\<forall>old. pendingValidations s (uri document) = Some old
              \<longrightarrow> timers (scheduleValidation document s) old = None)
        \<and> (\<forall>handle d. timers (scheduleValidation document s) handle = Some d
                \<and> uri d = uri document
              \<longrightarrow> handle = nextTimer s))
   \<and> (\<forall>h s evs handle. timersRecorded s \<and> handle < nextTimer s \<and> timers s handle = None
        \<longrightarrow> run h s (evs @ [TimerFires handle]) = None)"
proof (intro conjI allI impI)
  fix h :: host and evs s
  assume r: "run h initialServer evs = Some s"
  from run_recorded [OF initial_recorded r] show rec: "timersRecorded s" by blast
  {
    fix h1 h2 d1 d2
    assume "timers s h1 = Some d1 \<and> timers s h2 = Some d2 \<and> uri d1 = uri d2"
    then show "h1 = h2" using recorded_single [OF rec, of h1 d1 h2 d2] by blast
  }
  {
    fix handle d
    assume "timers s handle = Some d"
    with rec show "pendingValidations s (uri d) = Some handle"
      by (simp add: timersRecorded_def)
  }
next
  fix s :: server and document :: TextDocument
  assume rec: "timersRecorded s"
  show "pendingValidations (scheduleValidation document s) (uri document) = Some (nextTimer s)"
    by (simp add: scheduleValidation_fields)
  show "timers (scheduleValidation document s) (nextTimer s) = Some document"
    by (simp add: scheduleValidation_fields)
  {
    fix old
    assume "pendingValidations s (uri document) = Some old"
    with rec show "timers (scheduleValidation document s) old = None"
      by (rule scheduleValidation_disarms)
  }
  {
    fix handle and d :: TextDocument
    assume "timers (scheduleValidation document s) handle = Some d \<and> uri d = uri document"
    then show "handle = nextTimer s"
      using scheduleValidation_only [OF rec, of document handle d] by blast
  }
next
  fix h :: host and s evs handle
  assume "timersRecorded s \<and> handle < nextTimer s \<and> timers s handle = None"
  then show "run h s (evs @ [TimerFires handle]) = None"
    using cancelled_never_fires [of s handle h evs] by blast
qed

theorem scheduleValidation_supersedes_witness:
  "\<exists>s. run \<lparr>socket = (\<lambda>n c. Inr []), existsSync = (\<lambda>p. True), lookup = (\<lambda>f l c. Inr []),
            walkUmpleFiles = (\<lambda>d. []), mirrorFailure = None, overlayFailure = None,
            tempName = (\<lambda>p. p), tmpdir = ''/tmp'', cwd = ''/'',
            fileURLToPath = (\<lambda>u. None), pathToFileURL = (\<lambda>p. p),
          writeFailure = (\<lambda>p. None)\<rparr>
          initialServer
          [DidOpen ''file:///p/a.ump'' ''umple'' 1 ''class A {}'',
           DidChange ''file:///p/a.ump'' 2 ''class A { }''] = Some s
       \<and> timersRecorded s
       \<and> timers s 0 = None
       \<and> timers s 1 = Some \<lparr>uri = ''file:///p/a.ump'', languageId = ''umple'', version = 2,
                               content = ''class A { }''\<rparr>
       \<and> pendingValidations s ''file:///p/a.ump'' = Some 1
       \<and> nextTimer s = 2
       \<and> run \<lparr>socket = (\<lambda>n c. Inr []), existsSync = (\<lambda>p. True), lookup = (\<lambda>f l c. Inr []),
            walkUmpleFiles = (\<lambda>d. []), mirrorFailure = None, overlayFailure = None,
            tempName = (\<lambda>p. p), tmpdir = ''/tmp'', cwd = ''/'',
            fileURLToPath = (\<lambda>u. None), pathToFileURL = (\<lambda>p. p),
          writeFailure = (\<lambda>p. None)\<rparr>
          s ([] @ [TimerFires 0]) = None"
proof -
  let ?h = "\<lparr>socket = (\<lambda>n c. Inr []), existsSync = (\<lambda>p. True), lookup = (\<lambda>f l c. Inr []),
            walkUmpleFiles = (\<lambda>d. []), mirrorFailure = None, overlayFailure = None,
            tempName = (\<lambda>p. p), tmpdir = ''/tmp'', cwd = ''/'',
            fileURLToPath = (\<lambda>u. None), pathToFileURL = (\<lambda>p. p),
          writeFailure = (\<lambda>p. None)\<rparr> :: host"
  let ?evs = "[DidOpen ''file:///p/a.ump'' ''umple'' 1 ''class A {}'',
           DidChange ''file:///p/a.ump'' 2 ''class A { }'']"
  note c = scheduleValidation_supersedes
  obtain s where r: "run ?h initialServer ?evs = Some s"
    by (simp add: onDidOpenTextDocument_def onDidChangeTextDocument_def Let_def)
  then have f: "timers s 0 = None"
    "timers s 1 = Some \<lparr>uri = ''file:///p/a.ump'', languageId = ''umple'', version = 2,
                               content = ''class A { }''\<rparr>"
    "pendingValidations s ''file:///p/a.ump'' = Some 1" "nextTimer s = 2"
    by (auto simp: onDidOpenTextDocument_def onDidChangeTextDocument_def Let_def
        scheduleValidation_def setTimeout_def clearTimeout_def initialServer_def)
  from c [THEN conjunct1, THEN spec [of _ ?h], THEN spec [of _ ?evs], THEN spec [of _ s],
      THEN mp, OF r]
  have rec: "timersRecorded s" by blast
  with f have "timersRecorded s \<and> 0 < nextTimer s \<and> timers s 0 = None" by simp
  with c [THEN conjunct2, THEN conjunct2, THEN spec [of _ ?h], THEN spec [of _ s],
      THEN spec [of _ "[]"], THEN spec [of _ 0], THEN mp]
  have "run ?h s ([] @ [TimerFires 0]) = None" by blast
  with r rec f show ?thesis by blast
qed

section \<open>Validation when the Bridge dispatch fails\<close>

text \<open>
  Claim C9. A debounce timer fires for an open document while the UmpleSync jar is
  configured, and the attempt on the socket fails with a timeout, which is no connection
  error. The rejection goes through \<^verbatim>\<open>runUmpleSyncAndParseDiagnostics\<close> and
  \<^verbatim>\<open>validateTextDocument\<close>, neither of which catches it, to the discarded promise of
  the timer callback: no diagnostics are published and the temporary directory is removed,
  but nothing is written to the console of the connection; the failure is left as an
  unhandled rejection.
\<close>

theorem validateTextDocument_failure_unlogged:
  "\<exists>s. run \<lparr>socket = (\<lambda>n c. Inl (JsError None ''umplesync socket timeout'')),
            existsSync = (\<lambda>p. True), lookup = (\<lambda>f l c. Inr []),
            walkUmpleFiles = (\<lambda>d. []), mirrorFailure = None, overlayFailure = None,
            tempName = (\<lambda>p. p @ ''abc123''), tmpdir = ''/tmp'', cwd = ''/'',
            fileURLToPath = (\<lambda>u. None), pathToFileURL = (\<lambda>p. p),
          writeFailure = (\<lambda>p. None)\<rparr>
          (initialServer\<lparr>umpleSyncJarPath := Some ''/opt/umplesync.jar''\<rparr>)
          [DidOpen ''untitled:Untitled-1'' ''umple'' 1 ''class A {}'', TimerFires 0] = Some s
       \<and> console s = []
       \<and> published s = []
       \<and> unhandled s = [JsError None ''umplesync socket timeout'']
       \<and> attempts s = 1
       \<and> paths s = []
       \<and> \<not> beyond s"
  by (simp add: onDidOpenTextDocument_def detachRequests_def scheduleValidation_def setTimeout_def
      clearTimeout_def timerCallback_def validateTextDocument_def resolveJarPath_def
      runUmpleSyncAndParseDiagnostics_def writeTempUmpleFile_def getDocumentDirectory_def
      getDocumentFilePath_def startsWith_def mkdtemp_def writeFile_def path_join_def
      path_normalize_def segments_def isAbsolute_def
      sendUmpleSyncCommand_def connectAndSend_def isConnectionError_def initialServer_def
      Let_def)

section \<open>The shadow workspace when its construction fails\<close>

text \<open>
  Claim C8. A definition request for \<^verbatim>\<open>file:///w/A.ump\<close> in the workspace \<^verbatim>\<open>/w\<close>.
  When the lookup throws, the shadow directory made by \<^verbatim>\<open>mkdtemp\<close> is removed by the
  \<^verbatim>\<open>finally\<close> of the handler and the request is answered with the empty list after a
  warning. When the mirroring throws (\<^verbatim>\<open>readdir\<close> is refused on a directory of the
  workspace), \<^verbatim>\<open>createShadowWorkspace\<close> rejects before it has returned the cleanup and
  before the handler has entered its \<^verbatim>\<open>try\<close>: the request is rejected and the shadow
  directory is still there when it completes.
\<close>

theorem createShadowWorkspace_failure_leaks:
  "fst (onDefinition
         \<lparr>socket = (\<lambda>n c. Inr []), existsSync = (\<lambda>p. True),
          lookup = (\<lambda>f l c. Inl (JsError None ''Command failed: java'')),
          walkUmpleFiles = (\<lambda>d. [''/w/A.ump'', ''/w/lib/B.ump'']),
          mirrorFailure = None, overlayFailure = None,
          tempName = (\<lambda>p. p @ ''abc123''), tmpdir = ''/tmp'', cwd = ''/'',
          fileURLToPath = (\<lambda>u. Some (drop 7 u)), pathToFileURL = (\<lambda>p. ''file://'' @ p),
          writeFailure = (\<lambda>p. None)\<rparr>
         ''file:///w/A.ump'' 0 6
         (onDidOpenTextDocument ''file:///w/A.ump'' ''umple'' 1 ''class A {}''
            (initialServer\<lparr>workspaceRoots := [''/w''], umpleJarPath := Some ''/opt/umple.jar'',
               umpleGoToDefClasspath := Some ''/opt/tools''\<rparr>))) = Resolved []
   \<and> paths (snd (onDefinition
         \<lparr>socket = (\<lambda>n c. Inr []), existsSync = (\<lambda>p. True),
          lookup = (\<lambda>f l c. Inl (JsError None ''Command failed: java'')),
          walkUmpleFiles = (\<lambda>d. [''/w/A.ump'', ''/w/lib/B.ump'']),
          mirrorFailure = None, overlayFailure = None,
          tempName = (\<lambda>p. p @ ''abc123''), tmpdir = ''/tmp'', cwd = ''/'',
          fileURLToPath = (\<lambda>u. Some (drop 7 u)), pathToFileURL = (\<lambda>p. ''file://'' @ p),
          writeFailure = (\<lambda>p. None)\<rparr>
         ''file:///w/A.ump'' 0 6
         (onDidOpenTextDocument ''file:///w/A.ump'' ''umple'' 1 ''class A {}''
            (initialServer\<lparr>workspaceRoots := [''/w''], umpleJarPath := Some ''/opt/umple.jar'',
               umpleGoToDefClasspath := Some ''/opt/tools''\<rparr>)))) = []
   \<and> fst (onDefinition
         \<lparr>socket = (\<lambda>n c. Inr []), existsSync = (\<lambda>p. True),
          lookup = (\<lambda>f l c. Inr []),
          walkUmpleFiles = (\<lambda>d. [''/w/A.ump'', ''/w/lib/B.ump'']),
          mirrorFailure = Some (JsError (Some ''EACCES'') ''EACCES: permission denied, scandir''),
          overlayFailure = None,
          tempName = (\<lambda>p. p @ ''abc123''), tmpdir = ''/tmp'', cwd = ''/'',
          fileURLToPath = (\<lambda>u. Some (drop 7 u)), pathToFileURL = (\<lambda>p. ''file://'' @ p),
          writeFailure = (\<lambda>p. None)\<rparr>
         ''file:///w/A.ump'' 0 6
         (onDidOpenTextDocument ''file:///w/A.ump'' ''umple'' 1 ''class A {}''
            (initialServer\<lparr>workspaceRoots := [''/w''], umpleJarPath := Some ''/opt/umple.jar'',
               umpleGoToDefClasspath := Some ''/opt/tools''\<rparr>)))
       = Rejected (JsError (Some ''EACCES'') ''EACCES: permission denied, scandir'')
   \<and> paths (snd (onDefinition
         \<lparr>socket = (\<lambda>n c. Inr []), existsSync = (\<lambda>p. True),
          lookup = (\<lambda>f l c. Inr []),
          walkUmpleFiles = (\<lambda>d. [''/w/A.ump'', ''/w/lib/B.ump'']),
          mirrorFailure = Some (JsError (Some ''EACCES'') ''EACCES: permission denied, scandir''),
          overlayFailure = None,
          tempName = (\<lambda>p. p @ ''abc123''), tmpdir = ''/tmp'', cwd = ''/'',
          fileURLToPath = (\<lambda>u. Some (drop 7 u)), pathToFileURL = (\<lambda>p. ''file://'' @ p),
          writeFailure = (\<lambda>p. None)\<rparr>
         ''file:///w/A.ump'' 0 6
         (onDidOpenTextDocument ''file:///w/A.ump'' ''umple'' 1 ''class A {}''
            (initialServer\<lparr>workspaceRoots := [''/w''], umpleJarPath := Some ''/opt/umple.jar'',
               umpleGoToDefClasspath := Some ''/opt/tools''\<rparr>))))
       = [''/tmp/umple-shadow-def-abc123'']"
  by code_simp

section \<open>The model cache\<close>

lemma send_attempts: "attempts s < attempts (snd (sendUmpleSyncCommand h jar c s))"
proof -
  let ?s1 = "s\<lparr>attempts := attempts s + 1\<rparr>"
  show ?thesis
  proof (cases "socket h (attempts s) c")
    case (Inr raw)
    then show ?thesis by (simp add: sendUmpleSyncCommand_def connectAndSend_def)
  next
    case (Inl e)
    show ?thesis
    proof (cases "isConnectionError e")
      case False
      from send_not_connection [OF Inl False, of jar] show ?thesis by simp
    next
      case True
      let ?s2 = "snd (startUmpleSyncServer jar ?s1)"
      obtain r s' where rl: "retryLoop h c e 0 ?s2 = (r, s')" by (cases "retryLoop h c e 0 ?s2")
      from retryLoop_frame [OF rl] have "attempts ?s2 \<le> attempts s'" by simp
      moreover have "attempts ?s2 = attempts s + 1" by (simp add: startUmpleSyncServer_def)
      ultimately show ?thesis using send_connection [OF Inl True, of jar] rl by simp
    qed
  qed
qed

lemma send_store:
  "documents (snd (sendUmpleSyncCommand h jar c s)) = documents s"
  "modelCache (snd (sendUmpleSyncCommand h jar c s)) = modelCache s"
  using send_outside [of h jar c s] by (simp_all add: outsideBridge_def)

lemma runCleanup_store [simp]:
  "documents (runCleanup c s) = documents s"
  "modelCache (runCleanup c s) = modelCache s"
  "attempts (runCleanup c s) = attempts s"
  by (cases c; simp)+

lemma writeFile_store [simp]:
  "documents (writeFile p s) = documents s"
  "modelCache (writeFile p s) = modelCache s"
  "attempts (writeFile p s) = attempts s"
  by (simp_all add: writeFile_def)

lemma writeTemp_store [simp]:
  "documents (snd (writeTempUmpleFile h d l s)) = documents s"
  "modelCache (snd (writeTempUmpleFile h d l s)) = modelCache s"
  "attempts (snd (writeTempUmpleFile h d l s)) = attempts s"
  by (simp_all add: writeTempUmpleFile_def mkdtemp_def Let_def split: option.splits)

lemma resolveJarPath_store [simp]:
  "documents (snd (resolveJarPath h s)) = documents s"
  "modelCache (snd (resolveJarPath h s)) = modelCache s"
  "attempts (snd (resolveJarPath h s)) = attempts s"
  by (simp_all add: resolveJarPath_def showWarningMessage_def split: option.splits)

lemma resolveJarPath_configured:
  assumes "umpleSyncJarPath s = Some jar" and "jar \<noteq> []" and "existsSync h jar"
  shows "resolveJarPath h s = (Some jar, s)"
  using assms by (simp add: resolveJarPath_def)

text \<open>What the two parts of \<^verbatim>\<open>generateModelJson\<close> leave alone, and when a command is
  sent.\<close>

lemma generateModelJson_begin_store:
  "documents (snd (generateModelJson_begin h d s)) = documents s
   \<and> modelCache (snd (generateModelJson_begin h d s)) = modelCache s
   \<and> attempts (snd (generateModelJson_begin h d s)) = attempts s"
proof -
  obtain j s1 where rj: "resolveJarPath h s = (j, s1)" by (cases "resolveJarPath h s")
  have 1: "documents s1 = documents s" "modelCache s1 = modelCache s" "attempts s1 = attempts s"
    using resolveJarPath_store [of h s] rj by simp_all
  show ?thesis
  proof (cases j)
    case None
    with rj 1 show ?thesis by (simp add: generateModelJson_begin_def)
  next
    case (Some jar)
    obtain tf tc s2 where w: "writeTempUmpleFile h d ''model'' s1 = ((tf, tc), s2)"
      by (cases "writeTempUmpleFile h d ''model'' s1") auto
    have 2: "documents s2 = documents s" "modelCache s2 = modelCache s"
      "attempts s2 = attempts s"
      using writeTemp_store [of h d "''model''" s1] w 1 by simp_all
    show ?thesis
      using rj Some w 2
      by (simp add: generateModelJson_begin_def split: option.splits)
  qed
qed

lemma generateModelJson_begin_sends:
  assumes "umpleSyncJarPath s = Some jar" and "jar \<noteq> []" and "existsSync h jar"
    and "\<forall>p. writeFailure h p = None"
  shows "\<exists>tf tc s1. generateModelJson_begin h d s = (Inr (jar, tf, tc), s1)"
proof -
  have rj: "resolveJarPath h s = (Some jar, s)"
    using assms(1-3) by (rule resolveJarPath_configured)
  obtain tf tc s2 where w: "writeTempUmpleFile h d ''model'' s = ((tf, tc), s2)"
    by (cases "writeTempUmpleFile h d ''model'' s") auto
  show ?thesis using rj w assms(4) by (simp add: generateModelJson_begin_def)
qed

lemma generateModelJson_end_store:
  "documents (snd (generateModelJson_end h jar tf tc s)) = documents s
   \<and> modelCache (snd (generateModelJson_end h jar tf tc s)) = modelCache s
   \<and> attempts s < attempts (snd (generateModelJson_end h jar tf tc s))"
proof -
  obtain r s4 where sn:
    "sendUmpleSyncCommand h jar (''-generate JsonMixed '' @ tf) s = (r, s4)"
    by (cases "sendUmpleSyncCommand h jar (''-generate JsonMixed '' @ tf) s")
  have 4: "documents s4 = documents s" "modelCache s4 = modelCache s" "attempts s < attempts s4"
    using send_store [of h jar "''-generate JsonMixed '' @ tf" s]
      send_attempts [of s h jar "''-generate JsonMixed '' @ tf"] sn
    by simp_all
  show ?thesis
    using sn 4
    by (simp add: generateModelJson_end_def
             split: sum.splits prod.splits option.splits outcome.splits)
qed

lemma generateModelJson_store:
  "documents (snd (generateModelJson h d s)) = documents s
   \<and> modelCache (snd (generateModelJson h d s)) = modelCache s"
proof -
  obtain r s1 where b: "generateModelJson_begin h d s = (r, s1)"
    by (cases "generateModelJson_begin h d s")
  have 1: "documents s1 = documents s" "modelCache s1 = modelCache s"
    using generateModelJson_begin_store [of h d s] b by simp_all
  show ?thesis
  proof (cases r)
    case (Inl outcome)
    with b 1 show ?thesis by (simp add: generateModelJson_def)
  next
    case (Inr p)
    obtain jar tf tc where p: "p = (jar, tf, tc)" by (cases p)
    from generateModelJson_end_store [of h jar tf tc s1] b Inr p 1 show ?thesis
      by (simp add: generateModelJson_def)
  qed
qed

lemma generateModelJson_dispatches:
  assumes "umpleSyncJarPath s = Some jar" and "jar \<noteq> []" and "existsSync h jar"
    and "\<forall>p. writeFailure h p = None"
  shows "attempts s < attempts (snd (generateModelJson h d s))"
proof -
  from generateModelJson_begin_sends [OF assms, of d] obtain tf tc s1 where
    b: "generateModelJson_begin h d s = (Inr (jar, tf, tc), s1)" by blast
  have "attempts s1 = attempts s"
    using generateModelJson_begin_store [of h d s] b by simp
  with generateModelJson_end_store [of h jar tf tc s1] b show ?thesis
    by (simp add: generateModelJson_def)
qed

lemma cacheModel_caches:
  assumes "cacheModel build d outcome s = (Resolved its, s1)"
  shows "modelCache s1 (uri d) = Some (version d, its) \<and> documents s1 = documents s
         \<and> attempts s1 = attempts s"
  using assms
  by (auto simp: cacheModel_def Let_def consoleWrite_def
           split: promise.splits option.splits if_splits)

lemma cachedItems_hit:
  "modelCache s (uri d) = Some (version d, its) \<Longrightarrow> cachedItems d s = Some its"
  by (simp add: cachedItems_def)

lemma cachedItems_miss: "modelCache s (uri d) = None \<Longrightarrow> cachedItems d s = None"
  by (simp add: cachedItems_def)

lemma cachedItems_Some:
  "cachedItems d s = Some its \<Longrightarrow> modelCache s (uri d) = Some (version d, its)"
  by (auto simp: cachedItems_def split: option.splits if_splits)

lemma getModelCompletions_hit:
  "modelCache s (uri d) = Some (version d, its) \<Longrightarrow>
   getModelCompletions h build d s = (Resolved its, s)"
  by (simp add: getModelCompletions_def cachedItems_hit)

lemma getModelCompletions_caches:
  assumes "getModelCompletions h build d s = (Resolved its, s1)"
  shows "modelCache s1 (uri d) = Some (version d, its) \<and> documents s1 = documents s"
proof (cases "cachedItems d s")
  case (Some c)
  with assms have "c = its" "s1 = s" by (simp_all add: getModelCompletions_def)
  with Some show ?thesis by (simp add: cachedItems_Some)
next
  case None
  obtain r s' where g: "generateModelJson h d s = (r, s')" by (cases "generateModelJson h d s")
  have st: "documents s' = documents s"
    using generateModelJson_store [of h d s] g by simp
  from assms None g have "cacheModel build d r s' = (Resolved its, s1)"
    by (simp add: getModelCompletions_def)
  from cacheModel_caches [OF this] st show ?thesis by simp
qed

lemma cacheModel_attempts: "attempts (snd (cacheModel build d outcome s)) = attempts s"
  by (auto simp: cacheModel_def Let_def consoleWrite_def
           split: promise.splits option.splits if_splits)

lemma getModelCompletions_miss:
  assumes "modelCache s (uri d) = None"
    and "umpleSyncJarPath s = Some jar" and "jar \<noteq> []" and "existsSync h jar"
    and "\<forall>p. writeFailure h p = None"
  shows "attempts s < attempts (snd (getModelCompletions h build d s))"
proof -
  obtain r s' where g: "generateModelJson h d s = (r, s')" by (cases "generateModelJson h d s")
  have "attempts s < attempts s'"
    using generateModelJson_dispatches [OF assms(2-5), of d] g by simp
  with assms(1) g cacheModel_attempts [of build d r s'] show ?thesis
    by (simp add: getModelCompletions_def cachedItems_miss)
qed

lemma scheduleValidation_store [simp]:
  "documents (scheduleValidation d s) = documents s"
  "modelCache (scheduleValidation d s) = modelCache s"
  "attempts (scheduleValidation d s) = attempts s"
  "umpleSyncJarPath (scheduleValidation d s) = umpleSyncJarPath s"
  by (simp_all add: scheduleValidation_def setTimeout_def clearTimeout_def Let_def
        split: option.splits)

lemma onDidChange_store:
  assumes "map_of (documents s) u = Some document"
  shows "modelCache (onDidChangeTextDocument u v t s) u = None"
    and "map_of (documents (onDidChangeTextDocument u v t s)) u
           = Some (document\<lparr>version := v, content := t\<rparr>)"
    and "attempts (onDidChangeTextDocument u v t s) = attempts s"
    and "umpleSyncJarPath (onDidChangeTextDocument u v t s) = umpleSyncJarPath s"
  using assms by (simp_all add: onDidChangeTextDocument_def Let_def update_conv')

text \<open>
  Requests that are served one after the other, each to its end before the next
  notification or request is taken. For a document \<open>u\<close> of the store: a completion
  request that has been answered leaves a state in which the same request is answered with
  the same model items and changes nothing, so no command is sent a second time; a change
  notification for \<open>u\<close> removes the entry of \<open>u\<close> from the model cache at once; and the
  completion request after it sends a command over the socket (when the UmpleSync jar is
  configured and exists and the temporary file can be written) and caches what it answers
  under the new version.
\<close>

lemma modelCache_sequential:
  fixes s :: server and document :: TextDocument
  assumes "map_of (documents s) u = Some document" and "uri document = u"
  shows "(\<forall>its s1. onCompletion h build u s = (Resolved its, s1) \<longrightarrow>
            modelCache s1 u = Some (version document, its)
            \<and> onCompletion h build u s1 = (Resolved its, s1)
            \<and> attempts (snd (onCompletion h build u s1)) = attempts s1)
       \<and> modelCache (onDidChangeTextDocument u v t s) u = None
       \<and> (umpleSyncJarPath s = Some jar \<and> jar \<noteq> [] \<and> existsSync h jar
            \<and> (\<forall>p. writeFailure h p = None) \<longrightarrow>
            attempts (onDidChangeTextDocument u v t s)
              < attempts (snd (onCompletion h build u (onDidChangeTextDocument u v t s))))
       \<and> (\<forall>its s2. onCompletion h build u (onDidChangeTextDocument u v t s) = (Resolved its, s2)
            \<longrightarrow> modelCache s2 u = Some (v, its))"
proof -
  let ?s' = "onDidChangeTextDocument u v t s"
  let ?d' = "document\<lparr>version := v, content := t\<rparr>"
  have a: "\<forall>its s1. onCompletion h build u s = (Resolved its, s1) \<longrightarrow>
            modelCache s1 u = Some (version document, its)
            \<and> onCompletion h build u s1 = (Resolved its, s1)
            \<and> attempts (snd (onCompletion h build u s1)) = attempts s1"
  proof (intro allI impI)
    fix its and s1 :: server
    assume "onCompletion h build u s = (Resolved its, s1)"
    with assms(1) have g: "getModelCompletions h build document s = (Resolved its, s1)"
      by (simp add: onCompletion_def)
    from getModelCompletions_caches [OF g] assms
    have c: "modelCache s1 u = Some (version document, its)"
      and d: "map_of (documents s1) u = Some document" by simp_all
    from c assms(2) have "getModelCompletions h build document s1 = (Resolved its, s1)"
      by (simp add: getModelCompletions_hit)
    with d have "onCompletion h build u s1 = (Resolved its, s1)"
      by (simp add: onCompletion_def)
    with c show "modelCache s1 u = Some (version document, its)
            \<and> onCompletion h build u s1 = (Resolved its, s1)
            \<and> attempts (snd (onCompletion h build u s1)) = attempts s1" by simp
  qed
  note ch = onDidChange_store [OF assms(1), of v t]
  have u': "uri ?d' = u" "version ?d' = v" using assms(2) by simp_all
  have oc: "onCompletion h build u ?s' = getModelCompletions h build ?d' ?s'"
    using ch(2) by (simp add: onCompletion_def)
  have b: "umpleSyncJarPath s = Some jar \<and> jar \<noteq> [] \<and> existsSync h jar
            \<and> (\<forall>p. writeFailure h p = None) \<longrightarrow>
            attempts ?s' < attempts (snd (onCompletion h build u ?s'))"
  proof
    assume j: "umpleSyncJarPath s = Some jar \<and> jar \<noteq> [] \<and> existsSync h jar
            \<and> (\<forall>p. writeFailure h p = None)"
    have "attempts ?s' < attempts (snd (getModelCompletions h build ?d' ?s'))"
    proof (rule getModelCompletions_miss)
      show "modelCache ?s' (uri ?d') = None" using ch(1) u'(1) by simp
      show "umpleSyncJarPath ?s' = Some jar" using ch(4) j by simp
      show "jar \<noteq> []" using j by simp
      show "existsSync h jar" using j by simp
      show "\<forall>p. writeFailure h p = None" using j by simp
    qed
    with oc show "attempts ?s' < attempts (snd (onCompletion h build u ?s'))" by simp
  qed
  have c: "\<forall>its s2. onCompletion h build u ?s' = (Resolved its, s2)
            \<longrightarrow> modelCache s2 u = Some (v, its)"
  proof (intro allI impI)
    fix its and s2 :: server
    assume "onCompletion h build u ?s' = (Resolved its, s2)"
    with oc have "getModelCompletions h build ?d' ?s' = (Resolved its, s2)" by simp
    from getModelCompletions_caches [OF this] u'
    show "modelCache s2 u = Some (v, its)" by simp
  qed
  from a ch(1) b c show ?thesis by blast
qed

text \<open>
  Claim C4. A change notification that is handled while a completion request waits for the
  compiler service. The document \<^verbatim>\<open>file:///p/a.ump\<close> is opened at version 1; the service
  answers the first command with the model of a class \<^verbatim>\<open>A\<close> and any later one with the
  model of a class \<^verbatim>\<open>B\<close>. The request sends its command and waits; the change to
  version 2 removes the cache entry, of which there is none yet, and changes the document
  object that the request holds; the answer arrives, and \<^verbatim>\<open>modelCache.set\<close> reads the
  version from that object: the items of version 1 are cached under version 2. The next
  completion request, at version 2, is answered from the cache with these items and sends
  no command: one attempt on the socket has been made in all. When the first request is
  served to its end before the change is handled, the request after the change sends the
  second command and answers with the items of \<^verbatim>\<open>B\<close>.
\<close>

theorem getModelCompletions_edit_in_flight:
  "\<exists>s2 s4.
     onCompletion_begin
       \<lparr>socket = (\<lambda>n c. Inr (if n = 0 then ''{\"name\":\"A\"}'' else ''{\"name\":\"B\"}'')),
        existsSync = (\<lambda>p. True), lookup = (\<lambda>f l c. Inr []),
        walkUmpleFiles = (\<lambda>d. []), mirrorFailure = None, overlayFailure = None,
        tempName = (\<lambda>p. p @ ''abc123''), tmpdir = ''/tmp'', cwd = ''/'',
        fileURLToPath = (\<lambda>u. Some (drop 7 u)), pathToFileURL = (\<lambda>p. ''file://'' @ p),
        writeFailure = (\<lambda>p. None)\<rparr>
       (\<lambda>model. case model of
                   JObject [(k, JString n)] \<Rightarrow>
                     Some [\<lparr>label = n, kind = ClassKind, detail = Some ''class''\<rparr>]
                 | other \<Rightarrow> Some [])
       ''file:///p/a.ump''
       (onDidOpenTextDocument ''file:///p/a.ump'' ''umple'' 1 ''class A {}''
          (initialServer\<lparr>umpleSyncJarPath := Some ''/opt/umplesync.jar''\<rparr>))
       = (Inr 0, s2)
   \<and> onCompletion_end
       \<lparr>socket = (\<lambda>n c. Inr (if n = 0 then ''{\"name\":\"A\"}'' else ''{\"name\":\"B\"}'')),
        existsSync = (\<lambda>p. True), lookup = (\<lambda>f l c. Inr []),
        walkUmpleFiles = (\<lambda>d. []), mirrorFailure = None, overlayFailure = None,
        tempName = (\<lambda>p. p @ ''abc123''), tmpdir = ''/tmp'', cwd = ''/'',
        fileURLToPath = (\<lambda>u. Some (drop 7 u)), pathToFileURL = (\<lambda>p. ''file://'' @ p),
        writeFailure = (\<lambda>p. None)\<rparr>
       (\<lambda>model. case model of
                   JObject [(k, JString n)] \<Rightarrow>
                     Some [\<lparr>label = n, kind = ClassKind, detail = Some ''class''\<rparr>]
                 | other \<Rightarrow> Some [])
       0 (onDidChangeTextDocument ''file:///p/a.ump'' 2 ''class B {}'' s2)
       = Some (Resolved [\<lparr>label = ''A'', kind = ClassKind, detail = Some ''class''\<rparr>], s4)
   \<and> map_of (documents s4) ''file:///p/a.ump''
       = Some \<lparr>uri = ''file:///p/a.ump'', languageId = ''umple'', version = 2,
               content = ''class B {}''\<rparr>
   \<and> modelCache s4 ''file:///p/a.ump''
       = Some (2, [\<lparr>label = ''A'', kind = ClassKind, detail = Some ''class''\<rparr>])
   \<and> attempts s4 = 1
   \<and> onCompletion
       \<lparr>socket = (\<lambda>n c. Inr (if n = 0 then ''{\"name\":\"A\"}'' else ''{\"name\":\"B\"}'')),
        existsSync = (\<lambda>p. True), lookup = (\<lambda>f l c. Inr []),
        walkUmpleFiles = (\<lambda>d. []), mirrorFailure = None, overlayFailure = None,
        tempName = (\<lambda>p. p @ ''abc123''), tmpdir = ''/tmp'', cwd = ''/'',
        fileURLToPath = (\<lambda>u. Some (drop 7 u)), pathToFileURL = (\<lambda>p. ''file://'' @ p),
        writeFailure = (\<lambda>p. None)\<rparr>
       (\<lambda>model. case model of
                   JObject [(k, JString n)] \<Rightarrow>
                     Some [\<lparr>label = n, kind = ClassKind, detail = Some ''class''\<rparr>]
                 | other \<Rightarrow> Some [])
       ''file:///p/a.ump'' s4
       = (Resolved [\<lparr>label = ''A'', kind = ClassKind, detail = Some ''class''\<rparr>], s4)
   \<and> (\<exists>sa sc.
        onCompletion
          \<lparr>socket = (\<lambda>n c. Inr (if n = 0 then ''{\"name\":\"A\"}'' else ''{\"name\":\"B\"}'')),
           existsSync = (\<lambda>p. True), lookup = (\<lambda>f l c. Inr []),
           walkUmpleFiles = (\<lambda>d. []), mirrorFailure = None, overlayFailure = None,
           tempName = (\<lambda>p. p @ ''abc123''), tmpdir = ''/tmp'', cwd = ''/'',
           fileURLToPath = (\<lambda>u. Some (drop 7 u)), pathToFileURL = (\<lambda>p. ''file://'' @ p),
           writeFailure = (\<lambda>p. None)\<rparr>
          (\<lambda>model. case model of
                      JObject [(k, JString n)] \<Rightarrow>
                        Some [\<lparr>label = n, kind = ClassKind, detail = Some ''class''\<rparr>]
                    | other \<Rightarrow> Some [])
          ''file:///p/a.ump''
          (onDidOpenTextDocument ''file:///p/a.ump'' ''umple'' 1 ''class A {}''
             (initialServer\<lparr>umpleSyncJarPath := Some ''/opt/umplesync.jar''\<rparr>))
          = (Resolved [\<lparr>label = ''A'', kind = ClassKind, detail = Some ''class''\<rparr>], sa)
        \<and> onCompletion
          \<lparr>socket = (\<lambda>n c. Inr (if n = 0 then ''{\"name\":\"A\"}'' else ''{\"name\":\"B\"}'')),
           existsSync = (\<lambda>p. True), lookup = (\<lambda>f l c. Inr []),
           walkUmpleFiles = (\<lambda>d. []), mirrorFailure = None, overlayFailure = None,
           tempName = (\<lambda>p. p @ ''abc123''), tmpdir = ''/tmp'', cwd = ''/'',
           fileURLToPath = (\<lambda>u. Some (drop 7 u)), pathToFileURL = (\<lambda>p. ''file://'' @ p),
           writeFailure = (\<lambda>p. None)\<rparr>
          (\<lambda>model. case model of
                      JObject [(k, JString n)] \<Rightarrow>
                        Some [\<lparr>label = n, kind = ClassKind, detail = Some ''class''\<rparr>]
                    | other \<Rightarrow> Some [])
          ''file:///p/a.ump''
          (onDidChangeTextDocument ''file:///p/a.ump'' 2 ''class B {}'' sa)
          = (Resolved [\<lparr>label = ''B'', kind = ClassKind, detail = Some ''class''\<rparr>], sc)
        \<and> attempts sc = 2)"
proof -
  let ?h = "\<lparr>socket = (\<lambda>n c. Inr (if n = 0 then ''{\"name\":\"A\"}'' else ''{\"name\":\"B\"}'')),
        existsSync = (\<lambda>p. True), lookup = (\<lambda>f l c. Inr []),
        walkUmpleFiles = (\<lambda>d. []), mirrorFailure = None, overlayFailure = None,
        tempName = (\<lambda>p. p @ ''abc123''), tmpdir = ''/tmp'', cwd = ''/'',
        fileURLToPath = (\<lambda>u. Some (drop 7 u)), pathToFileURL = (\<lambda>p. ''file://'' @ p),
        writeFailure = (\<lambda>p. None)\<rparr> :: host"
  let ?b = "\<lambda>model. case model of
                   JObject [(k, JString n)] \<Rightarrow>
                     Some [\<lparr>label = n, kind = ClassKind, detail = Some ''class''\<rparr>]
                 | other \<Rightarrow> Some []"
  let ?u = "''file:///p/a.ump''"
  let ?s1 = "onDidOpenTextDocument ?u ''umple'' 1 ''class A {}''
          (initialServer\<lparr>umpleSyncJarPath := Some ''/opt/umplesync.jar''\<rparr>)"
  let ?A = "[\<lparr>label = ''A'', kind = ClassKind, detail = Some ''class''\<rparr>]"
  let ?B = "[\<lparr>label = ''B'', kind = ClassKind, detail = Some ''class''\<rparr>]"
  let ?d2 = "\<lparr>uri = ?u, languageId = ''umple'', version = 2, content = ''class B {}''\<rparr>"
  let ?s2 = "snd (onCompletion_begin ?h ?b ?u ?s1)"
  let ?e = "onCompletion_end ?h ?b 0 (onDidChangeTextDocument ?u 2 ''class B {}'' ?s2)"
  let ?s4 = "snd (the ?e)"
  let ?sa = "snd (onCompletion ?h ?b ?u ?s1)"
  let ?sc = "snd (onCompletion ?h ?b ?u (onDidChangeTextDocument ?u 2 ''class B {}'' ?sa))"
  have "fst (onCompletion_begin ?h ?b ?u ?s1) = Inr 0" by code_simp
  then have e1: "onCompletion_begin ?h ?b ?u ?s1 = (Inr 0, ?s2)" by (simp add: prod_eq_iff)
  have "map_option fst ?e = Some (Resolved ?A)" by code_simp
  then have e2: "?e = Some (Resolved ?A, ?s4)" by (cases ?e) (auto simp: prod_eq_iff)
  have d4: "map_of (documents ?s4) ?u = Some ?d2" by code_simp
  have c4: "modelCache ?s4 ?u = Some (2, ?A)" by code_simp
  have a4: "attempts ?s4 = 1" by code_simp
  have c4': "modelCache ?s4 (uri ?d2) = Some (version ?d2, ?A)" by code_simp
  have g4: "getModelCompletions ?h ?b ?d2 ?s4 = (Resolved ?A, ?s4)"
    by (rule getModelCompletions_hit [OF c4'])
  have e3: "onCompletion ?h ?b ?u ?s4 = (Resolved ?A, ?s4)"
    unfolding onCompletion_def d4 option.case by (rule g4)
  have "fst (onCompletion ?h ?b ?u ?s1) = Resolved ?A" by code_simp
  then have e5: "onCompletion ?h ?b ?u ?s1 = (Resolved ?A, ?sa)" by (simp add: prod_eq_iff)
  have "fst (onCompletion ?h ?b ?u (onDidChangeTextDocument ?u 2 ''class B {}'' ?sa))
        = Resolved ?B" by code_simp
  then have e6: "onCompletion ?h ?b ?u (onDidChangeTextDocument ?u 2 ''class B {}'' ?sa)
        = (Resolved ?B, ?sc)" by (simp add: prod_eq_iff)
  have a6: "attempts ?sc = 2" by code_simp
  from e5 e6 a6 have seq: "\<exists>sa sc. onCompletion ?h ?b ?u ?s1 = (Resolved ?A, sa)
        \<and> onCompletion ?h ?b ?u (onDidChangeTextDocument ?u 2 ''class B {}'' sa)
            = (Resolved ?B, sc)
        \<and> attempts sc = 2" by blast
  from e1 e2 d4 c4 a4 e3 seq show ?thesis by blast
qed

section \<open>Properties of context detection\<close>































section \<open>Definition results inside the shadow workspace\<close>

lemma createShadowWorkspace_root:
  assumes "createShadowWorkspace h d l s = (Resolved (Some sw), s')"
  shows "workspaceRoot sw \<noteq> []"
  using assms
  by (auto simp: createShadowWorkspace_def Let_def
           split: option.splits if_splits prod.splits sum.splits)

lemma isAbsolute_nonempty: "isAbsolute p \<Longrightarrow> p \<noteq> []"
  by (auto simp: isAbsolute_def)

lemma resolveDefinitionUri_shadow:
  fixes res :: GoToDefResult and document :: TextDocument
  assumes "file' res = Some raw" and "isAbsolute (trim raw)"
    and "basename (trim raw) \<noteq> basename tempFile"
    and "getDocumentFilePath h document \<noteq> Some (trim raw)"
    and "sr \<noteq> []" and "wr \<noteq> []"
    and "isPathInside h (trim raw) sr"
  shows "resolveDefinitionUri h res document tempFile (Some sr) (Some wr)
         = pathToFileURL h (path_join wr (relative (cwd h) sr (trim raw)))"
proof -
  have ne: "trim raw \<noteq> []" using assms(2) by (rule isAbsolute_nonempty)
  have nt: "trim raw \<noteq> tempFile" using assms(3) by auto
  from assms(7) have ins: "\<not> startsWith (relative (cwd h) sr (trim raw)) ''..''"
    "\<not> isAbsolute (relative (cwd h) sr (trim raw))"
    by (simp_all add: isPathInside_def Let_def)
  show ?thesis
    using assms(1-6) ne nt ins
    by (simp add: resolveDefinitionUri_def Let_def split: option.splits)
qed

text \<open>
  A result in another directory of the shadow workspace whose file has the name of the
  buffer's own file: the buffer is \<^verbatim>\<open>/w/A.ump\<close>, its shadow file is
  \<^verbatim>\<open>/tmp/umple-shadow-def-abc123/A.ump\<close>, and the lookup answers with
  \<^verbatim>\<open>/tmp/umple-shadow-def-abc123/lib/A.ump\<close>, the mirror of \<^verbatim>\<open>/w/lib/A.ump\<close>. The
  comparison of the base names answers with the URI of the buffer, not with the path under
  the workspace root.
\<close>

theorem onDefinition_same_basename:
  "fst (onDefinition
         \<lparr>socket = (\<lambda>n c. Inr []), existsSync = (\<lambda>p. True),
          lookup = (\<lambda>f l c. Inr (''{\"found\":true,\"file\":''
                     @ ''\"/tmp/umple-shadow-def-abc123/lib/A.ump\",\"line\":3,\"col\":5}'')),
          walkUmpleFiles = (\<lambda>d. [''/w/A.ump'', ''/w/lib/A.ump'']),
          mirrorFailure = None, overlayFailure = None,
          tempName = (\<lambda>p. p @ ''abc123''), tmpdir = ''/tmp'', cwd = ''/'',
          fileURLToPath = (\<lambda>u. Some (drop 7 u)), pathToFileURL = (\<lambda>p. ''file://'' @ p),
          writeFailure = (\<lambda>p. None)\<rparr>
         ''file:///w/A.ump'' 0 6
         (onDidOpenTextDocument ''file:///w/A.ump'' ''umple'' 1 ''class A {}''
            (initialServer\<lparr>workspaceRoots := [''/w''], umpleJarPath := Some ''/opt/umple.jar'',
               umpleGoToDefClasspath := Some ''/opt/tools''\<rparr>)))
     = Resolved [\<lparr>uri' = ''file:///w/A.ump'',
                  range' = \<lparr>start = \<lparr>line = 2, character = 4\<rparr>,
                            end' = \<lparr>line = 2, character = 4\<rparr>\<rparr>\<rparr>]
   \<and> ''file://'' @ path_join ''/w''
         (relative ''/'' ''/tmp/umple-shadow-def-abc123''
            ''/tmp/umple-shadow-def-abc123/lib/A.ump'') = ''file:///w/lib/A.ump''
   \<and> path_join ''/tmp/umple-shadow-def-abc123'' (relative ''/'' ''/w'' ''/w/A.ump'')
       = ''/tmp/umple-shadow-def-abc123/A.ump''"
  by code_simp

text \<open>
  Claim C6, amended. A definition request for a document of the store, for which the
  shadow workspace is built and the lookup answers with a found result whose file is an
  absolute path inside the shadow root (its path relative to the shadow root does not
  begin with \<^verbatim>\<open>..\<close>), has another base name than the buffer's shadow file and is not the
  path of the buffer itself: the answer is one location, its URI that of the path relative
  to the shadow root joined onto the workspace root, its range empty, at the line and the
  column of the result less one and not below zero (1 where the result has none).
\<close>

theorem onDefinition_shadow_rewrite:
  fixes s :: server and document :: TextDocument and sw :: ShadowWorkspace
    and res :: GoToDefResult
  assumes "map_of (documents s) u = Some document"
    and "resolveGoToDefSettings h s = (Some (jar, cp), s1)"
    and "createShadowWorkspace h document ''def'' s1 = (Resolved (Some sw), s2)"
    and "shadowRoot sw \<noteq> []"
    and "lookup h (filePath sw) (ln + 1) ch = Inr stdout"
    and "parseGoToDefOutput stdout = Returns (Some res)"
    and "found res"
    and "file' res = Some raw" and "isAbsolute (trim raw)"
    and "isPathInside h (trim raw) (shadowRoot sw)"
    and "basename (trim raw) \<noteq> basename (filePath sw)"
    and "getDocumentFilePath h document \<noteq> Some (trim raw)"
    and "(case lineNo res of None \<Rightarrow> 1 | Some l \<Rightarrow> l) = l"
    and "(case col res of None \<Rightarrow> 1 | Some c \<Rightarrow> c) = c"
    and "l \<le> 2147483648" and "c \<le> 2147483648"
  shows "fst (onDefinition h u ln ch s)
     = Resolved
         [\<lparr>uri' = pathToFileURL h
                    (path_join (workspaceRoot sw)
                       (relative (cwd h) (shadowRoot sw) (trim raw))),
           range' = \<lparr>start = \<lparr>line = nat (max (l - 1) 0), character = nat (max (c - 1) 0)\<rparr>,
                     end' = \<lparr>line = nat (max (l - 1) 0), character = nat (max (c - 1) 0)\<rparr>\<rparr>\<rparr>]"
proof -
  have wr: "workspaceRoot sw \<noteq> []" using assms(3) by (rule createShadowWorkspace_root)
  have target: "resolveDefinitionUri h res document (filePath sw)
                  (Some (shadowRoot sw)) (Some (workspaceRoot sw))
        = pathToFileURL h (path_join (workspaceRoot sw)
                       (relative (cwd h) (shadowRoot sw) (trim raw)))"
    using assms(8,9,11,12,4) wr assms(10) by (rule resolveDefinitionUri_shadow)
  have ul: "uinteger (Num (max (l - 1) 0)) = Some (nat (max (l - 1) 0))"
    using assms(15) by simp
  have uc: "uinteger (Num (max (c - 1) 0)) = Some (nat (max (c - 1) 0))"
    using assms(16) by simp
  show ?thesis
    using assms(1,2,3,5,6,7,13,14) target ul uc
    by (simp add: onDefinition_def Let_def)
qed

theorem onDefinition_shadow_rewrite_witness:
  "fst (createShadowWorkspace
         \<lparr>socket = (\<lambda>n c. Inr []), existsSync = (\<lambda>p. True),
          lookup = (\<lambda>f l c. Inr (''{\"found\":true,\"file\":''
                     @ ''\"/tmp/umple-shadow-def-abc123/lib/B.ump\",\"line\":3,\"col\":5}'')),
          walkUmpleFiles = (\<lambda>d. [''/w/A.ump'', ''/w/lib/B.ump'']),
          mirrorFailure = None, overlayFailure = None,
          tempName = (\<lambda>p. p @ ''abc123''), tmpdir = ''/tmp'', cwd = ''/'',
          fileURLToPath = (\<lambda>u. Some (drop 7 u)), pathToFileURL = (\<lambda>p. ''file://'' @ p),
          writeFailure = (\<lambda>p. None)\<rparr>
         \<lparr>uri = ''file:///w/A.ump'', languageId = ''umple'', version = 1,
          content = ''class A {}''\<rparr> ''def''
         (onDidOpenTextDocument ''file:///w/A.ump'' ''umple'' 1 ''class A {}''
            (initialServer\<lparr>workspaceRoots := [''/w''], umpleJarPath := Some ''/opt/umple.jar'',
               umpleGoToDefClasspath := Some ''/opt/tools''\<rparr>)))
     = Resolved (Some \<lparr>filePath = ''/tmp/umple-shadow-def-abc123/A.ump'',
                       shadowRoot = ''/tmp/umple-shadow-def-abc123'', workspaceRoot = ''/w''\<rparr>)
   \<and> parseGoToDefOutput (''{\"found\":true,\"file\":''
                     @ ''\"/tmp/umple-shadow-def-abc123/lib/B.ump\",\"line\":3,\"col\":5}'')
     = Returns (Some \<lparr>found = True, file' = Some ''/tmp/umple-shadow-def-abc123/lib/B.ump'',
                       lineNo = Some 3, col = Some 5\<rparr>)
   \<and> fst (onDefinition
         \<lparr>socket = (\<lambda>n c. Inr []), existsSync = (\<lambda>p. True),
          lookup = (\<lambda>f l c. Inr (''{\"found\":true,\"file\":''
                     @ ''\"/tmp/umple-shadow-def-abc123/lib/B.ump\",\"line\":3,\"col\":5}'')),
          walkUmpleFiles = (\<lambda>d. [''/w/A.ump'', ''/w/lib/B.ump'']),
          mirrorFailure = None, overlayFailure = None,
          tempName = (\<lambda>p. p @ ''abc123''), tmpdir = ''/tmp'', cwd = ''/'',
          fileURLToPath = (\<lambda>u. Some (drop 7 u)), pathToFileURL = (\<lambda>p. ''file://'' @ p),
          writeFailure = (\<lambda>p. None)\<rparr>
         ''file:///w/A.ump'' 0 6
         (onDidOpenTextDocument ''file:///w/A.ump'' ''umple'' 1 ''class A {}''
            (initialServer\<lparr>workspaceRoots := [''/w''], umpleJarPath := Some ''/opt/umple.jar'',
               umpleGoToDefClasspath := Some ''/opt/tools''\<rparr>)))
     = Resolved [\<lparr>uri' = ''file:///w/lib/B.ump'',
                  range' = \<lparr>start = \<lparr>line = 2, character = 4\<rparr>,
                            end' = \<lparr>line = 2, character = 4\<rparr>\<rparr>\<rparr>]"
proof -
  let ?out = "''{\"found\":true,\"file\":''
                     @ ''\"/tmp/umple-shadow-def-abc123/lib/B.ump\",\"line\":3,\"col\":5}''"
  let ?h = "\<lparr>socket = (\<lambda>n c. Inr []), existsSync = (\<lambda>p. True),
          lookup = (\<lambda>f l c. Inr ?out),
          walkUmpleFiles = (\<lambda>d. [''/w/A.ump'', ''/w/lib/B.ump'']),
          mirrorFailure = None, overlayFailure = None,
          tempName = (\<lambda>p. p @ ''abc123''), tmpdir = ''/tmp'', cwd = ''/'',
          fileURLToPath = (\<lambda>u. Some (drop 7 u)), pathToFileURL = (\<lambda>p. ''file://'' @ p),
          writeFailure = (\<lambda>p. None)\<rparr>
          :: host"
  let ?u = "''file:///w/A.ump''"
  let ?d = "\<lparr>uri = ?u, languageId = ''umple'', version = 1, content = ''class A {}''\<rparr>"
  let ?s = "onDidOpenTextDocument ?u ''umple'' 1 ''class A {}''
            (initialServer\<lparr>workspaceRoots := [''/w''], umpleJarPath := Some ''/opt/umple.jar'',
               umpleGoToDefClasspath := Some ''/opt/tools''\<rparr>)"
  let ?sw = "\<lparr>filePath = ''/tmp/umple-shadow-def-abc123/A.ump'',
             shadowRoot = ''/tmp/umple-shadow-def-abc123'', workspaceRoot = ''/w''\<rparr>"
  let ?raw = "''/tmp/umple-shadow-def-abc123/lib/B.ump''"
  let ?res = "\<lparr>found = True, file' = Some ?raw, lineNo = Some 3, col = Some 5\<rparr>"
  let ?s1 = "snd (resolveGoToDefSettings ?h ?s)"
  let ?s2 = "snd (createShadowWorkspace ?h ?d ''def'' ?s1)"
  note c = onDefinition_shadow_rewrite
  have h1: "map_of (documents ?s) ?u = Some ?d" by code_simp
  have "fst (resolveGoToDefSettings ?h ?s) = Some (''/opt/umple.jar'', ''/opt/tools'')"
    by code_simp
  then have h2: "resolveGoToDefSettings ?h ?s = (Some (''/opt/umple.jar'', ''/opt/tools''), ?s1)"
    by (simp add: prod_eq_iff)
  have s1: "?s1 = ?s" by (simp add: resolveGoToDefSettings_def onDidOpenTextDocument_def
        scheduleValidation_def setTimeout_def clearTimeout_def initialServer_def
        detachRequests_def Let_def)
  have f3: "fst (createShadowWorkspace ?h ?d ''def'' ?s) = Resolved (Some ?sw)" by code_simp
  then have h3: "createShadowWorkspace ?h ?d ''def'' ?s1 = (Resolved (Some ?sw), ?s2)"
    unfolding s1 by (simp add: prod_eq_iff)
  have h4: "shadowRoot ?sw \<noteq> []" by simp
  have h5: "lookup ?h (filePath ?sw) (0 + 1) 6 = Inr ?out" by simp
  have h6: "parseGoToDefOutput ?out = Returns (Some ?res)" by code_simp
  have h7: "found ?res" by simp
  have h8: "file' ?res = Some ?raw" by simp
  have h9: "isAbsolute (trim ?raw)" by code_simp
  have h10: "isPathInside ?h (trim ?raw) (shadowRoot ?sw)" by code_simp
  have h11: "basename (trim ?raw) \<noteq> basename (filePath ?sw)" by code_simp
  have h12: "getDocumentFilePath ?h ?d \<noteq> Some (trim ?raw)" by code_simp
  have h13: "(case lineNo ?res of None \<Rightarrow> 1 | Some l \<Rightarrow> l) = 3" by simp
  have h14: "(case col ?res of None \<Rightarrow> 1 | Some c \<Rightarrow> c) = 5" by simp
  have ev: "pathToFileURL ?h (path_join (workspaceRoot ?sw)
              (relative (cwd ?h) (shadowRoot ?sw) (trim ?raw))) = ''file:///w/lib/B.ump''"
    by code_simp
  have r: "fst (onDefinition ?h ?u 0 6 ?s)
     = Resolved
         [\<lparr>uri' = pathToFileURL ?h (path_join (workspaceRoot ?sw)
                       (relative (cwd ?h) (shadowRoot ?sw) (trim ?raw))),
           range' = \<lparr>start = \<lparr>line = nat (max (3 - 1) 0), character = nat (max (5 - 1) 0)\<rparr>,
                     end' = \<lparr>line = nat (max (3 - 1) 0), character = nat (max (5 - 1) 0)\<rparr>\<rparr>\<rparr>]"
    by (rule c [OF h1 h2 h3 h4 h5 h6 h7 h8 h9 h10 h11 h12 h13 h14]) simp_all
  have n: "nat (max (3 - 1) 0) = 2" "nat (max (5 - 1) 0) = 4" by simp_all
  from r have r': "fst (onDefinition ?h ?u 0 6 ?s)
     = Resolved [\<lparr>uri' = ''file:///w/lib/B.ump'',
                  range' = \<lparr>start = \<lparr>line = 2, character = 4\<rparr>,
                            end' = \<lparr>line = 2, character = 4\<rparr>\<rparr>\<rparr>]"
    unfolding ev n .
  from f3 h6 r' show ?thesis by blast
qed

end
